theory Spec2Isabelle
  imports Complex_Main "HOL-Library.AList" "HOL-Library.Sublist"
begin

section \<open>Python values\<close>

text \<open>
  The program passes loosely typed JSON-like values around (\<^verbatim>\<open>Dict[str, Any]\<close>).
  A value is \<^verbatim>\<open>None\<close>, a bool, an int, a (finite) float, a str, a list or a dict. A dict
  is an association list in insertion order; only its first binding of a key is visible, as
  \<open>map_of\<close> reads it. A str is held as the bytes of its UTF-8 encoding.
\<close>

datatype json =
    JNull
  | JBool bool
  | JInt int
  | JFloat real
  | JStr string
  | JList "json list"
  | JObj "(string \<times> json) list"

type_synonym dict = "(string \<times> json) list"

text \<open>Exceptions carry the text that \<^verbatim>\<open>str(exc)\<close> yields, in the wording of CPython 3.11.
  \<open>Exception\<close> stands for any exception class that is not one of the others (a tool's network
  error, for instance).\<close>

datatype exn =
    TypeError string
  | AttributeError string
  | KeyError string
  | ValueError string
  | Exception string
  | HTTPException nat string

fun exn_str :: "exn \<Rightarrow> string" where
  "exn_str (TypeError m) = m"
| "exn_str (AttributeError m) = m"
| "exn_str (KeyError m) = m"
| "exn_str (ValueError m) = m"
| "exn_str (Exception m) = m"
| "exn_str (HTTPException c m) = m"

fun type_name :: "json \<Rightarrow> string" where
  "type_name JNull = ''NoneType''"
| "type_name (JBool b) = ''bool''"
| "type_name (JInt i) = ''int''"
| "type_name (JFloat r) = ''float''"
| "type_name (JStr s) = ''str''"
| "type_name (JList xs) = ''list''"
| "type_name (JObj kv) = ''dict''"

text \<open>Truthiness, as \<^verbatim>\<open>if v:\<close> and \<^verbatim>\<open>v or d\<close> test it.\<close>

fun py_truthy :: "json \<Rightarrow> bool" where
  "py_truthy JNull = False"
| "py_truthy (JBool b) = b"
| "py_truthy (JInt i) = (i \<noteq> 0)"
| "py_truthy (JFloat r) = (r \<noteq> 0)"
| "py_truthy (JStr s) = (s \<noteq> [])"
| "py_truthy (JList xs) = (xs \<noteq> [])"
| "py_truthy (JObj kv) = (kv \<noteq> [])"

definition py_or :: "json \<Rightarrow> json \<Rightarrow> json" where
  "py_or a b = (if py_truthy a then a else b)"

text \<open>\<^verbatim>\<open>d.get(k)\<close> and \<^verbatim>\<open>d.get(k, default)\<close>.\<close>

definition get :: "dict \<Rightarrow> string \<Rightarrow> json" where
  "get d k = (case map_of d k of None \<Rightarrow> JNull | Some v \<Rightarrow> v)"

definition get_default :: "dict \<Rightarrow> string \<Rightarrow> json \<Rightarrow> json" where
  "get_default d k dflt = (case map_of d k of None \<Rightarrow> dflt | Some v \<Rightarrow> v)"

text \<open>\<^verbatim>\<open>d[k] = v\<close>: an existing key keeps its position, a new key goes last.\<close>

definition setitem :: "dict \<Rightarrow> string \<Rightarrow> json \<Rightarrow> dict" where
  "setitem d k v = AList.update k v d"

subsection \<open>Decimal text of integers\<close>

definition digit_char :: "nat \<Rightarrow> char" where
  "digit_char d = ''0123456789'' ! d"

fun show_nat :: "nat \<Rightarrow> string" where
  "show_nat n = (if n < 10 then [digit_char n] else show_nat (n div 10) @ [digit_char (n mod 10)])"

declare show_nat.simps [simp del]

definition show_int :: "int \<Rightarrow> string" where
  "show_int i = (if i < 0 then CHR ''-'' # show_nat (nat (- i)) else show_nat (nat i))"

text \<open>\<^verbatim>\<open>str(v)\<close> and \<^verbatim>\<open>f"{v}"\<close>. The text of a float, a list or a dict is Python's
  \<^verbatim>\<open>repr\<close>, taken as the parameter \<open>rp\<close>.\<close>

fun py_str :: "(json \<Rightarrow> string) \<Rightarrow> json \<Rightarrow> string" where
  "py_str rp JNull = ''None''"
| "py_str rp (JBool b) = (if b then ''True'' else ''False'')"
| "py_str rp (JInt i) = show_int i"
| "py_str rp (JStr s) = s"
| "py_str rp v = rp v"

text \<open>\<^verbatim>\<open>sep.join(xs)\<close>.\<close>

fun join :: "string \<Rightarrow> string list \<Rightarrow> string" where
  "join sep [] = []"
| "join sep [x] = x"
| "join sep (x # y # ys) = x @ sep @ join sep (y # ys)"

subsection \<open>The characters of a str\<close>

text \<open>Python counts, indexes and iterates the code points of a str. In UTF-8 every code point
  is one leading byte followed by its continuation bytes, which are the bytes \<^verbatim>\<open>10xxxxxx\<close>;
  \<open>code_points\<close> cuts the bytes before every byte that is not a continuation byte.\<close>

fun is_cont :: "char \<Rightarrow> bool" where
  "is_cont (Char b0 b1 b2 b3 b4 b5 b6 b7) = (b7 \<and> \<not> b6)"

function code_points :: "string \<Rightarrow> string list" where
  "code_points [] = []"
| "code_points (c # cs) = (c # takeWhile is_cont cs) # code_points (dropWhile is_cont cs)"
  by pat_completeness auto

termination
  by (relation "measure length") (auto simp: length_dropWhile_le less_Suc_eq_le)

subsection \<open>Hashing and key equality\<close>

text \<open>Lists and dicts are unhashable: using one as a dict key or set element raises
  \<^verbatim>\<open>TypeError\<close>. Keys are compared with \<^verbatim>\<open>==\<close>, under which \<^verbatim>\<open>True == 1 == 1.0\<close>.\<close>

fun py_hashable :: "json \<Rightarrow> bool" where
  "py_hashable (JList xs) = False"
| "py_hashable (JObj kv) = False"
| "py_hashable v = True"

definition unhashable :: "json \<Rightarrow> exn" where
  "unhashable v = TypeError (''unhashable type: '' @ [CHR 0x27] @ type_name v @ [CHR 0x27])"

fun num_val :: "json \<Rightarrow> real option" where
  "num_val (JBool b) = Some (if b then 1 else 0)"
| "num_val (JInt i) = Some (of_int i)"
| "num_val (JFloat r) = Some r"
| "num_val v = None"

definition py_eq :: "json \<Rightarrow> json \<Rightarrow> bool" where
  "py_eq a b = (case (num_val a, num_val b) of
                  (Some x, Some y) \<Rightarrow> x = y
                | (None, None) \<Rightarrow> a = b
                | _ \<Rightarrow> False)"

text \<open>A dict with arbitrary hashable keys, in insertion order: \<^verbatim>\<open>m[k] = v\<close> keeps the key
  object that was inserted first and replaces its value; \<^verbatim>\<open>m.get(k)\<close>.\<close>

fun kset :: "(json \<times> 'v) list \<Rightarrow> json \<Rightarrow> 'v \<Rightarrow> (json \<times> 'v) list" where
  "kset [] k v = [(k, v)]"
| "kset ((k', v') # m) k v = (if py_eq k' k then (k', v) # m else (k', v') # kset m k v)"

fun kget :: "(json \<times> 'v) list \<Rightarrow> json \<Rightarrow> 'v option" where
  "kget [] k = None"
| "kget ((k', v') # m) k = (if py_eq k' k then Some v' else kget m k)"

section \<open>The environment\<close>

text \<open>
  Everything outside the core is a parameter. \<open>'w\<close> is the state of the outside world (network,
  clock, language model).
  \<^item> \<open>call_tool name args\<close> is \<^verbatim>\<open>TOOL_REGISTRY[name](**args)\<close> for the three registered
    callables, including a failure of the keyword unpacking itself: it returns the tool's
    output or the exception it raised.
  \<^item> \<open>elapsed_ms w w'\<close> is \<^verbatim>\<open>int((time.perf_counter() - start) * 1000)\<close> where the clock was
    started in world \<open>w\<close> and is read in world \<open>w'\<close>.
  \<^item> \<open>py_repr\<close> is \<^verbatim>\<open>repr\<close> on floats, lists and dicts.
  \<^item> \<open>planner_oracle task\<close> is \<^verbatim>\<open>chat_json(PLANNER_SYSTEM, build_planner_user_prompt(task, TOOL_SPECS))\<close>.
  \<^item> \<open>verifier_oracle task plan compact\<close> is
    \<^verbatim>\<open>chat_json(VERIFIER_SYSTEM, build_verifier_user_prompt(task, plan, compact))\<close>.
\<close>

record 'w env =
  call_tool :: "string \<Rightarrow> json \<Rightarrow> 'w \<Rightarrow> (exn + json) \<times> 'w"
  elapsed_ms :: "'w \<Rightarrow> 'w \<Rightarrow> int"
  py_repr :: "json \<Rightarrow> string"
  planner_oracle :: "string \<Rightarrow> 'w \<Rightarrow> (exn + json) \<times> 'w"
  verifier_oracle :: "string \<Rightarrow> dict \<Rightarrow> dict list \<Rightarrow> 'w \<Rightarrow> (exn + json) \<times> 'w"

section \<open>tools/registry.py\<close>

definition TOOL_NAMES :: "string list" where
  "TOOL_NAMES = [''github_search'', ''weather_current'', ''llm_generate'']"

text \<open>\<^verbatim>\<open>TOOL_REGISTRY\<close>, a dict with three str keys.\<close>

definition TOOL_REGISTRY :: "'w env \<Rightarrow> string \<Rightarrow> (json \<Rightarrow> 'w \<Rightarrow> (exn + json) \<times> 'w) option" where
  "TOOL_REGISTRY env name = (if name \<in> set TOOL_NAMES then Some (call_tool env name) else None)"

text \<open>\<^verbatim>\<open>TOOL_REGISTRY.get(v)\<close> for a hashable \<open>v\<close> of any type: only a str can equal a key.\<close>

fun registry_get :: "'w env \<Rightarrow> json \<Rightarrow> (json \<Rightarrow> 'w \<Rightarrow> (exn + json) \<times> 'w) option" where
  "registry_get env (JStr name) = TOOL_REGISTRY env name"
| "registry_get env v = None"

section \<open>agents/executor.py\<close>

text \<open>\<^verbatim>\<open>step.get\<close> on a value that is not a dict.\<close>

definition no_attr_get :: "json \<Rightarrow> exn" where
  "no_attr_get v = AttributeError ([CHR 0x27] @ type_name v @ [CHR 0x27] @ '' object has no attribute ''
                      @ [CHR 0x27] @ ''get'' @ [CHR 0x27])"

text \<open>\<^verbatim>\<open>ExecutorAgent._run_step\<close>. The membership test on the registry hashes the tool name
  before the \<^verbatim>\<open>try\<close>, so an unhashable tool name raises out of the function.\<close>

fun run_step :: "'w env \<Rightarrow> json \<Rightarrow> 'w \<Rightarrow> (exn + dict) \<times> 'w" where
  "run_step env (JObj step) w =
     (let tool_name = get step ''tool'';
          args = py_or (get step ''args'') (JObj [])
      in if \<not> py_hashable tool_name then (Inl (unhashable tool_name), w)
         else case registry_get env tool_name of
           None \<Rightarrow>
             (Inr [(''step_id'', get step ''id''),
                   (''tool'', tool_name),
                   (''args'', args),
                   (''status'', JStr ''error''),
                   (''error'', JStr (''Unknown tool: '' @ py_str (py_repr env) tool_name)),
                   (''duration_ms'', JInt (elapsed_ms env w w))], w)
         | Some tool \<Rightarrow>
             (case tool args w of
                (Inr output, w') \<Rightarrow>
                  (Inr [(''step_id'', get step ''id''),
                        (''tool'', tool_name),
                        (''args'', args),
                        (''status'', JStr ''success''),
                        (''output'', output),
                        (''duration_ms'', JInt (elapsed_ms env w w'))], w')
              | (Inl exc, w') \<Rightarrow>
                  (Inr [(''step_id'', get step ''id''),
                        (''tool'', tool_name),
                        (''args'', args),
                        (''status'', JStr ''error''),
                        (''error'', JStr (exn_str exc)),
                        (''duration_ms'', JInt (elapsed_ms env w w'))], w')))"
| "run_step env v w = (Inl (no_attr_get v), w)"

text \<open>\<^verbatim>\<open>len(v)\<close>, \<^verbatim>\<open>for x in v\<close> and \<^verbatim>\<open>v[idx]\<close> on a value of any type. Iterating a str
  yields its characters, iterating a dict its keys.\<close>

definition dict_keys :: "dict \<Rightarrow> string list" where
  "dict_keys kv = rev (remdups (rev (map fst kv)))"

fun py_len :: "json \<Rightarrow> exn + nat" where
  "py_len (JList xs) = Inr (length xs)"
| "py_len (JStr s) = Inr (length (code_points s))"
| "py_len (JObj kv) = Inr (length (dict_keys kv))"
| "py_len v = Inl (TypeError (''object of type '' @ [CHR 0x27] @ type_name v @ [CHR 0x27] @ '' has no len()''))"

fun py_iter :: "json \<Rightarrow> exn + json list" where
  "py_iter (JList xs) = Inr xs"
| "py_iter (JStr s) = Inr (map JStr (code_points s))"
| "py_iter (JObj kv) = Inr (map JStr (dict_keys kv))"
| "py_iter v = Inl (TypeError ([CHR 0x27] @ type_name v @ [CHR 0x27] @ '' object is not iterable''))"

fun py_getitem :: "json \<Rightarrow> nat \<Rightarrow> exn + json" where
  "py_getitem (JList xs) idx =
     (if idx < length xs then Inr (xs ! idx) else Inl (Exception ''list index out of range''))"
| "py_getitem (JStr s) idx =
     (if idx < length (code_points s) then Inr (JStr (code_points s ! idx))
      else Inl (Exception ''string index out of range''))"
| "py_getitem (JObj kv) idx = Inl (KeyError (show_nat idx))"
| "py_getitem v idx = Inl (TypeError ([CHR 0x27] @ type_name v @ [CHR 0x27] @ '' object is not subscriptable''))"

text \<open>The inline branch of \<^verbatim>\<open>execute\<close>: \<^verbatim>\<open>[self._run_step(step) for step in steps]\<close>.\<close>

fun run_inline :: "'w env \<Rightarrow> json list \<Rightarrow> 'w \<Rightarrow> (exn + dict list) \<times> 'w" where
  "run_inline env [] w = (Inr [], w)"
| "run_inline env (step # rest) w =
     (case run_step env step w of
        (Inl e, w') \<Rightarrow> (Inl e, w')
      | (Inr r, w') \<Rightarrow>
          (case run_inline env rest w' of
             (Inl e, w'') \<Rightarrow> (Inl e, w'')
           | (Inr rs, w'') \<Rightarrow> (Inr (r # rs), w'')))"

text \<open>
  The worker pool. Each worker's call of \<^verbatim>\<open>_run_step\<close> is taken as one atomic transition of
  the world, and the parameter \<open>sched\<close> is the order in which the workers run and their futures
  complete: \<^verbatim>\<open>as_completed\<close> yields every submitted future once, so \<open>sched\<close> is a permutation
  of the step indices. An index out of range is skipped.

  \<open>failed_result\<close> is the handler for a worker that raised; it reads \<^verbatim>\<open>steps[idx]\<close> again and
  may raise itself. The exception then leaves the \<^verbatim>\<open>with\<close> block, whose exit waits for the
  workers still pending: \<open>drain\<close> runs them for their effect on the world.
\<close>

definition failed_result :: "json \<Rightarrow> nat \<Rightarrow> exn \<Rightarrow> exn + dict" where
  "failed_result steps_v idx exc =
     (case py_getitem steps_v idx of
        Inl e \<Rightarrow> Inl e
      | Inr (JObj step) \<Rightarrow>
          Inr [(''step_id'', get step ''id''),
               (''tool'', get step ''tool''),
               (''args'', py_or (get step ''args'') (JObj [])),
               (''status'', JStr ''error''),
               (''error'', JStr (exn_str exc))]
      | Inr v \<Rightarrow> Inl (no_attr_get v))"

fun drain :: "'w env \<Rightarrow> json list \<Rightarrow> nat list \<Rightarrow> 'w \<Rightarrow> 'w" where
  "drain env steps [] w = w"
| "drain env steps (idx # rest) w =
     (if length steps \<le> idx then drain env steps rest w
      else drain env steps rest (snd (run_step env (steps ! idx) w)))"

fun run_pool ::
  "'w env \<Rightarrow> json \<Rightarrow> json list \<Rightarrow> nat list \<Rightarrow> dict option list \<Rightarrow> 'w \<Rightarrow> (exn + dict option list) \<times> 'w"
where
  "run_pool env steps_v steps [] results w = (Inr results, w)"
| "run_pool env steps_v steps (idx # rest) results w =
     (if length steps \<le> idx then run_pool env steps_v steps rest results w
      else case run_step env (steps ! idx) w of
        (Inr r, w') \<Rightarrow> run_pool env steps_v steps rest (results[idx := Some r]) w'
      | (Inl exc, w') \<Rightarrow>
          (case failed_result steps_v idx exc of
             Inr r \<Rightarrow> run_pool env steps_v steps rest (results[idx := Some r]) w'
           | Inl e \<Rightarrow> (Inl e, drain env steps rest w')))"

text \<open>\<^verbatim>\<open>ExecutorAgent.execute\<close>.\<close>

definition execute :: "'w env \<Rightarrow> dict \<Rightarrow> nat list \<Rightarrow> 'w \<Rightarrow> (exn + dict list) \<times> 'w" where
  "execute env plan sched w =
     (let steps_v = get_default plan ''steps'' (JList []) in
      case py_len steps_v of
        Inl e \<Rightarrow> (Inl e, w)
      | Inr n \<Rightarrow>
          (case py_iter steps_v of
             Inl e \<Rightarrow> (Inl e, w)
           | Inr steps \<Rightarrow>
               if n \<le> 1 then run_inline env steps w
               else (case run_pool env steps_v steps sched (replicate n None) w of
                       (Inl e, w') \<Rightarrow> (Inl e, w')
                     | (Inr results, w') \<Rightarrow> (Inr (List.map_filter id results), w'))))"

text \<open>\<^verbatim>\<open>step["id"]\<close> on a value of any type.\<close>

fun subscript_id :: "json \<Rightarrow> exn + json" where
  "subscript_id (JObj d) =
     (case map_of d ''id'' of
        None \<Rightarrow> Inl (KeyError ([CHR 0x27] @ ''id'' @ [CHR 0x27]))
      | Some v \<Rightarrow> Inr v)"
| "subscript_id (JStr s) = Inl (TypeError (''string indices must be integers, not '' @ [CHR 0x27] @ ''str'' @ [CHR 0x27]))"
| "subscript_id (JList xs) = Inl (TypeError ''list indices must be integers or slices, not str'')"
| "subscript_id v = Inl (TypeError ([CHR 0x27] @ type_name v @ [CHR 0x27] @ '' object is not subscriptable''))"

text \<open>\<^verbatim>\<open>step_map = {step["id"]: step for step in ...}\<close>: a later step with an equal id
  replaces the earlier one.\<close>

fun build_step_map :: "json list \<Rightarrow> (json \<times> json) list \<Rightarrow> exn + (json \<times> json) list" where
  "build_step_map [] m = Inr m"
| "build_step_map (step # rest) m =
     (case subscript_id step of
        Inl e \<Rightarrow> Inl e
      | Inr k \<Rightarrow> if \<not> py_hashable k then Inl (unhashable k) else build_step_map rest (kset m k step))"

text \<open>The loop of \<^verbatim>\<open>retry_failed\<close>; the list \<^verbatim>\<open>updated\<close> is built front to back.\<close>

fun retry_loop :: "'w env \<Rightarrow> (json \<times> json) list \<Rightarrow> dict list \<Rightarrow> 'w \<Rightarrow> (exn + dict list) \<times> 'w" where
  "retry_loop env step_map [] w = (Inr [], w)"
| "retry_loop env step_map (result # rest) w =
     (if get result ''status'' = JStr ''error'' then
        (if \<not> py_hashable (get result ''step_id'') then (Inl (unhashable (get result ''step_id'')), w)
         else case kget step_map (get result ''step_id'') of
           Some step \<Rightarrow>
             (if py_truthy step then
                (case run_step env step w of
                   (Inl e, w') \<Rightarrow> (Inl e, w')
                 | (Inr r, w') \<Rightarrow>
                     (case retry_loop env step_map rest w' of
                        (Inl e, w'') \<Rightarrow> (Inl e, w'')
                      | (Inr rs, w'') \<Rightarrow> (Inr (r # rs), w'')))
              else
                (case retry_loop env step_map rest w of
                   (Inl e, w'') \<Rightarrow> (Inl e, w'')
                 | (Inr rs, w'') \<Rightarrow> (Inr (result # rs), w'')))
         | None \<Rightarrow>
             (case retry_loop env step_map rest w of
                (Inl e, w'') \<Rightarrow> (Inl e, w'')
              | (Inr rs, w'') \<Rightarrow> (Inr (result # rs), w'')))
      else
        (case retry_loop env step_map rest w of
           (Inl e, w'') \<Rightarrow> (Inl e, w'')
         | (Inr rs, w'') \<Rightarrow> (Inr (result # rs), w'')))"

text \<open>\<^verbatim>\<open>ExecutorAgent.retry_failed\<close>.\<close>

definition retry_failed :: "'w env \<Rightarrow> dict \<Rightarrow> dict list \<Rightarrow> 'w \<Rightarrow> (exn + dict list) \<times> 'w" where
  "retry_failed env plan step_results w =
     (case py_iter (get_default plan ''steps'' (JList [])) of
        Inl e \<Rightarrow> (Inl e, w)
      | Inr steps \<Rightarrow>
          (case build_step_map steps [] of
             Inl e \<Rightarrow> (Inl e, w)
           | Inr step_map \<Rightarrow> retry_loop env step_map step_results w))"

section \<open>agents/planner.py\<close>

text \<open>The loop of \<^verbatim>\<open>PlannerAgent._normalize_plan\<close>; \<open>idx\<close> counts from 1
  (\<^verbatim>\<open>enumerate(steps, start=1)\<close>).\<close>

fun normalize_steps :: "'w env \<Rightarrow> nat \<Rightarrow> json list \<Rightarrow> exn + json list" where
  "normalize_steps env idx [] = Inr []"
| "normalize_steps env idx (JObj step # rest) =
     (let tool = get step ''tool'' in
      if \<not> py_truthy tool then
        Inl (ValueError (''Unknown tool in plan: '' @ py_str (py_repr env) tool))
      else if \<not> py_hashable tool then Inl (unhashable tool)
      else if registry_get env tool = None then
        Inl (ValueError (''Unknown tool in plan: '' @ py_str (py_repr env) tool))
      else
        (case normalize_steps env (Suc idx) rest of
           Inl e \<Rightarrow> Inl e
         | Inr normalized_steps \<Rightarrow>
             Inr (JObj [(''id'', py_or (get step ''id'') (JStr (''step_'' @ show_nat idx))),
                        (''tool'', tool),
                        (''args'', py_or (get step ''args'') (JObj [])),
                        (''purpose'', py_or (get step ''purpose'') (JStr []))]
                  # normalized_steps)))"
| "normalize_steps env idx (v # rest) = Inl (no_attr_get v)"

text \<open>\<^verbatim>\<open>PlannerAgent._normalize_plan\<close>.\<close>

fun normalize_plan :: "'w env \<Rightarrow> json \<Rightarrow> string \<Rightarrow> exn + dict" where
  "normalize_plan env (JObj plan) task =
     (case get plan ''steps'' of
        JList steps \<Rightarrow>
          if steps = [] then Inl (ValueError ''Planner output missing steps'')
          else (case normalize_steps env 1 steps of
                  Inl e \<Rightarrow> Inl e
                | Inr normalized_steps \<Rightarrow>
                    Inr [(''goal'', py_or (get plan ''goal'') (JStr task)),
                         (''steps'', JList normalized_steps)])
      | v \<Rightarrow> Inl (ValueError ''Planner output missing steps''))"
| "normalize_plan env v task = Inl (ValueError ''Planner output is not a JSON object'')"

text \<open>\<^verbatim>\<open>PlannerAgent.create_plan\<close>.\<close>

definition create_plan :: "'w env \<Rightarrow> string \<Rightarrow> 'w \<Rightarrow> (exn + dict) \<times> 'w" where
  "create_plan env task w =
     (case planner_oracle env task w of
        (Inl e, w') \<Rightarrow> (Inl e, w')
      | (Inr plan, w') \<Rightarrow> (normalize_plan env plan task, w'))"

text \<open>The ids of a plan's steps, in order.\<close>

fun step_id :: "json \<Rightarrow> json" where
  "step_id (JObj step) = get step ''id''"
| "step_id v = JNull"

definition plan_ids :: "dict \<Rightarrow> json list" where
  "plan_ids plan = (case get plan ''steps'' of JList steps \<Rightarrow> map step_id steps | v \<Rightarrow> [])"

section \<open>agents/verifier.py\<close>

subsection \<open>\<^verbatim>\<open>str.strip\<close> and \<^verbatim>\<open>str.split\<close>\<close>

text \<open>White space is the code points that \<^verbatim>\<open>str.isspace\<close> accepts: U+0009 to U+000D,
  U+001C to U+0020, U+0085, U+00A0, U+1680, U+2000 to U+200A, U+2028, U+2029, U+202F, U+205F
  and U+3000, each written here in UTF-8.\<close>

definition white_space :: "string list" where
  "white_space =
     [[CHR 0x09], [CHR 0x0A], [CHR 0x0B], [CHR 0x0C], [CHR 0x0D],
      [CHR 0x1C], [CHR 0x1D], [CHR 0x1E], [CHR 0x1F], [CHR 0x20],
      [CHR 0xC2, CHR 0x85], [CHR 0xC2, CHR 0xA0], [CHR 0xE1, CHR 0x9A, CHR 0x80],
      [CHR 0xE2, CHR 0x80, CHR 0x80], [CHR 0xE2, CHR 0x80, CHR 0x81], [CHR 0xE2, CHR 0x80, CHR 0x82],
      [CHR 0xE2, CHR 0x80, CHR 0x83], [CHR 0xE2, CHR 0x80, CHR 0x84], [CHR 0xE2, CHR 0x80, CHR 0x85],
      [CHR 0xE2, CHR 0x80, CHR 0x86], [CHR 0xE2, CHR 0x80, CHR 0x87], [CHR 0xE2, CHR 0x80, CHR 0x88],
      [CHR 0xE2, CHR 0x80, CHR 0x89], [CHR 0xE2, CHR 0x80, CHR 0x8A], [CHR 0xE2, CHR 0x80, CHR 0xA8],
      [CHR 0xE2, CHR 0x80, CHR 0xA9], [CHR 0xE2, CHR 0x80, CHR 0xAF], [CHR 0xE2, CHR 0x81, CHR 0x9F],
      [CHR 0xE3, CHR 0x80, CHR 0x80]]"

definition is_space :: "string \<Rightarrow> bool" where
  "is_space p = (p \<in> set white_space)"

definition py_strip :: "string \<Rightarrow> string" where
  "py_strip s = concat (rev (dropWhile is_space (rev (dropWhile is_space (code_points s)))))"

fun split_ws :: "string list \<Rightarrow> string \<Rightarrow> string list" where
  "split_ws [] cur = (if cur = [] then [] else [cur])"
| "split_ws (p # ps) cur =
     (if is_space p then (if cur = [] then split_ws ps [] else cur # split_ws ps [])
      else split_ws ps (cur @ p))"

definition py_split :: "string \<Rightarrow> string list" where
  "py_split s = split_ws (code_points s) []"

subsection \<open>\<^verbatim>\<open>VerifierAgent._compact_step_results\<close>\<close>

text \<open>\<^verbatim>\<open>for item in items[:5]\<close> on a value of any type.\<close>

fun items_head :: "json \<Rightarrow> exn + json list" where
  "items_head (JList xs) = Inr (take 5 xs)"
| "items_head (JStr s) = Inr (map JStr (take 5 (code_points s)))"
| "items_head (JObj kv) = Inl (TypeError (''unhashable type: '' @ [CHR 0x27] @ ''slice'' @ [CHR 0x27]))"
| "items_head v = Inl (TypeError ([CHR 0x27] @ type_name v @ [CHR 0x27] @ '' object is not subscriptable''))"

fun trim_items :: "json list \<Rightarrow> exn + json list" where
  "trim_items [] = Inr []"
| "trim_items (JObj item # rest) =
     (case trim_items rest of
        Inl e \<Rightarrow> Inl e
      | Inr trimmed_items \<Rightarrow>
          Inr (JObj [(''name'', get item ''name''),
                     (''full_name'', get item ''full_name''),
                     (''url'', get item ''url''),
                     (''stars'', get item ''stars''),
                     (''language'', get item ''language'')] # trimmed_items))"
| "trim_items (v # rest) = Inl (no_attr_get v)"

definition compact_output :: "json \<Rightarrow> exn + json" where
  "compact_output output =
     (case output of
        JObj out \<Rightarrow>
          (if map_of out ''items'' \<noteq> None then
             (case items_head (get_default out ''items'' (JList [])) of
                Inl e \<Rightarrow> Inl e
              | Inr items \<Rightarrow>
                  (case trim_items items of
                     Inl e \<Rightarrow> Inl e
                   | Inr trimmed_items \<Rightarrow>
                       Inr (JObj [(''query'', get out ''query''),
                                  (''total_count'', get out ''total_count''),
                                  (''items'', JList trimmed_items),
                                  (''source_url'', get out ''source_url'')])))
           else Inr output)
      | v \<Rightarrow> Inr output)"

fun compact_step_results :: "dict list \<Rightarrow> exn + dict list" where
  "compact_step_results [] = Inr []"
| "compact_step_results (result # rest) =
     (case compact_output (get result ''output'') of
        Inl e \<Rightarrow> Inl e
      | Inr out \<Rightarrow>
          (case compact_step_results rest of
             Inl e \<Rightarrow> Inl e
           | Inr compacted \<Rightarrow>
               Inr ([(''step_id'', get result ''step_id''),
                     (''tool'', get result ''tool''),
                     (''status'', get result ''status''),
                     (''output'', out),
                     (''error'', get result ''error'')] # compacted)))"

subsection \<open>The parts of \<^verbatim>\<open>VerifierAgent.verify\<close>\<close>

text \<open>The first loop over the repaired results, with its three accumulators
  \<^verbatim>\<open>allowed_sources\<close>, \<^verbatim>\<open>repo_items\<close> and \<^verbatim>\<open>weather_info\<close>.\<close>

definition dict_items :: "json list \<Rightarrow> dict list" where
  "dict_items xs = List.map_filter (\<lambda>v. case v of JObj d \<Rightarrow> Some d | _ \<Rightarrow> None) xs"

fun scan_results ::
  "dict list \<Rightarrow> json list \<Rightarrow> dict list \<Rightarrow> dict option \<Rightarrow> json list \<times> dict list \<times> dict option"
where
  "scan_results [] allowed_sources repo_items weather_info = (allowed_sources, repo_items, weather_info)"
| "scan_results (result # rest) allowed_sources repo_items weather_info =
     (case get result ''output'' of
        JObj output \<Rightarrow>
          scan_results rest
            (if py_truthy (get output ''source_url'') then allowed_sources @ [get output ''source_url'']
             else allowed_sources)
            (if get result ''tool'' = JStr ''github_search'' then
               (case get_default output ''items'' (JList []) of
                  JList items \<Rightarrow> repo_items @ dict_items items
                | v \<Rightarrow> repo_items)
             else repo_items)
            (if get result ''tool'' = JStr ''weather_current'' then Some output else weather_info)
      | v \<Rightarrow> scan_results rest allowed_sources repo_items weather_info)"

text \<open>The second loop: the urls of the repository items.\<close>

definition repo_urls :: "dict list \<Rightarrow> json list" where
  "repo_urls repo_items = filter py_truthy (map (\<lambda>item. get item ''url'') repo_items)"

text \<open>\<^verbatim>\<open>list(dict.fromkeys(allowed_sources))\<close>.\<close>

fun fromkeys :: "json list \<Rightarrow> (json \<times> json) list \<Rightarrow> exn + (json \<times> json) list" where
  "fromkeys [] m = Inr m"
| "fromkeys (k # ks) m = (if \<not> py_hashable k then Inl (unhashable k) else fromkeys ks (kset m k JNull))"

definition dedup :: "json list \<Rightarrow> exn + json list" where
  "dedup xs = (case fromkeys xs [] of Inl e \<Rightarrow> Inl e | Inr m \<Rightarrow> Inr (map fst m))"

text \<open>The set comprehension \<^verbatim>\<open>tools_used\<close>, as the list of its elements.\<close>

fun add_tools :: "json list \<Rightarrow> exn + json list" where
  "add_tools [] = Inr []"
| "add_tools (JObj step # rest) =
     (if py_truthy (get step ''tool'') then
        (if \<not> py_hashable (get step ''tool'') then Inl (unhashable (get step ''tool''))
         else case add_tools rest of Inl e \<Rightarrow> Inl e | Inr ts \<Rightarrow> Inr (get step ''tool'' # ts))
      else add_tools rest)"
| "add_tools (v # rest) = add_tools rest"

definition tools_used :: "dict \<Rightarrow> exn + json list" where
  "tools_used plan =
     (case py_iter (get_default plan ''steps'' (JList [])) of
        Inl e \<Rightarrow> Inl e
      | Inr steps \<Rightarrow> add_tools steps)"

text \<open>The loop that looks for the generated text; it stops at the first successful
  \<^verbatim>\<open>llm_generate\<close> result whose output is a dict.\<close>

fun speech_text :: "(json \<Rightarrow> string) \<Rightarrow> dict list \<Rightarrow> string" where
  "speech_text rp [] = []"
| "speech_text rp (result # rest) =
     (if get result ''tool'' = JStr ''llm_generate'' \<and> get result ''status'' = JStr ''success'' then
        (case get result ''output'' of
           JObj output \<Rightarrow> py_strip (py_str rp (py_or (get output ''text'') (JStr [])))
         | v \<Rightarrow> speech_text rp rest)
      else speech_text rp rest)"

text \<open>The star and the degree sign, in UTF-8.\<close>

definition star :: string where
  "star = [CHR 0xE2, CHR 0x98, CHR 0x85]"

definition degree :: string where
  "degree = [CHR 0xC2, CHR 0xB0]"

fun repo_bits :: "(json \<Rightarrow> string) \<Rightarrow> dict list \<Rightarrow> string list" where
  "repo_bits rp [] = []"
| "repo_bits rp (item # rest) =
     (let name = py_or (get item ''full_name'') (get item ''name'');
          url = get item ''url'';
          stars = get item ''stars''
      in if py_truthy name \<and> py_truthy url then
           (if stars \<noteq> JNull then
              (py_str rp name @ '' ('' @ py_str rp url @ '', '' @ py_str rp stars @ star @ '')'')
                # repo_bits rp rest
            else (py_str rp name @ '' ('' @ py_str rp url @ '')'') # repo_bits rp rest)
         else repo_bits rp rest)"

definition repo_parts :: "(json \<Rightarrow> string) \<Rightarrow> dict list \<Rightarrow> string list" where
  "repo_parts rp repo_items =
     (if repo_items \<noteq> [] then
        (if repo_bits rp (take 3 repo_items) \<noteq> [] then
           [''Top repositories: '' @ join ''; '' (repo_bits rp (take 3 repo_items)) @ ''.'']
         else [])
      else [])"

definition weather_parts :: "(json \<Rightarrow> string) \<Rightarrow> dict option \<Rightarrow> string list" where
  "weather_parts rp weather_info =
     (case weather_info of
        None \<Rightarrow> []
      | Some info \<Rightarrow>
          (let location = get info ''location'';
               summary = get info ''weather_summary'';
               temp = get info ''temperature_c'';
               wind = get info ''wind_kph'';
               weather_sentence =
                 ''Current weather'' @ (if py_truthy location then '' in '' @ py_str rp location else [])
           in if py_truthy summary \<or> temp \<noteq> JNull then
                [weather_sentence @ '': ''
                   @ join '', '' ((if py_truthy summary then [py_str rp summary] else [])
                                @ (if temp \<noteq> JNull then [py_str rp temp @ degree @ ''C''] else [])
                                @ (if wind \<noteq> JNull then [''wind '' @ py_str rp wind @ '' kph''] else []))
                   @ ''.'']
              else [weather_sentence @ ''.'']))"

text \<open>\<^verbatim>\<open>verification[k] = v\<close> where \<^verbatim>\<open>verification\<close> is not a dict.\<close>

fun no_item_assignment :: "json \<Rightarrow> exn" where
  "no_item_assignment (JList xs) = TypeError ''list indices must be integers or slices, not str''"
| "no_item_assignment v =
     TypeError ([CHR 0x27] @ type_name v @ [CHR 0x27] @ '' object does not support item assignment'')"

definition failed_after_retry :: string where
  "failed_after_retry = ''Some tools failed after retry; partial data returned.''"

text \<open>The completeness downgrade at the end of \<^verbatim>\<open>verify\<close>.\<close>

definition downgrade :: "dict \<Rightarrow> dict" where
  "downgrade verification =
     (let v = (case get verification ''limitations'' of
                 JList ls \<Rightarrow> verification
               | other \<Rightarrow> setitem verification ''limitations'' (JList []))
      in setitem
           (setitem v ''limitations''
              (case get v ''limitations'' of
                 JList ls \<Rightarrow> JList (ls @ [JStr failed_after_retry])
               | other \<Rightarrow> other))
           ''completeness'' (JStr ''partial''))"

subsection \<open>\<^verbatim>\<open>VerifierAgent.verify\<close>\<close>

text \<open>Steps (b) to (d) of the enrichment, on the oracle's dict \<open>v0\<close>: the two narration
  overrides and the attachment of the sources.\<close>

definition overrides ::
  "(json \<Rightarrow> string) \<Rightarrow> json list \<Rightarrow> dict list \<Rightarrow> json list \<Rightarrow> dict list \<Rightarrow> dict option \<Rightarrow> dict \<Rightarrow> dict"
where
  "overrides rp tools repaired_results allowed_sources repo_items weather_info v0 =
     (let speech = (if set tools = {JStr ''llm_generate''}
                    then speech_text rp repaired_results else []);
          v1 = (if speech \<noteq> [] then
                  setitem (setitem v0 ''final_answer'' (JStr speech)) ''data''
                    (JObj [(''kind'', JStr ''introduction_speech''),
                           (''word_count'', JInt (int (length (py_split speech))))])
                else v0);
          sources = (if speech \<noteq> [] then [] else allowed_sources);
          parts = (if set tools \<inter> {JStr ''github_search'', JStr ''weather_current''} \<noteq> {}
                   then repo_parts rp repo_items @ weather_parts rp weather_info
                   else []);
          v2 = (if parts \<noteq> [] then
                  setitem v1 ''final_answer'' (JStr (py_strip (join '' '' parts)))
                else v1)
      in setitem v2 ''sources'' (JList sources))"

text \<open>What \<^verbatim>\<open>verify\<close> does with the oracle's answer: the enrichment of steps (a) to (e).
  An answer that is not a dict fails at the first item assignment.\<close>

definition enrich :: "(json \<Rightarrow> string) \<Rightarrow> dict \<Rightarrow> dict list \<Rightarrow> json \<Rightarrow> exn + dict" where
  "enrich rp plan repaired_results verification =
     (case scan_results repaired_results [] [] None of
        (sources0, repo_items, weather_info) \<Rightarrow>
          (case dedup (sources0 @ repo_urls repo_items) of
             Inl e \<Rightarrow> Inl e
           | Inr allowed_sources \<Rightarrow>
               (case tools_used plan of
                  Inl e \<Rightarrow> Inl e
                | Inr tools \<Rightarrow>
                    (case verification of
                       JObj v0 \<Rightarrow>
                         (if filter (\<lambda>r. get r ''status'' \<noteq> JStr ''success'') repaired_results \<noteq> []
                          then Inr (downgrade (overrides rp tools repaired_results allowed_sources
                                                 repo_items weather_info v0))
                          else Inr (overrides rp tools repaired_results allowed_sources
                                      repo_items weather_info v0))
                     | other \<Rightarrow> Inl (no_item_assignment other)))))"

definition verify :: "'w env \<Rightarrow> string \<Rightarrow> dict \<Rightarrow> dict list \<Rightarrow> 'w \<Rightarrow> (exn + dict) \<times> 'w" where
  "verify env task plan step_results w =
     (case retry_failed env plan step_results w of
        (Inl e, w1) \<Rightarrow> (Inl e, w1)
      | (Inr repaired_results, w1) \<Rightarrow>
          (case compact_step_results repaired_results of
             Inl e \<Rightarrow> (Inl e, w1)
           | Inr compact_results \<Rightarrow>
               (case verifier_oracle env task plan compact_results w1 of
                  (Inl e, w2) \<Rightarrow> (Inl e, w2)
                | (Inr verification, w2) \<Rightarrow>
                    (enrich (py_repr env) plan repaired_results verification, w2))))"

section \<open>main.py\<close>

text \<open>\<^verbatim>\<open>_extract_step_errors\<close>.\<close>

definition extract_step_errors :: "(json \<Rightarrow> string) \<Rightarrow> dict list \<Rightarrow> string list" where
  "extract_step_errors rp step_results =
     map (\<lambda>step. py_str rp (py_or (get step ''tool'') (JStr ''unknown_tool'')) @ '': ''
                  @ py_str rp (py_or (get step ''error'') (JStr ''unknown error'')))
         (filter (\<lambda>step. get step ''status'' = JStr ''error'') step_results)"

text \<open>\<^verbatim>\<open>_build_replan_task\<close>; \<^verbatim>\<open>map(str, limitations)\<close> raises when \<^verbatim>\<open>limitations\<close> is a
  number.\<close>

definition build_replan_task :: "(json \<Rightarrow> string) \<Rightarrow> string \<Rightarrow> dict list \<Rightarrow> dict \<Rightarrow> exn + string option" where
  "build_replan_task rp task steps final =
     (let errors = extract_step_errors rp steps;
          limitations = get_default final ''limitations'' (JList [])
      in if errors = [] \<and> \<not> py_truthy limitations then Inr None
         else
           (case (if py_truthy limitations then py_iter limitations else Inr []) of
              Inl e \<Rightarrow> Inl e
            | Inr ls \<Rightarrow>
                Inr (Some (task @ [CHR 0x0A, CHR 0x0A]
                           @ ''Fix missing or failed info from the previous attempt. ''
                           @ ''Use only the necessary tools. ''
                           @ join '' ''
                               ((if errors \<noteq> [] then [''Errors: '' @ join ''; '' errors] else [])
                                @ (if py_truthy limitations
                                   then [''Limitations: '' @ join ''; '' (map (py_str rp) ls)]
                                   else []))))))"

text \<open>\<^verbatim>\<open>int(step.get("duration_ms", 0))\<close>. The executor writes ints only; a str, which
  \<^verbatim>\<open>int\<close> would parse, is not modelled and raises here.\<close>

fun py_int :: "json \<Rightarrow> exn + int" where
  "py_int (JInt i) = Inr i"
| "py_int (JBool b) = Inr (if b then 1 else 0)"
| "py_int (JFloat r) = Inr (if 0 \<le> r then \<lfloor>r\<rfloor> else \<lceil>r\<rceil>)"
| "py_int (JStr s) = Inl (ValueError ''invalid literal for int() with base 10'')"
| "py_int v = Inl (TypeError (''int() argument must be a string, a bytes-like object or a real number, not ''
                              @ [CHR 0x27] @ type_name v @ [CHR 0x27]))"

fun sum_durations :: "dict list \<Rightarrow> exn + int" where
  "sum_durations [] = Inr 0"
| "sum_durations (step # rest) =
     (case py_int (get_default step ''duration_ms'' (JInt 0)) of
        Inl e \<Rightarrow> Inl e
      | Inr d \<Rightarrow> (case sum_durations rest of Inl e \<Rightarrow> Inl e | Inr t \<Rightarrow> Inr (d + t)))"

text \<open>The dict that \<^verbatim>\<open>run_task\<close> returns.\<close>

definition response :: "string \<Rightarrow> dict \<Rightarrow> dict list \<Rightarrow> dict \<Rightarrow> json \<Rightarrow> int \<Rightarrow> dict" where
  "response task plan steps final auto_replan tool_time_ms =
     [(''task'', JStr task),
      (''plan'', JObj plan),
      (''steps'', JList (map JObj steps)),
      (''final'', JObj final),
      (''auto_replan'', auto_replan),
      (''metrics'', JObj [(''tool_execution_ms'', JInt tool_time_ms),
                          (''tool_count'', JInt (int (length steps)))])]"

definition replan_envelope :: "string \<Rightarrow> dict \<Rightarrow> dict list \<Rightarrow> dict \<Rightarrow> json" where
  "replan_envelope replan_task replan_plan replan_steps replan_final =
     JObj [(''triggered'', JBool True),
           (''reason'', JStr ''Previous attempt incomplete''),
           (''task'', JStr replan_task),
           (''plan'', JObj replan_plan),
           (''steps'', JList (map JObj replan_steps)),
           (''final'', JObj replan_final)]"

text \<open>The body of the \<^verbatim>\<open>try\<close> block of \<^verbatim>\<open>run_task\<close>. \<open>sched1\<close> and \<open>sched2\<close> are the
  completion orders of the worker pool in the first and in the second call of \<^verbatim>\<open>execute\<close>.\<close>

definition run_task_body ::
  "'w env \<Rightarrow> string \<Rightarrow> nat list \<Rightarrow> nat list \<Rightarrow> 'w \<Rightarrow> (exn + dict) \<times> 'w" where
  "run_task_body env task sched1 sched2 w =
     (case create_plan env task w of
        (Inl e, w1) \<Rightarrow> (Inl e, w1)
      | (Inr plan, w1) \<Rightarrow>
     (case execute env plan sched1 w1 of
        (Inl e, w2) \<Rightarrow> (Inl e, w2)
      | (Inr steps, w2) \<Rightarrow>
     (case verify env task plan steps w2 of
        (Inl e, w3) \<Rightarrow> (Inl e, w3)
      | (Inr final, w3) \<Rightarrow>
     (case sum_durations steps of
        Inl e \<Rightarrow> (Inl e, w3)
      | Inr tool_time_ms \<Rightarrow>
          if get final ''completeness'' = JStr ''partial'' then
            (case build_replan_task (py_repr env) task steps final of
               Inl e \<Rightarrow> (Inl e, w3)
             | Inr None \<Rightarrow> (Inr (response task plan steps final JNull tool_time_ms), w3)
             | Inr (Some replan_task) \<Rightarrow>
            (case create_plan env replan_task w3 of
               (Inl e, w4) \<Rightarrow> (Inl e, w4)
             | (Inr replan_plan, w4) \<Rightarrow>
            (case execute env replan_plan sched2 w4 of
               (Inl e, w5) \<Rightarrow> (Inl e, w5)
             | (Inr replan_steps, w5) \<Rightarrow>
            (case verify env task replan_plan replan_steps w5 of
               (Inl e, w6) \<Rightarrow> (Inl e, w6)
             | (Inr replan_final, w6) \<Rightarrow>
                 if get replan_final ''completeness'' = JStr ''complete'' then
                   (Inr (response task replan_plan replan_steps replan_final
                           (replan_envelope replan_task replan_plan replan_steps replan_final)
                           tool_time_ms), w6)
                 else
                   (Inr (response task plan steps final
                           (replan_envelope replan_task replan_plan replan_steps replan_final)
                           tool_time_ms), w6)))))
          else (Inr (response task plan steps final JNull tool_time_ms), w3)))))"

text \<open>\<^verbatim>\<open>run_task\<close>: any exception becomes an \<^verbatim>\<open>HTTPException\<close> with status 500.\<close>

definition run_task ::
  "'w env \<Rightarrow> string \<Rightarrow> nat list \<Rightarrow> nat list \<Rightarrow> 'w \<Rightarrow> (exn + dict) \<times> 'w" where
  "run_task env task sched1 sched2 w =
     (case run_task_body env task sched1 sched2 w of
        (Inl e, w') \<Rightarrow> (Inl (HTTPException 500 (exn_str e)), w')
      | (Inr r, w') \<Rightarrow> (Inr r, w'))"

section \<open>The specification's description of the enrichment\<close>

text \<open>
  The definitions of this section follow the words of the specification, not the loops of the
  code; the theorems on the verifier compare the two.

  \<open>source_urls\<close> are the \<^verbatim>\<open>source_url\<close> values of the outputs (an output is a mapping), in
  the order of the results and whatever their status; \<open>successful_source_urls\<close> are those of
  the outputs of the successful results. \<open>all_repo_items\<close> are the items that the repository
  searches returned, and \<open>weather_result\<close> is the output of the last weather lookup.
\<close>

definition out_dict :: "dict \<Rightarrow> dict option" where
  "out_dict r = (case get r ''output'' of JObj out \<Rightarrow> Some out | v \<Rightarrow> None)"

definition source_urls :: "dict list \<Rightarrow> json list" where
  "source_urls results =
     filter py_truthy (map (\<lambda>out. get out ''source_url'') (List.map_filter out_dict results))"

definition successful :: "dict \<Rightarrow> bool" where
  "successful r = (get r ''status'' = JStr ''success'')"

definition successful_source_urls :: "dict list \<Rightarrow> json list" where
  "successful_source_urls results =
     filter py_truthy
       (map (\<lambda>out. get out ''source_url'') (List.map_filter out_dict (filter successful results)))"

definition items_of :: "dict \<Rightarrow> dict list" where
  "items_of r =
     (case out_dict r of
        Some out \<Rightarrow>
          (if get r ''tool'' = JStr ''github_search'' then
             (case get_default out ''items'' (JList []) of JList xs \<Rightarrow> dict_items xs | v \<Rightarrow> [])
           else [])
      | None \<Rightarrow> [])"

definition all_repo_items :: "dict list \<Rightarrow> dict list" where
  "all_repo_items results = concat (map items_of results)"

definition weather_result :: "dict list \<Rightarrow> dict option" where
  "weather_result results =
     (case List.find (\<lambda>r. get r ''tool'' = JStr ''weather_current'' \<and> out_dict r \<noteq> None) (rev results) of
        Some r \<Rightarrow> out_dict r
      | None \<Rightarrow> None)"

text \<open>Deduplication that keeps the first occurrence: \<open>seen\<close> holds the values met so far.\<close>

fun first_seen :: "json list \<Rightarrow> json list \<Rightarrow> json list" where
  "first_seen seen [] = []"
| "first_seen seen (x # xs) =
     (if list_ex (\<lambda>s. py_eq s x) seen then first_seen seen xs
      else x # first_seen (seen @ [x]) xs)"

text \<open>A repository item is listed when it has a name and a url; its entry reads
  \<^verbatim>\<open><name> (<url>, <stars>*)\<close> with the star count and \<^verbatim>\<open><name> (<url>)\<close> without.\<close>

definition listed :: "dict \<Rightarrow> bool" where
  "listed item =
     (py_truthy (py_or (get item ''full_name'') (get item ''name'')) \<and> py_truthy (get item ''url''))"

definition repo_entry :: "(json \<Rightarrow> string) \<Rightarrow> dict \<Rightarrow> string" where
  "repo_entry rp item =
     py_str rp (py_or (get item ''full_name'') (get item ''name''))
     @ '' ('' @ py_str rp (get item ''url'')
     @ (if get item ''stars'' \<noteq> JNull then '', '' @ py_str rp (get item ''stars'') @ star else [])
     @ '')''"

definition repo_sentence :: "(json \<Rightarrow> string) \<Rightarrow> dict list \<Rightarrow> string" where
  "repo_sentence rp items =
     ''Top repositories: '' @ join ''; '' (map (repo_entry rp) (filter listed (take 3 items))) @ ''.''"

definition weather_details :: "(json \<Rightarrow> string) \<Rightarrow> dict \<Rightarrow> string list" where
  "weather_details rp info =
     (if py_truthy (get info ''weather_summary'') then [py_str rp (get info ''weather_summary'')] else [])
     @ (if get info ''temperature_c'' \<noteq> JNull
        then [py_str rp (get info ''temperature_c'') @ degree @ ''C''] else [])
     @ (if get info ''wind_kph'' \<noteq> JNull
        then [''wind '' @ py_str rp (get info ''wind_kph'') @ '' kph''] else [])"

definition weather_sentence :: "(json \<Rightarrow> string) \<Rightarrow> dict \<Rightarrow> string" where
  "weather_sentence rp info =
     ''Current weather''
     @ (if py_truthy (get info ''location'') then '' in '' @ py_str rp (get info ''location'') else [])
     @ (if \<not> py_truthy (get info ''weather_summary'') \<and> get info ''temperature_c'' = JNull then ''.''
        else '': '' @ join '', '' (weather_details rp info) @ ''.'')"

text \<open>The sentences of the composed answer: the repositories, if one of the first three
  items is listed, then the weather, if there is a weather result.\<close>

definition sentences :: "(json \<Rightarrow> string) \<Rightarrow> dict list \<Rightarrow> string list" where
  "sentences rp results =
     (if filter listed (take 3 (all_repo_items results)) \<noteq> []
      then [repo_sentence rp (all_repo_items results)] else [])
     @ (case weather_result results of Some info \<Rightarrow> [weather_sentence rp info] | None \<Rightarrow> [])"

section \<open>Observing the oracle calls\<close>

text \<open>
  The orchestrator is written for any environment, so it can be run in one that keeps a log.
  \<open>recording env\<close> behaves as \<open>env\<close> does and appends to the log, which it carries next to the
  world, the task text of every call of the planner's and of the verifier's oracle.
\<close>

datatype event = PlannerCall string | VerifierCall string

fun is_planner_call :: "event \<Rightarrow> bool" where
  "is_planner_call (PlannerCall task) = True"
| "is_planner_call (VerifierCall task) = False"

definition recording :: "'w env \<Rightarrow> ('w \<times> event list) env" where
  "recording env =
     \<lparr> call_tool = (\<lambda>name args (w, log).
                       case call_tool env name args w of (r, w') \<Rightarrow> (r, (w', log))),
       elapsed_ms = (\<lambda>(w, log) (w', log'). elapsed_ms env w w'),
       py_repr = py_repr env,
       planner_oracle = (\<lambda>task (w, log).
                       case planner_oracle env task w of
                         (r, w') \<Rightarrow> (r, (w', log @ [PlannerCall task]))),
       verifier_oracle = (\<lambda>task plan compact (w, log).
                       case verifier_oracle env task plan compact w of
                         (r, w') \<Rightarrow> (r, (w', log @ [VerifierCall task]))) \<rparr>"

section \<open>The specification's description of the corrective task\<close>


section \<open>Well-formed inputs\<close>

text \<open>
  A plan as the planner normalises it holds a list of steps, each a dict with an \<^verbatim>\<open>id\<close> and a
  \<^verbatim>\<open>tool\<close> that can be hashed (the data model makes both of them strings). \<open>step_ok\<close> is what
  \<^verbatim>\<open>_run_step\<close> needs, \<open>step_wf\<close> what \<^verbatim>\<open>retry_failed\<close> needs in addition.
\<close>

fun step_ok :: "json \<Rightarrow> bool" where
  "step_ok (JObj step) = py_hashable (get step ''tool'')"
| "step_ok v = False"

fun step_wf :: "json \<Rightarrow> bool" where
  "step_wf (JObj step) =
     (map_of step ''id'' \<noteq> None \<and> py_hashable (get step ''id'') \<and> py_hashable (get step ''tool''))"
| "step_wf v = False"

text \<open>
  A StepResult has an output only when its status is \<^verbatim>\<open>success\<close> (the data model: exactly one
  of output and error is populated, selected by the status); \<^verbatim>\<open>_run_step\<close> and the handler in
  \<^verbatim>\<open>execute\<close> build it so. The output of \<^verbatim>\<open>llm_generate\<close> is \<^verbatim>\<open>{"text": <str>}\<close>
  (\<^verbatim>\<open>generate_text\<close> in tools/llm_generate.py). \<open>of_plan tools r\<close> says that \<open>r\<close> is the result
  of a step of the plan whose tools are \<open>tools\<close>.
\<close>

definition text_output :: "json \<Rightarrow> bool" where
  "text_output v = (case v of JObj [(k, JStr t)] \<Rightarrow> k = ''text'' | _ \<Rightarrow> False)"

definition result_typed :: "dict \<Rightarrow> bool" where
  "result_typed r =
     (if get r ''status'' = JStr ''success''
      then get r ''tool'' = JStr ''llm_generate'' \<longrightarrow> text_output (get r ''output'')
      else map_of r ''output'' = None)"

definition of_plan :: "json list \<Rightarrow> dict \<Rightarrow> bool" where
  "of_plan tools r = (get r ''tool'' \<in> set tools)"

text \<open>A step as the planner normalises it: a dict whose tool is truthy and can be hashed.\<close>

fun step_named :: "json \<Rightarrow> bool" where
  "step_named (JObj step) = (py_truthy (get step ''tool'') \<and> py_hashable (get step ''tool''))"
| "step_named v = False"

text \<open>The id of step \<open>s\<close> equals the key \<open>k\<close>, as a dict lookup compares them.\<close>

fun has_id :: "json \<Rightarrow> json \<Rightarrow> bool" where
  "has_id k (JObj step) = py_eq (get step ''id'') k"
| "has_id k v = False"

section \<open>An example environment\<close>

text \<open>The world is the number of tool and oracle calls made so far. The weather tool fails
  in the worlds 0 and 1 and succeeds afterwards.\<close>

definition demo_github :: json where
  "demo_github = JObj
     [(''query'', JStr ''isabelle''),
      (''total_count'', JInt 3),
      (''items'', JList
         [JObj [(''name'', JStr ''isabelle''), (''full_name'', JStr ''isabelle-prover/isabelle''),
                (''url'', JStr ''https://github.com/isabelle-prover/isabelle''), (''stars'', JInt 100)],
          JObj [(''name'', JStr ''afp''), (''full_name'', JNull),
                (''url'', JStr ''https://github.com/isa-afp/afp''), (''stars'', JInt 50)],
          JObj [(''name'', JStr ''mirror''), (''full_name'', JStr ''m/mirror''),
                (''url'', JStr ''https://github.com/isabelle-prover/isabelle''), (''stars'', JNull)]]),
      (''source_url'', JStr ''https://api.github.com/search/repositories?q=isabelle'')]"

definition demo_weather :: json where
  "demo_weather = JObj
     [(''location'', JStr ''Pune, India''),
      (''temperature_c'', JInt 30),
      (''wind_kph'', JInt 12),
      (''weather_code'', JInt 0),
      (''weather_summary'', JStr ''Clear sky''),
      (''source_url'', JStr ''https://api.open-meteo.com/v1/forecast'')]"

definition demo_tool :: "string \<Rightarrow> json \<Rightarrow> nat \<Rightarrow> (exn + json) \<times> nat" where
  "demo_tool name args w =
     (if name = ''weather_current'' then
        (if w < 2 then (Inl (Exception ''timed out''), Suc w) else (Inr demo_weather, Suc w))
      else if name = ''github_search'' then (Inr demo_github, Suc w)
      else (Inr (JObj [(''text'', JStr '' Hello World '')]), Suc w))"

text \<open>The planner's oracle proposes the weather step alone when it is asked first, and two steps
  later; the verifier's oracle calls its answer partial in an early world and complete later.\<close>

definition demo_oracle_weather :: json where
  "demo_oracle_weather = JObj
     [(''steps'', JList
         [JObj [(''tool'', JStr ''weather_current''), (''args'', JObj [(''city'', JStr ''Pune'')])]])]"

definition demo_oracle_plain :: json where
  "demo_oracle_plain = JObj
     [(''steps'', JList
         [JObj [(''tool'', JStr ''weather_current''), (''args'', JObj [(''city'', JStr ''Pune'')])],
          JObj [(''tool'', JStr ''github_search''), (''args'', JObj [(''query'', JStr ''isabelle'')])]])]"

definition demo_verification :: "nat \<Rightarrow> json" where
  "demo_verification w = JObj
     [(''final_answer'', JStr ''oracle prose''),
      (''data'', JObj [(''checked'', JBool True)]),
      (''completeness'', JStr (if w < 4 then ''partial'' else ''complete''))]"

definition demo_env :: "nat env" where
  "demo_env = \<lparr> call_tool = demo_tool,
                elapsed_ms = (\<lambda>w w'. int w' - int w),
                py_repr = (\<lambda>v. ''?''),
                planner_oracle =
                  (\<lambda>task w. (Inr (if w = 0 then demo_oracle_weather else demo_oracle_plain), Suc w)),
                verifier_oracle = (\<lambda>task plan compact w. (Inr (demo_verification w), Suc w)) \<rparr>"

definition demo_step1 :: json where
  "demo_step1 = JObj [(''id'', JStr ''step_1''), (''tool'', JStr ''weather_current''),
                      (''args'', JObj [(''city'', JStr ''Pune'')]), (''purpose'', JStr [])]"

definition demo_step2 :: json where
  "demo_step2 = JObj [(''id'', JStr ''step_2''), (''tool'', JStr ''translate''),
                      (''args'', JObj []), (''purpose'', JStr [])]"

definition demo_step3 :: json where
  "demo_step3 = JObj [(''id'', JStr ''step_3''), (''tool'', JStr ''github_search''),
                      (''args'', JObj [(''query'', JStr ''isabelle'')]), (''purpose'', JStr [])]"

definition demo_steps :: "json list" where
  "demo_steps = [demo_step1, demo_step2, demo_step3]"

definition demo_plan :: dict where
  "demo_plan = [(''goal'', JStr ''weather and repositories''), (''steps'', JList demo_steps)]"

text \<open>What \<^verbatim>\<open>execute\<close> returns for the example plan when the weather tool runs first, and a
  stale result that names no step of the plan.\<close>

definition demo_result1 :: dict where
  "demo_result1 = [(''step_id'', JStr ''step_1''), (''tool'', JStr ''weather_current''),
                   (''args'', JObj [(''city'', JStr ''Pune'')]), (''status'', JStr ''error''),
                   (''error'', JStr ''timed out''), (''duration_ms'', JInt 1)]"

definition demo_result2 :: dict where
  "demo_result2 = [(''step_id'', JStr ''step_2''), (''tool'', JStr ''translate''),
                   (''args'', JObj []), (''status'', JStr ''error''),
                   (''error'', JStr ''Unknown tool: translate''), (''duration_ms'', JInt 0)]"

definition demo_result3 :: dict where
  "demo_result3 = [(''step_id'', JStr ''step_3''), (''tool'', JStr ''github_search''),
                   (''args'', JObj [(''query'', JStr ''isabelle'')]), (''status'', JStr ''success''),
                   (''output'', demo_github), (''duration_ms'', JInt 1)]"

definition demo_stale :: dict where
  "demo_stale = [(''step_id'', JStr ''step_9''), (''tool'', JStr ''weather_current''),
                 (''args'', JObj []), (''status'', JStr ''error''), (''error'', JStr ''timed out'')]"

definition demo_results :: "dict list" where
  "demo_results = [demo_result1, demo_result2, demo_result3, demo_stale]"

text \<open>An oracle answer that names two steps alike.\<close>

definition demo_oracle_dup :: json where
  "demo_oracle_dup = JObj
     [(''goal'', JStr ''repositories''),
      (''steps'', JList
         [JObj [(''id'', JStr ''search''), (''tool'', JStr ''github_search''),
                (''args'', JObj [(''query'', JStr ''isabelle'')])],
          JObj [(''id'', JStr ''search''), (''tool'', JStr ''github_search''),
                (''args'', JObj [(''query'', JStr ''coq'')])]])]"

definition dup_env :: "nat env" where
  "dup_env = demo_env \<lparr> planner_oracle := (\<lambda>task w. (Inr demo_oracle_dup, Suc w)) \<rparr>"

definition plain_env :: "nat env" where
  "plain_env = demo_env \<lparr> planner_oracle := (\<lambda>task w. (Inr demo_oracle_plain, Suc w)) \<rparr>"

text \<open>A plan whose first step names its tool by a list, which cannot be hashed.\<close>

definition demo_unhashable_plan :: dict where
  "demo_unhashable_plan =
     [(''goal'', JStr ''repositories''),
      (''steps'', JList [JObj [(''id'', JStr ''step_1''), (''tool'', JList [JStr ''github_search''])],
                         demo_step3])]"

text \<open>A plan that only generates text, and the result of running it.\<close>

definition demo_llm_plan :: dict where
  "demo_llm_plan =
     [(''goal'', JStr ''intro speech''),
      (''steps'', JList [JObj [(''id'', JStr ''step_1''), (''tool'', JStr ''llm_generate''),
                               (''args'', JObj [(''instruction'', JStr ''Write an intro speech.'')]),
                               (''purpose'', JStr [])]])]"

definition demo_llm_result :: dict where
  "demo_llm_result =
     [(''step_id'', JStr ''step_1''), (''tool'', JStr ''llm_generate''),
      (''args'', JObj [(''instruction'', JStr ''Write an intro speech.'')]),
      (''status'', JStr ''success''),
      (''output'', JObj [(''text'', JStr '' Hello World '')]),
      (''duration_ms'', JInt 1)]"

text \<open>The example results after the repair pass in a world where the weather tool works.\<close>

definition demo_repaired :: "dict list" where
  "demo_repaired =
     [[(''step_id'', JStr ''step_1''), (''tool'', JStr ''weather_current''),
       (''args'', JObj [(''city'', JStr ''Pune'')]), (''status'', JStr ''success''),
       (''output'', demo_weather), (''duration_ms'', JInt 1)],
      demo_result2, demo_result3, demo_stale]"

text \<open>A plan that only searches repositories, and a search result whose single item has
  neither a name nor a url.\<close>

definition demo_repo_plan :: dict where
  "demo_repo_plan =
     [(''goal'', JStr ''repositories''),
      (''steps'', JList [JObj [(''id'', JStr ''step_1''), (''tool'', JStr ''github_search''),
                               (''args'', JObj [(''query'', JStr ''isabelle'')]),
                               (''purpose'', JStr [])]])]"

definition demo_nameless_result :: dict where
  "demo_nameless_result =
     [(''step_id'', JStr ''step_1''), (''tool'', JStr ''github_search''),
      (''args'', JObj [(''query'', JStr ''isabelle'')]),
      (''status'', JStr ''success''),
      (''output'', JObj [(''query'', JStr ''isabelle''), (''total_count'', JInt 1),
                         (''items'', JList [JObj [(''stars'', JInt 5), (''language'', JStr ''Isabelle'')]]),
                         (''source_url'', JStr ''https://api.github.com/search/repositories?q=isabelle'')]),
      (''duration_ms'', JInt 1)]"

text \<open>A text generation result as no run of \<^verbatim>\<open>generate_text\<close> produces it: its output names
  a page.\<close>

definition demo_cited_result :: dict where
  "demo_cited_result =
     [(''step_id'', JStr ''step_1''), (''tool'', JStr ''llm_generate''),
      (''args'', JObj [(''instruction'', JStr ''Write an intro speech.'')]),
      (''status'', JStr ''success''),
      (''output'', JObj [(''text'', JStr ''Hello World''),
                         (''source_url'', JStr ''https://example.org/speech'')]),
      (''duration_ms'', JInt 1)]"

text \<open>
  An environment whose planner always proposes the weather step and whose verifier always
  calls its answer partial, with the values of one run in it: the weather tool fails in the
  first pass, works when the verifier retries it, and works in the second pass.
\<close>

definition partial_env :: "nat env" where
  "partial_env = demo_env
     \<lparr> planner_oracle := (\<lambda>task w. (Inr demo_oracle_weather, Suc w)),
       verifier_oracle := (\<lambda>task plan compact w.
          (Inr (JObj [(''final_answer'', JStr ''oracle prose''),
                      (''completeness'', JStr ''partial'')]), Suc w)) \<rparr>"

definition demo_task :: string where
  "demo_task = ''weather in Pune''"

definition demo_replan_task :: string where
  "demo_replan_task =
     ''weather in Pune'' @ [CHR 0x0A, CHR 0x0A]
     @ ''Fix missing or failed info from the previous attempt. ''
     @ ''Use only the necessary tools. ''
     @ ''Errors: weather_current: timed out''"

definition demo1_plan :: dict where
  "demo1_plan = [(''goal'', JStr demo_task), (''steps'', JList [demo_step1])]"

definition demo2_plan :: dict where
  "demo2_plan = [(''goal'', JStr demo_replan_task), (''steps'', JList [demo_step1])]"

definition demo_weather_ok :: dict where
  "demo_weather_ok =
     [(''step_id'', JStr ''step_1''), (''tool'', JStr ''weather_current''),
      (''args'', JObj [(''city'', JStr ''Pune'')]), (''status'', JStr ''success''),
      (''output'', demo_weather), (''duration_ms'', JInt 1)]"

definition demo1_final :: dict where
  "demo1_final =
     [(''final_answer'',
       JStr (''Current weather in Pune, India: Clear sky, 30'' @ degree @ ''C, wind 12 kph.'')),
      (''completeness'', JStr ''partial''),
      (''sources'', JList [JStr ''https://api.open-meteo.com/v1/forecast''])]"

section \<open>Properties of the executor\<close>

lemma run_step_unknown:
  assumes "py_hashable (get step ''tool'')" and "registry_get env (get step ''tool'') = None"
  shows "run_step env (JObj step) w =
           (Inr [(''step_id'', get step ''id''),
                 (''tool'', get step ''tool''),
                 (''args'', py_or (get step ''args'') (JObj [])),
                 (''status'', JStr ''error''),
                 (''error'', JStr (''Unknown tool: '' @ py_str (py_repr env) (get step ''tool''))),
                 (''duration_ms'', JInt (elapsed_ms env w w))], w)"
  using assms by (simp add: Let_def)

lemma run_step_raised:
  assumes "py_hashable (get step ''tool'')" and "registry_get env (get step ''tool'') = Some tool"
      and "tool (py_or (get step ''args'') (JObj [])) w = (Inl exc, w')"
  shows "run_step env (JObj step) w =
           (Inr [(''step_id'', get step ''id''),
                 (''tool'', get step ''tool''),
                 (''args'', py_or (get step ''args'') (JObj [])),
                 (''status'', JStr ''error''),
                 (''error'', JStr (exn_str exc)),
                 (''duration_ms'', JInt (elapsed_ms env w w'))], w')"
  using assms by (simp add: Let_def)

lemma run_step_success:
  assumes "py_hashable (get step ''tool'')" and "registry_get env (get step ''tool'') = Some tool"
      and "tool (py_or (get step ''args'') (JObj [])) w = (Inr output, w')"
  shows "run_step env (JObj step) w =
           (Inr [(''step_id'', get step ''id''),
                 (''tool'', get step ''tool''),
                 (''args'', py_or (get step ''args'') (JObj [])),
                 (''status'', JStr ''success''),
                 (''output'', output),
                 (''duration_ms'', JInt (elapsed_ms env w w'))], w')"
  using assms by (simp add: Let_def)

lemma run_step_returns:
  assumes "step_ok s"
  shows "\<exists>r. fst (run_step env s w) = Inr r"
proof (cases s)
  case (JObj step)
  with assms have h: "py_hashable (get step ''tool'')" by simp
  show ?thesis
  proof (cases "registry_get env (get step ''tool'')")
    case None
    from run_step_unknown[OF h None] show ?thesis unfolding JObj by simp
  next
    case (Some tool)
    obtain res w' where t: "tool (py_or (get step ''args'') (JObj [])) w = (res, w')"
      by (cases "tool (py_or (get step ''args'') (JObj [])) w")
    show ?thesis
    proof (cases res)
      case (Inl exc)
      with run_step_raised[OF h Some] t show ?thesis unfolding JObj by simp
    next
      case (Inr out)
      with run_step_success[OF h Some] t show ?thesis unfolding JObj by simp
    qed
  qed
qed (use assms in simp_all)

lemma run_step_fields:
  assumes "fst (run_step env (JObj step) w) = Inr r"
  shows "get r ''step_id'' = get step ''id'' \<and> get r ''tool'' = get step ''tool''
         \<and> get r ''args'' = py_or (get step ''args'') (JObj [])"
proof (cases "py_hashable (get step ''tool'')")
  case False
  with assms show ?thesis by (simp add: Let_def)
next
  case h: True
  show ?thesis
  proof (cases "registry_get env (get step ''tool'')")
    case None
    from run_step_unknown[OF h None, of w] assms show ?thesis by (auto simp: get_def)
  next
    case (Some tool)
    obtain res w' where t: "tool (py_or (get step ''args'') (JObj [])) w = (res, w')"
      by (cases "tool (py_or (get step ''args'') (JObj [])) w")
    show ?thesis
    proof (cases res)
      case (Inl exc)
      with run_step_raised[OF h Some] t assms show ?thesis by (auto simp: get_def)
    next
      case (Inr out)
      with run_step_success[OF h Some] t assms show ?thesis by (auto simp: get_def)
    qed
  qed
qed

declare run_step.simps [simp del]

lemma drain_append:
  "drain env steps (xs @ ys) w = drain env steps ys (drain env steps xs w)"
  by (induction xs arbitrary: w) auto

lemma run_pool_ok:
  assumes "\<forall>s\<in>set steps. step_ok s"
      and "distinct sched" and "\<forall>i\<in>set sched. i < length steps"
      and "length results = length steps"
  shows "\<exists>results'. run_pool env steps_v steps sched results w = (Inr results', drain env steps sched w)
           \<and> length results' = length steps
           \<and> (\<forall>i<length steps. i \<notin> set sched \<longrightarrow> results' ! i = results ! i)
           \<and> (\<forall>k<length sched. \<exists>r. results' ! (sched ! k) = Some r
                 \<and> fst (run_step env (steps ! (sched ! k)) (drain env steps (take k sched) w)) = Inr r)"
  using assms(2-)
proof (induction sched arbitrary: results w)
  case Nil
  then show ?case by simp
next
  case (Cons idx rest)
  from Cons.prems have idx: "idx < length steps" and nin: "idx \<notin> set rest"
    and dr: "distinct rest" and rng: "\<forall>i\<in>set rest. i < length steps" by auto
  from idx assms(1) have "step_ok (steps ! idx)" by simp
  from run_step_returns[OF this, of env w]
  obtain r where r: "fst (run_step env (steps ! idx) w) = Inr r" by blast
  define w' where "w' = snd (run_step env (steps ! idx) w)"
  have rs: "run_step env (steps ! idx) w = (Inr r, w')"
    using r by (simp add: w'_def prod_eq_iff)
  have len: "length (results[idx := Some r]) = length steps" using Cons.prems by simp
  from Cons.IH[OF dr rng len, of w'] obtain results' where
    run: "run_pool env steps_v steps rest (results[idx := Some r]) w' = (Inr results', drain env steps rest w')"
    and l': "length results' = length steps"
    and keep: "\<forall>i<length steps. i \<notin> set rest \<longrightarrow> results' ! i = (results[idx := Some r]) ! i"
    and fin: "\<forall>k<length rest. \<exists>r'. results' ! (rest ! k) = Some r'
                 \<and> fst (run_step env (steps ! (rest ! k)) (drain env steps (take k rest) w')) = Inr r'"
    by blast
  have eq: "run_pool env steps_v steps (idx # rest) results w = (Inr results', drain env steps (idx # rest) w)"
    using idx rs run by simp
  have at_idx: "results' ! idx = Some r"
    using keep idx nin Cons.prems(3) by simp
  have all: "\<forall>k<length (idx # rest). \<exists>r'. results' ! ((idx # rest) ! k) = Some r'
                 \<and> fst (run_step env (steps ! ((idx # rest) ! k)) (drain env steps (take k (idx # rest)) w)) = Inr r'"
  proof (intro allI impI)
    fix k assume k: "k < length (idx # rest)"
    show "\<exists>r'. results' ! ((idx # rest) ! k) = Some r'
                 \<and> fst (run_step env (steps ! ((idx # rest) ! k)) (drain env steps (take k (idx # rest)) w)) = Inr r'"
    proof (cases k)
      case 0
      then show ?thesis using at_idx r by simp
    next
      case (Suc k')
      with k have "k' < length rest" by simp
      with fin obtain r' where "results' ! (rest ! k') = Some r'"
         "fst (run_step env (steps ! (rest ! k')) (drain env steps (take k' rest) w')) = Inr r'" by blast
      then show ?thesis using Suc idx rs by simp
    qed
  qed
  have keep': "\<forall>i<length steps. i \<notin> set (idx # rest) \<longrightarrow> results' ! i = results ! i"
    using keep by auto
  from eq l' keep' all show ?case by blast
qed

lemma map_filter_all_Some:
  assumes "\<forall>i<length xs. \<exists>r. xs ! i = Some r"
  shows "List.map_filter id xs = map the xs"
  using assms
proof (induction xs)
  case Nil
  then show ?case by (simp add: List.map_filter_simps)
next
  case (Cons x xs)
  from Cons.prems have "\<exists>r. (x # xs) ! 0 = Some r" by blast
  then obtain r where x: "x = Some r" by auto
  from Cons.prems have "\<forall>i<length xs. \<exists>r. xs ! i = Some r" by fastforce
  with Cons.IH x show ?case by (simp add: List.map_filter_simps)
qed

text \<open>On a plan of well-formed steps \<^verbatim>\<open>execute\<close> returns, whatever the completion order: slot
  \<open>sched ! k\<close> holds what \<^verbatim>\<open>_run_step\<close> returned for that step in the world the first \<open>k\<close>
  completed workers left behind.\<close>

lemma execute_results:
  assumes steps: "get_default plan ''steps'' (JList []) = JList steps"
      and ok: "\<forall>s\<in>set steps. step_ok s"
      and dist: "distinct sched" and perm: "set sched = {..<length steps}"
  shows "\<exists>rs. execute env plan sched w = (Inr rs, drain env steps sched w)
           \<and> length rs = length steps
           \<and> (\<forall>k<length steps.
                 fst (run_step env (steps ! (sched ! k)) (drain env steps (take k sched) w))
                   = Inr (rs ! (sched ! k)))"
proof -
  have lens: "length sched = length steps"
    using dist perm distinct_card[of sched] by simp
  show ?thesis
  proof (cases "length steps \<le> 1")
    case True
    show ?thesis
    proof (cases steps)
      case Nil
      with lens steps show ?thesis by (simp add: execute_def)
    next
      case (Cons s rest)
      with True have rest: "rest = []" by simp
      with Cons lens perm have sched: "sched = [0]"
        by (cases sched) auto
      from ok Cons have "step_ok s" by simp
      from run_step_returns[OF this, of env w]
      obtain r where r: "fst (run_step env s w) = Inr r" by blast
      define w' where "w' = snd (run_step env s w)"
      have "run_step env s w = (Inr r, w')" using r by (simp add: w'_def prod_eq_iff)
      then show ?thesis using Cons rest sched steps
        by (simp add: execute_def)
    qed
  next
    case False
    have rng: "\<forall>i\<in>set sched. i < length steps" using perm by auto
    from run_pool_ok[OF ok dist rng, of "replicate (length steps) None" env "JList steps" w]
    obtain results' where
      run: "run_pool env (JList steps) steps sched (replicate (length steps) None) w
              = (Inr results', drain env steps sched w)"
      and l': "length results' = length steps"
      and fin: "\<forall>k<length sched. \<exists>r. results' ! (sched ! k) = Some r
                 \<and> fst (run_step env (steps ! (sched ! k)) (drain env steps (take k sched) w)) = Inr r"
      by auto
    have allsome: "\<forall>i<length results'. \<exists>r. results' ! i = Some r"
    proof (intro allI impI)
      fix i assume "i < length results'"
      with l' perm have "i \<in> set sched" by simp
      then obtain k where "k < length sched" "sched ! k = i" by (auto simp: in_set_conv_nth)
      with fin show "\<exists>r. results' ! i = Some r" by auto
    qed
    have mf: "List.map_filter id results' = map the results'"
      by (rule map_filter_all_Some[OF allsome])
    have ex: "execute env plan sched w = (Inr (map the results'), drain env steps sched w)"
      using False steps run mf by (simp add: execute_def)
    have "\<forall>k<length steps.
                 fst (run_step env (steps ! (sched ! k)) (drain env steps (take k sched) w))
                   = Inr (map the results' ! (sched ! k))"
    proof (intro allI impI)
      fix k assume k: "k < length steps"
      with lens have k': "k < length sched" by simp
      then have "sched ! k \<in> set sched" by simp
      with perm l' have "sched ! k < length results'" by simp
      moreover from fin k' obtain r where "results' ! (sched ! k) = Some r"
        "fst (run_step env (steps ! (sched ! k)) (drain env steps (take k sched) w)) = Inr r" by blast
      ultimately show "fst (run_step env (steps ! (sched ! k)) (drain env steps (take k sched) w))
                   = Inr (map the results' ! (sched ! k))" by simp
    qed
    with ex l' show ?thesis by auto
  qed
qed

text \<open>The handler in \<^verbatim>\<open>execute\<close>: the worker of the first step raises, because the tool name
  cannot be hashed; its slot receives an error result without a duration, and the sibling
  step is run.\<close>

lemma execute_handler_example:
  "execute demo_env demo_unhashable_plan [1, 0] 0 =
     (Inr [[(''step_id'', JStr ''step_1''), (''tool'', JList [JStr ''github_search'']),
            (''args'', JObj []), (''status'', JStr ''error''),
            (''error'', JStr (''unhashable type: '' @ [CHR 0x27] @ ''list'' @ [CHR 0x27]))],
           demo_result3], 1)"
  by code_simp

text \<open>
  Claim C1. Running a step is crash-isolated. For a plan of well-formed steps and any completion
  order, \<^verbatim>\<open>execute\<close> does not raise and returns one result per step. A step whose tool name
  is not a key of the registry gets the error result \<^verbatim>\<open>Unknown tool: <name>\<close> and leaves the
  world as it found it (no tool is called); a step whose tool raises gets an error result
  that carries the exception's text; and every step's slot holds exactly what
  \<^verbatim>\<open>_run_step\<close> returned for that step, whatever happened to its siblings.
\<close>

theorem execute_crash_isolated:
  assumes "get_default plan ''steps'' (JList []) = JList steps"
      and "list_all step_ok steps"
      and "distinct sched" and "set sched = {..<length steps}"
  shows "\<exists>rs. execute env plan sched w = (Inr rs, drain env steps sched w)
           \<and> length rs = length steps
           \<and> (\<forall>k<length steps. \<forall>step. steps ! (sched ! k) = JObj step \<longrightarrow>
                (let wk = drain env steps (take k sched) w;
                     tool_name = get step ''tool'';
                     args = py_or (get step ''args'') (JObj [])
                 in fst (run_step env (JObj step) wk) = Inr (rs ! (sched ! k))
                  \<and> (registry_get env tool_name = None \<longrightarrow>
                       rs ! (sched ! k) =
                         [(''step_id'', get step ''id''),
                          (''tool'', tool_name),
                          (''args'', args),
                          (''status'', JStr ''error''),
                          (''error'', JStr (''Unknown tool: '' @ py_str (py_repr env) tool_name)),
                          (''duration_ms'', JInt (elapsed_ms env wk wk))]
                       \<and> drain env steps (take (Suc k) sched) w = wk)
                  \<and> (\<forall>tool exc w'. registry_get env tool_name = Some tool \<and> tool args wk = (Inl exc, w') \<longrightarrow>
                       rs ! (sched ! k) =
                         [(''step_id'', get step ''id''),
                          (''tool'', tool_name),
                          (''args'', args),
                          (''status'', JStr ''error''),
                          (''error'', JStr (exn_str exc)),
                          (''duration_ms'', JInt (elapsed_ms env wk w'))])))"
proof -
  have lens: "length sched = length steps"
    using assms(3,4) distinct_card[of sched] by simp
  have ok: "\<forall>s\<in>set steps. step_ok s"
    using assms(2) by (simp add: list_all_iff)
  from execute_results[OF assms(1) ok assms(3,4), of env w] obtain rs where
    ex: "execute env plan sched w = (Inr rs, drain env steps sched w)"
    and len: "length rs = length steps"
    and slot: "\<forall>k<length steps.
                 fst (run_step env (steps ! (sched ! k)) (drain env steps (take k sched) w))
                   = Inr (rs ! (sched ! k))"
    by blast
  have "\<forall>k<length steps. \<forall>step. steps ! (sched ! k) = JObj step \<longrightarrow>
                (let wk = drain env steps (take k sched) w;
                     tool_name = get step ''tool'';
                     args = py_or (get step ''args'') (JObj [])
                 in fst (run_step env (JObj step) wk) = Inr (rs ! (sched ! k))
                  \<and> (registry_get env tool_name = None \<longrightarrow>
                       rs ! (sched ! k) =
                         [(''step_id'', get step ''id''),
                          (''tool'', tool_name),
                          (''args'', args),
                          (''status'', JStr ''error''),
                          (''error'', JStr (''Unknown tool: '' @ py_str (py_repr env) tool_name)),
                          (''duration_ms'', JInt (elapsed_ms env wk wk))]
                       \<and> drain env steps (take (Suc k) sched) w = wk)
                  \<and> (\<forall>tool exc w'. registry_get env tool_name = Some tool \<and> tool args wk = (Inl exc, w') \<longrightarrow>
                       rs ! (sched ! k) =
                         [(''step_id'', get step ''id''),
                          (''tool'', tool_name),
                          (''args'', args),
                          (''status'', JStr ''error''),
                          (''error'', JStr (exn_str exc)),
                          (''duration_ms'', JInt (elapsed_ms env wk w'))]))"
  proof (intro allI impI)
    fix k step
    assume k: "k < length steps" and st: "steps ! (sched ! k) = JObj step"
    define wk where "wk = drain env steps (take k sched) w"
    from k lens have ks: "k < length sched" by simp
    then have "sched ! k \<in> set sched" by simp
    with assms(4) have idx: "sched ! k < length steps" by simp
    with ok have "step_ok (steps ! (sched ! k))" by simp
    with st have h: "py_hashable (get step ''tool'')" by simp
    from slot k have "fst (run_step env (steps ! (sched ! k)) wk) = Inr (rs ! (sched ! k))"
      unfolding wk_def by blast
    with st have own: "fst (run_step env (JObj step) wk) = Inr (rs ! (sched ! k))"
      by simp
    have unk: "rs ! (sched ! k) =
                 [(''step_id'', get step ''id''),
                  (''tool'', get step ''tool''),
                  (''args'', py_or (get step ''args'') (JObj [])),
                  (''status'', JStr ''error''),
                  (''error'', JStr (''Unknown tool: '' @ py_str (py_repr env) (get step ''tool''))),
                  (''duration_ms'', JInt (elapsed_ms env wk wk))]
               \<and> drain env steps (take (Suc k) sched) w = wk"
      if none: "registry_get env (get step ''tool'') = None"
    proof -
      from run_step_unknown[OF h none, of wk] own
      have a: "rs ! (sched ! k) =
                 [(''step_id'', get step ''id''),
                  (''tool'', get step ''tool''),
                  (''args'', py_or (get step ''args'') (JObj [])),
                  (''status'', JStr ''error''),
                  (''error'', JStr (''Unknown tool: '' @ py_str (py_repr env) (get step ''tool''))),
                  (''duration_ms'', JInt (elapsed_ms env wk wk))]"
        by simp
      have "drain env steps (take (Suc k) sched) w = drain env steps [sched ! k] wk"
        using ks by (simp add: take_Suc_conv_app_nth drain_append wk_def)
      also have "\<dots> = snd (run_step env (JObj step) wk)" using idx st by simp
      also have "\<dots> = wk" using run_step_unknown[OF h none, of wk] by simp
      finally show ?thesis using a by simp
    qed
    have rsd: "rs ! (sched ! k) =
                 [(''step_id'', get step ''id''),
                  (''tool'', get step ''tool''),
                  (''args'', py_or (get step ''args'') (JObj [])),
                  (''status'', JStr ''error''),
                  (''error'', JStr (exn_str exc)),
                  (''duration_ms'', JInt (elapsed_ms env wk w'))]"
      if "registry_get env (get step ''tool'') = Some tool"
        and "tool (py_or (get step ''args'') (JObj [])) wk = (Inl exc, w')" for tool exc w'
      using run_step_raised[OF h that] own by simp
    show "let wk = drain env steps (take k sched) w;
              tool_name = get step ''tool'';
              args = py_or (get step ''args'') (JObj [])
          in fst (run_step env (JObj step) wk) = Inr (rs ! (sched ! k))
                  \<and> (registry_get env tool_name = None \<longrightarrow>
                       rs ! (sched ! k) =
                         [(''step_id'', get step ''id''),
                          (''tool'', tool_name),
                          (''args'', args),
                          (''status'', JStr ''error''),
                          (''error'', JStr (''Unknown tool: '' @ py_str (py_repr env) tool_name)),
                          (''duration_ms'', JInt (elapsed_ms env wk wk))]
                       \<and> drain env steps (take (Suc k) sched) w = wk)
                  \<and> (\<forall>tool exc w'. registry_get env tool_name = Some tool \<and> tool args wk = (Inl exc, w') \<longrightarrow>
                       rs ! (sched ! k) =
                         [(''step_id'', get step ''id''),
                          (''tool'', tool_name),
                          (''args'', args),
                          (''status'', JStr ''error''),
                          (''error'', JStr (exn_str exc)),
                          (''duration_ms'', JInt (elapsed_ms env wk w'))])"
      unfolding Let_def wk_def[symmetric]
      using own unk rsd by blast
  qed
  with ex len show ?thesis by blast
qed

lemma demo_sched_ok: "distinct [0, 2, 1::nat] \<and> set [0, 2, 1::nat] = {..<length demo_steps}"
  by (auto simp: demo_steps_def)

lemma demo_plan_steps: "get_default demo_plan ''steps'' (JList []) = JList demo_steps"
  by (simp add: demo_plan_def get_default_def)

lemma demo_steps_ok: "\<forall>s\<in>set demo_steps. step_ok s"
  by (simp add: demo_steps_def demo_step1_def demo_step2_def demo_step3_def get_def)

lemma demo_steps_wf: "\<forall>s\<in>set demo_steps. step_wf s"
  by (simp add: demo_steps_def demo_step1_def demo_step2_def demo_step3_def get_def)

lemma demo_run_step_0:
  "run_step demo_env demo_step1 0 =
     (Inr [(''step_id'', JStr ''step_1''), (''tool'', JStr ''weather_current''),
           (''args'', JObj [(''city'', JStr ''Pune'')]), (''status'', JStr ''error''),
           (''error'', JStr ''timed out''), (''duration_ms'', JInt 1)], Suc 0)"
  by (simp add: demo_step1_def demo_step2_def demo_step3_def run_step.simps get_def py_or_def demo_env_def demo_tool_def
      TOOL_REGISTRY_def TOOL_NAMES_def)

lemma demo_run_step_0':
  "2 \<le> w \<Longrightarrow> run_step demo_env demo_step1 w =
     (Inr [(''step_id'', JStr ''step_1''), (''tool'', JStr ''weather_current''),
           (''args'', JObj [(''city'', JStr ''Pune'')]), (''status'', JStr ''success''),
           (''output'', demo_weather), (''duration_ms'', JInt 1)], Suc w)"
  by (simp add: demo_step1_def demo_step2_def demo_step3_def run_step.simps get_def py_or_def demo_env_def demo_tool_def
      TOOL_REGISTRY_def TOOL_NAMES_def)

lemma demo_run_step_1:
  "run_step demo_env demo_step2 w =
     (Inr [(''step_id'', JStr ''step_2''), (''tool'', JStr ''translate''),
           (''args'', JObj []), (''status'', JStr ''error''),
           (''error'', JStr ''Unknown tool: translate''), (''duration_ms'', JInt 0)], w)"
  by (simp add: demo_step1_def demo_step2_def demo_step3_def run_step.simps get_def py_or_def demo_env_def demo_tool_def
      TOOL_REGISTRY_def TOOL_NAMES_def)

lemma demo_run_step_2:
  "run_step demo_env demo_step3 w =
     (Inr [(''step_id'', JStr ''step_3''), (''tool'', JStr ''github_search''),
           (''args'', JObj [(''query'', JStr ''isabelle'')]), (''status'', JStr ''success''),
           (''output'', demo_github), (''duration_ms'', JInt 1)], Suc w)"
  by (simp add: demo_step1_def demo_step2_def demo_step3_def run_step.simps get_def py_or_def demo_env_def demo_tool_def
      TOOL_REGISTRY_def TOOL_NAMES_def)

lemma demo_length: "length demo_steps = 3"
  by (simp add: demo_steps_def)

lemma demo_execute:
  "execute demo_env demo_plan [0, 2, 1] 0 =
     (Inr [[(''step_id'', JStr ''step_1''), (''tool'', JStr ''weather_current''),
            (''args'', JObj [(''city'', JStr ''Pune'')]), (''status'', JStr ''error''),
            (''error'', JStr ''timed out''), (''duration_ms'', JInt 1)],
           [(''step_id'', JStr ''step_2''), (''tool'', JStr ''translate''),
            (''args'', JObj []), (''status'', JStr ''error''),
            (''error'', JStr ''Unknown tool: translate''), (''duration_ms'', JInt 0)],
           [(''step_id'', JStr ''step_3''), (''tool'', JStr ''github_search''),
            (''args'', JObj [(''query'', JStr ''isabelle'')]), (''status'', JStr ''success''),
            (''output'', demo_github), (''duration_ms'', JInt 1)]], 2)"
  by (simp add: execute_def demo_plan_steps demo_steps_def demo_run_step_0 demo_run_step_1
      demo_run_step_2 eval_nat_numeral List.map_filter_simps)

theorem execute_crash_isolated_witness:
  "get_default demo_plan ''steps'' (JList []) = JList demo_steps
   \<and> list_all step_ok demo_steps
   \<and> distinct [0, 2, 1::nat] \<and> set [0, 2, 1::nat] = {..<length demo_steps}
   \<and> (\<exists>rs. execute demo_env demo_plan [0, 2, 1] 0 = (Inr rs, drain demo_env demo_steps [0, 2, 1] 0)
         \<and> length rs = 3
         \<and> rs ! 0 = [(''step_id'', JStr ''step_1''), (''tool'', JStr ''weather_current''),
                     (''args'', JObj [(''city'', JStr ''Pune'')]), (''status'', JStr ''error''),
                     (''error'', JStr ''timed out''), (''duration_ms'', JInt 1)]
         \<and> rs ! 1 = [(''step_id'', JStr ''step_2''), (''tool'', JStr ''translate''),
                     (''args'', JObj []), (''status'', JStr ''error''),
                     (''error'', JStr ''Unknown tool: translate''), (''duration_ms'', JInt 0)]
         \<and> get (rs ! 2) ''status'' = JStr ''success'')"
proof -
  note h = demo_plan_steps demo_steps_ok[folded list_all_iff] conjunct1[OF demo_sched_ok] conjunct2[OF demo_sched_ok]
  from execute_crash_isolated[OF h, of demo_env 0] obtain rs where
    ex: "execute demo_env demo_plan [0, 2, 1] 0 = (Inr rs, drain demo_env demo_steps [0, 2, 1] 0)"
    and len: "length rs = length demo_steps"
    by blast
  from ex[unfolded demo_execute] have "rs = [[(''step_id'', JStr ''step_1''), (''tool'', JStr ''weather_current''),
            (''args'', JObj [(''city'', JStr ''Pune'')]), (''status'', JStr ''error''),
            (''error'', JStr ''timed out''), (''duration_ms'', JInt 1)],
           [(''step_id'', JStr ''step_2''), (''tool'', JStr ''translate''),
            (''args'', JObj []), (''status'', JStr ''error''),
            (''error'', JStr ''Unknown tool: translate''), (''duration_ms'', JInt 0)],
           [(''step_id'', JStr ''step_3''), (''tool'', JStr ''github_search''),
            (''args'', JObj [(''query'', JStr ''isabelle'')]), (''status'', JStr ''success''),
            (''output'', demo_github), (''duration_ms'', JInt 1)]]"
    by simp
  with ex len h show ?thesis by (simp add: demo_length get_def)
qed

text \<open>
  Claim C2. For a plan of \<open>N\<close> well-formed steps \<^verbatim>\<open>execute\<close> returns exactly \<open>N\<close> results, and
  the \<open>i\<close>-th result is the one \<^verbatim>\<open>_run_step\<close> produced for the \<open>i\<close>-th step (it carries that
  step's id, tool and args), whatever the order \<open>sched\<close> in which the workers complete.
\<close>

theorem execute_one_result_per_step:
  assumes "get_default plan ''steps'' (JList []) = JList steps"
      and "list_all step_ok steps"
      and "distinct sched" and "set sched = {..<length steps}"
  shows "\<exists>rs w'. execute env plan sched w = (Inr rs, w')
           \<and> length rs = length steps
           \<and> (\<forall>i<length steps. \<exists>k<length steps. sched ! k = i
                 \<and> fst (run_step env (steps ! i) (drain env steps (take k sched) w)) = Inr (rs ! i))
           \<and> (\<forall>i<length steps. \<forall>step. steps ! i = JObj step \<longrightarrow>
                 get (rs ! i) ''step_id'' = get step ''id''
                 \<and> get (rs ! i) ''tool'' = get step ''tool''
                 \<and> get (rs ! i) ''args'' = py_or (get step ''args'') (JObj []))"
proof -
  have lens: "length sched = length steps"
    using assms(3,4) distinct_card[of sched] by simp
  have ok: "\<forall>s\<in>set steps. step_ok s"
    using assms(2) by (simp add: list_all_iff)
  from execute_results[OF assms(1) ok assms(3,4), of env w] obtain rs where
    ex: "execute env plan sched w = (Inr rs, drain env steps sched w)"
    and len: "length rs = length steps"
    and slot: "\<forall>k<length steps.
                 fst (run_step env (steps ! (sched ! k)) (drain env steps (take k sched) w))
                   = Inr (rs ! (sched ! k))"
    by blast
  have own: "\<exists>k<length steps. sched ! k = i
                 \<and> fst (run_step env (steps ! i) (drain env steps (take k sched) w)) = Inr (rs ! i)"
    if i: "i < length steps" for i
  proof -
    from i assms(4) have "i \<in> set sched" by simp
    then obtain k where k: "k < length sched" "sched ! k = i"
      by (auto simp: in_set_conv_nth)
    with slot lens show ?thesis by auto
  qed
  have fields: "get (rs ! i) ''step_id'' = get step ''id''
                 \<and> get (rs ! i) ''tool'' = get step ''tool''
                 \<and> get (rs ! i) ''args'' = py_or (get step ''args'') (JObj [])"
    if i: "i < length steps" and st: "steps ! i = JObj step" for i step
  proof -
    from own[OF i] st obtain k where
      "fst (run_step env (JObj step) (drain env steps (take k sched) w)) = Inr (rs ! i)"
      by auto
    then show ?thesis by (rule run_step_fields)
  qed
  from ex len own fields show ?thesis by blast
qed

theorem execute_one_result_per_step_witness:
  "get_default demo_plan ''steps'' (JList []) = JList demo_steps
   \<and> list_all step_ok demo_steps
   \<and> distinct [2, 1, 0::nat] \<and> set [2, 1, 0::nat] = {..<length demo_steps}
   \<and> (\<exists>rs w'. execute demo_env demo_plan [2, 1, 0] 0 = (Inr rs, w')
         \<and> length rs = 3
         \<and> get (rs ! 0) ''step_id'' = JStr ''step_1''
         \<and> get (rs ! 1) ''step_id'' = JStr ''step_2''
         \<and> get (rs ! 2) ''step_id'' = JStr ''step_3'')"
proof -
  have sch: "distinct [2, 1, 0::nat]" "set [2, 1, 0::nat] = {..<length demo_steps}"
    by (auto simp: demo_steps_def)
  note h = demo_plan_steps demo_steps_ok[folded list_all_iff] sch
  from execute_one_result_per_step[OF h, of demo_env 0] obtain rs w' where
    ex: "execute demo_env demo_plan [2, 1, 0] 0 = (Inr rs, w')"
    and len: "length rs = length demo_steps"
    and fields: "\<forall>i<length demo_steps. \<forall>step. demo_steps ! i = JObj step \<longrightarrow>
                 get (rs ! i) ''step_id'' = get step ''id''
                 \<and> get (rs ! i) ''tool'' = get step ''tool''
                 \<and> get (rs ! i) ''args'' = py_or (get step ''args'') (JObj [])"
    by blast
  have "get (rs ! 0) ''step_id'' = JStr ''step_1''"
    using fields[rule_format, of 0] by (simp add: demo_steps_def demo_step1_def get_def)
  moreover have "get (rs ! 1) ''step_id'' = JStr ''step_2''"
    using fields[rule_format, of 1] by (simp add: demo_steps_def demo_step2_def get_def)
  moreover have "get (rs ! 2) ''step_id'' = JStr ''step_3''"
    using fields[rule_format, of 2] by (simp add: demo_steps_def demo_step3_def get_def)
  ultimately show ?thesis using ex len h by (auto simp: demo_length)
qed

section \<open>Properties of \<^verbatim>\<open>retry_failed\<close>\<close>

lemma py_eq_refl: "py_eq a a"
  by (simp add: py_eq_def split: option.splits)

lemma py_eq_sym: "py_eq a b \<Longrightarrow> py_eq b a"
  by (auto simp: py_eq_def split: option.splits)

lemma py_eq_trans: "py_eq a b \<Longrightarrow> py_eq b c \<Longrightarrow> py_eq a c"
  by (auto simp: py_eq_def split: option.splits)

lemma kget_kset:
  "kget (kset m k v) k' = (if py_eq k k' then Some v else kget m k')"
proof (induction m)
  case Nil
  show ?case by simp
next
  case (Cons p m)
  obtain k0 v0 where p: "p = (k0, v0)" by (cases p)
  show ?case
  proof (cases "py_eq k0 k")
    case True
    then have "py_eq k0 k' \<longleftrightarrow> py_eq k k'"
      by (meson py_eq_sym py_eq_trans)
    with True show ?thesis by (simp add: p)
  next
    case False
    then have "py_eq k0 k' \<Longrightarrow> \<not> py_eq k k'"
      by (meson py_eq_sym py_eq_trans)
    with False Cons.IH show ?thesis by (auto simp: p)
  qed
qed

lemma find_Some_set: "List.find P xs = Some x \<Longrightarrow> x \<in> set xs \<and> P x"
  by (induction xs) (auto split: if_splits)

lemma find_snoc:
  "List.find P (xs @ [x]) = (case List.find P xs of Some y \<Rightarrow> Some y | None \<Rightarrow> if P x then Some x else None)"
  by (induction xs) auto

text \<open>The step map of a well-formed plan sends a key to the last step that has this id.\<close>

lemma build_step_map_lookup:
  assumes "\<forall>s\<in>set steps. step_wf s"
  shows "\<exists>m. build_step_map steps m0 = Inr m
           \<and> (\<forall>key. kget m key = (case List.find (has_id key) (rev steps) of
                                     Some s \<Rightarrow> Some s
                                   | None \<Rightarrow> kget m0 key))"
  using assms
proof (induction steps arbitrary: m0)
  case Nil
  show ?case by simp
next
  case (Cons s rest)
  from Cons.prems have wf: "step_wf s" and wfr: "\<forall>s\<in>set rest. step_wf s" by auto
  from wf obtain step where s: "s = JObj step" by (cases s) auto
  with wf obtain v where v: "map_of step ''id'' = Some v" and hv: "py_hashable v"
    by (auto simp: get_def)
  then have gid: "get step ''id'' = v" by (simp add: get_def)
  from Cons.IH[OF wfr, of "kset m0 v s"] obtain m where
    m: "build_step_map rest (kset m0 v s) = Inr m"
    and look: "\<forall>key. kget m key = (case List.find (has_id key) (rev rest) of
                                     Some t \<Rightarrow> Some t
                                   | None \<Rightarrow> kget (kset m0 v s) key)"
    by blast
  have "build_step_map (s # rest) m0 = Inr m"
    using s v hv m by simp
  moreover have "kget m key = (case List.find (has_id key) (rev (s # rest)) of
                                     Some t \<Rightarrow> Some t
                                   | None \<Rightarrow> kget m0 key)" for key
    using look[rule_format, of key] s gid
    by (simp add: find_snoc kget_kset split: option.splits)
  ultimately show ?case by blast
qed

lemma snd_case_cons:
  "snd (case x of (Inl e, w'') \<Rightarrow> (Inl e, w'') | (Inr rs, w'') \<Rightarrow> (Inr (f rs), w'')) = snd x"
  by (cases x) (auto split: sum.splits)

text \<open>One iteration of the loop: the result appended and the world it leaves.\<close>

lemma retry_loop_head:
  assumes m: "\<forall>key s. kget m key = Some s \<longrightarrow> step_wf s"
      and h: "py_hashable (get result ''step_id'')"
  shows "\<exists>r1 w1. (\<forall>rest. retry_loop env m (result # rest) w =
                     (case retry_loop env m rest w1 of
                        (Inl e, w'') \<Rightarrow> (Inl e, w'')
                      | (Inr rs, w'') \<Rightarrow> (Inr (r1 # rs), w'')))
           \<and> (get result ''status'' \<noteq> JStr ''error'' \<longrightarrow> r1 = result \<and> w1 = w)
           \<and> (get result ''status'' = JStr ''error'' \<longrightarrow>
                (case kget m (get result ''step_id'') of
                   None \<Rightarrow> r1 = result \<and> w1 = w
                 | Some step \<Rightarrow> run_step env step w = (Inr r1, w1)))"
proof (cases "get result ''status'' = JStr ''error''")
  case False
  then show ?thesis by simp
next
  case err: True
  show ?thesis
  proof (cases "kget m (get result ''step_id'')")
    case None
    with err h show ?thesis by simp
  next
    case (Some step)
    with m have wf: "step_wf step" by blast
    then obtain d where d: "step = JObj d" by (cases step) auto
    with wf have ne: "py_truthy step" by (cases d) auto
    from wf d have "step_ok step" by simp
    from run_step_returns[OF this, of env w]
    obtain r1 where r1: "fst (run_step env step w) = Inr r1" by blast
    define w1 where "w1 = snd (run_step env step w)"
    have rs: "run_step env step w = (Inr r1, w1)"
      using r1 by (simp add: w1_def prod_eq_iff)
    show ?thesis using err h Some ne rs by simp
  qed
qed

lemma retry_loop_pointwise:
  assumes m: "\<forall>key s. kget m key = Some s \<longrightarrow> step_wf s"
      and h: "\<forall>r\<in>set results. py_hashable (get r ''step_id'')"
  shows "\<exists>rs w'. retry_loop env m results w = (Inr rs, w')
           \<and> length rs = length results
           \<and> (\<forall>i<length results.
                (get (results ! i) ''status'' \<noteq> JStr ''error'' \<longrightarrow> rs ! i = results ! i)
              \<and> (get (results ! i) ''status'' = JStr ''error'' \<longrightarrow>
                   (case kget m (get (results ! i) ''step_id'') of
                      None \<Rightarrow> rs ! i = results ! i
                    | Some step \<Rightarrow>
                        fst (run_step env step (snd (retry_loop env m (take i results) w)))
                          = Inr (rs ! i))))"
  using h
proof (induction results arbitrary: w)
  case Nil
  show ?case by simp
next
  case (Cons result rest)
  from Cons.prems have hr: "py_hashable (get result ''step_id'')"
    and hrest: "\<forall>r\<in>set rest. py_hashable (get r ''step_id'')" by auto
  from retry_loop_head[OF m hr, of env w] obtain r1 w1 where
    unfold: "\<And>rest. retry_loop env m (result # rest) w =
                     (case retry_loop env m rest w1 of
                        (Inl e, w'') \<Rightarrow> (Inl e, w'')
                      | (Inr rs, w'') \<Rightarrow> (Inr (r1 # rs), w''))"
    and keep: "get result ''status'' \<noteq> JStr ''error'' \<longrightarrow> r1 = result \<and> w1 = w"
    and redo: "get result ''status'' = JStr ''error'' \<longrightarrow>
                (case kget m (get result ''step_id'') of
                   None \<Rightarrow> r1 = result \<and> w1 = w
                 | Some step \<Rightarrow> run_step env step w = (Inr r1, w1))"
    by blast
  from Cons.IH[OF hrest, of w1] obtain rs w' where
    run: "retry_loop env m rest w1 = (Inr rs, w')"
    and len: "length rs = length rest"
    and pt: "\<forall>i<length rest.
                (get (rest ! i) ''status'' \<noteq> JStr ''error'' \<longrightarrow> rs ! i = rest ! i)
              \<and> (get (rest ! i) ''status'' = JStr ''error'' \<longrightarrow>
                   (case kget m (get (rest ! i) ''step_id'') of
                      None \<Rightarrow> rs ! i = rest ! i
                    | Some step \<Rightarrow>
                        fst (run_step env step (snd (retry_loop env m (take i rest) w1)))
                          = Inr (rs ! i)))"
    by blast
  have eq: "retry_loop env m (result # rest) w = (Inr (r1 # rs), w')"
    using unfold[of rest] run by simp
  have world: "snd (retry_loop env m (take (Suc j) (result # rest)) w)
                 = snd (retry_loop env m (take j rest) w1)" for j
    using unfold[of "take j rest"] by (simp add: snd_case_cons)
  have "(get ((result # rest) ! i) ''status'' \<noteq> JStr ''error'' \<longrightarrow> (r1 # rs) ! i = (result # rest) ! i)
              \<and> (get ((result # rest) ! i) ''status'' = JStr ''error'' \<longrightarrow>
                   (case kget m (get ((result # rest) ! i) ''step_id'') of
                      None \<Rightarrow> (r1 # rs) ! i = (result # rest) ! i
                    | Some step \<Rightarrow>
                        fst (run_step env step (snd (retry_loop env m (take i (result # rest)) w)))
                          = Inr ((r1 # rs) ! i)))"
    if i: "i < length (result # rest)" for i
  proof (cases i)
    case 0
    then show ?thesis using keep redo by (auto split: option.splits)
  next
    case (Suc j)
    with i have j: "j < length rest" by simp
    from pt[rule_format, OF j] have "(get (rest ! j) ''status'' \<noteq> JStr ''error'' \<longrightarrow> rs ! j = rest ! j)
              \<and> (get (rest ! j) ''status'' = JStr ''error'' \<longrightarrow>
                   (case kget m (get (rest ! j) ''step_id'') of
                      None \<Rightarrow> rs ! j = rest ! j
                    | Some step \<Rightarrow>
                        fst (run_step env step (snd (retry_loop env m (take j rest) w1)))
                          = Inr (rs ! j)))" .
    then show ?thesis unfolding Suc world by (simp split: option.splits)
  qed
  with eq len show ?case by simp
qed

lemma retry_loop_no_error:
  assumes "\<forall>r\<in>set results. get r ''status'' \<noteq> JStr ''error''"
  shows "retry_loop env m results w = (Inr results, w)"
  using assms by (induction results) auto

text \<open>
  Claim C4. \<^verbatim>\<open>retry_failed\<close> maps the results pointwise, for a plan of well-formed steps and
  results whose \<^verbatim>\<open>step_id\<close> can be hashed. A result whose status is not \<^verbatim>\<open>error\<close> passes through
  unchanged; an error result whose \<^verbatim>\<open>step_id\<close> is the id of no plan step passes through
  unchanged; an error result whose \<^verbatim>\<open>step_id\<close> is the id of a plan step is replaced by what
  \<^verbatim>\<open>_run_step\<close> returns for that step (the last one with this id), run in the world the
  earlier results left behind. On a list of successes \<^verbatim>\<open>retry_failed\<close> is the identity and
  leaves the world alone.
\<close>

theorem retry_failed_pointwise:
  assumes "get_default plan ''steps'' (JList []) = JList steps"
      and "list_all step_wf steps"
      and "list_all (\<lambda>r. py_hashable (get r ''step_id'')) results"
  shows "\<exists>rs w'. retry_failed env plan results w = (Inr rs, w')
           \<and> length rs = length results
           \<and> (\<forall>i<length results.
                (get (results ! i) ''status'' \<noteq> JStr ''error'' \<longrightarrow> rs ! i = results ! i)
              \<and> (get (results ! i) ''status'' = JStr ''error'' \<longrightarrow>
                   (case List.find (has_id (get (results ! i) ''step_id'')) (rev steps) of
                      None \<Rightarrow> rs ! i = results ! i
                    | Some step \<Rightarrow>
                        fst (run_step env step (snd (retry_failed env plan (take i results) w)))
                          = Inr (rs ! i))))
           \<and> (list_all (\<lambda>r. get r ''status'' = JStr ''success'') results \<longrightarrow> rs = results \<and> w' = w)"
proof -
  have wf: "\<forall>s\<in>set steps. step_wf s" using assms(2) by (simp add: list_all_iff)
  have hs: "\<forall>r\<in>set results. py_hashable (get r ''step_id'')"
    using assms(3) by (simp add: list_all_iff)
  from build_step_map_lookup[OF wf, of "[]"] obtain m where
    m: "build_step_map steps [] = Inr m"
    and look: "\<And>key. kget m key = List.find (has_id key) (rev steps)"
    by (auto split: option.splits) (metis not_None_eq option.simps(4,5))
  have rf: "retry_failed env plan xs w = retry_loop env m xs w" for xs
    using assms(1) m by (simp add: retry_failed_def)
  have vals: "\<forall>key s. kget m key = Some s \<longrightarrow> step_wf s"
  proof (intro allI impI)
    fix key s assume "kget m key = Some s"
    then have "List.find (has_id key) (rev steps) = Some s" by (simp add: look)
    from find_Some_set[OF this] have "s \<in> set (rev steps)" by blast
    with wf show "step_wf s" by simp
  qed
  from retry_loop_pointwise[OF vals hs, of env w] obtain rs w' where
    run: "retry_loop env m results w = (Inr rs, w')"
    and len: "length rs = length results"
    and pt: "\<forall>i<length results.
                (get (results ! i) ''status'' \<noteq> JStr ''error'' \<longrightarrow> rs ! i = results ! i)
              \<and> (get (results ! i) ''status'' = JStr ''error'' \<longrightarrow>
                   (case kget m (get (results ! i) ''step_id'') of
                      None \<Rightarrow> rs ! i = results ! i
                    | Some step \<Rightarrow>
                        fst (run_step env step (snd (retry_loop env m (take i results) w)))
                          = Inr (rs ! i)))"
    by blast
  have ident: "rs = results \<and> w' = w"
    if "list_all (\<lambda>r. get r ''status'' = JStr ''success'') results"
  proof -
    from that have "\<forall>r\<in>set results. get r ''status'' \<noteq> JStr ''error''"
      by (auto simp: list_all_iff)
    from retry_loop_no_error[OF this, of env m w] run show ?thesis by simp
  qed
  from run len pt ident show ?thesis
    unfolding rf look by blast
qed

lemma demo_step_map:
  "build_step_map demo_steps [] =
     Inr [(JStr ''step_1'', demo_step1), (JStr ''step_2'', demo_step2), (JStr ''step_3'', demo_step3)]"
  by (simp add: demo_steps_def demo_step1_def demo_step2_def demo_step3_def py_eq_def)

lemma demo_results_hashable: "list_all (\<lambda>r. py_hashable (get r ''step_id'')) demo_results"
  by (simp add: demo_results_def demo_result1_def demo_result2_def demo_result3_def demo_stale_def get_def)

theorem retry_failed_pointwise_witness:
  "get_default demo_plan ''steps'' (JList []) = JList demo_steps
   \<and> list_all step_wf demo_steps
   \<and> list_all (\<lambda>r. py_hashable (get r ''step_id'')) demo_results
   \<and> (\<exists>rs w'. retry_failed demo_env demo_plan demo_results 2 = (Inr rs, w')
         \<and> length rs = 4
         \<and> get (rs ! 0) ''status'' = JStr ''success''
         \<and> rs ! 2 = demo_result3
         \<and> rs ! 3 = demo_stale)"
proof -
  note h = demo_plan_steps demo_steps_wf[folded list_all_iff] demo_results_hashable
  from retry_failed_pointwise[OF h, of demo_env 2] obtain rs w' where
    run: "retry_failed demo_env demo_plan demo_results 2 = (Inr rs, w')"
    and len: "length rs = length demo_results"
    and pt: "\<forall>i<length demo_results.
                (get (demo_results ! i) ''status'' \<noteq> JStr ''error'' \<longrightarrow> rs ! i = demo_results ! i)
              \<and> (get (demo_results ! i) ''status'' = JStr ''error'' \<longrightarrow>
                   (case List.find (has_id (get (demo_results ! i) ''step_id'')) (rev demo_steps) of
                      None \<Rightarrow> rs ! i = demo_results ! i
                    | Some step \<Rightarrow>
                        fst (run_step demo_env step (snd (retry_failed demo_env demo_plan (take i demo_results) 2)))
                          = Inr (rs ! i)))"
    by blast
  have n: "demo_results ! 0 = demo_result1" "demo_results ! 2 = demo_result3"
    "demo_results ! 3 = demo_stale" "length demo_results = 4"
    by (simp_all add: demo_results_def)
  have st: "get demo_result1 ''status'' = JStr ''error''" "get demo_result1 ''step_id'' = JStr ''step_1''"
    "get demo_result3 ''status'' = JStr ''success''"
    "get demo_stale ''status'' = JStr ''error''" "get demo_stale ''step_id'' = JStr ''step_9''"
    by (simp_all add: demo_result1_def demo_result3_def demo_stale_def get_def)
  have f1: "List.find (has_id (JStr ''step_1'')) (rev demo_steps) = Some demo_step1"
    by (simp add: demo_steps_def demo_step1_def demo_step2_def demo_step3_def py_eq_def get_def)
  have f9: "List.find (has_id (JStr ''step_9'')) (rev demo_steps) = None"
    by (simp add: demo_steps_def demo_step1_def demo_step2_def demo_step3_def py_eq_def get_def)
  have w0: "snd (retry_failed demo_env demo_plan (take 0 demo_results) 2) = 2"
    by (simp add: retry_failed_def demo_plan_steps demo_step_map)
  have r2: "rs ! 2 = demo_result3"
    using pt[rule_format, of 2] by (simp add: n st)
  have r3: "rs ! 3 = demo_stale"
    using pt[rule_format, of 3] by (simp add: n st f9)
  have "fst (run_step demo_env demo_step1 2) = Inr (rs ! 0)"
    using pt[rule_format, of 0] unfolding w0 by (simp add: n st f1)
  then have "rs ! 0 = [(''step_id'', JStr ''step_1''), (''tool'', JStr ''weather_current''),
           (''args'', JObj [(''city'', JStr ''Pune'')]), (''status'', JStr ''success''),
           (''output'', demo_weather), (''duration_ms'', JInt 1)]"
    by (simp add: demo_run_step_0')
  then have r0: "get (rs ! 0) ''status'' = JStr ''success''"
    by (simp add: get_def)
  from run len r0 r2 r3 h show ?thesis by (simp add: n)
qed

section \<open>Properties of the planner\<close>

lemma show_nat_not_Nil: "show_nat n \<noteq> []"
  by (subst show_nat.simps) simp

lemma digit_char_inj:
  assumes "a < 10" and "b < 10" and "digit_char a = digit_char b"
  shows "a = b"
proof -
  have a: "a \<in> {0, 1, 2, 3, 4, 5, 6, 7, 8, 9}" using assms(1) by auto
  have b: "b \<in> {0, 1, 2, 3, 4, 5, 6, 7, 8, 9}" using assms(2) by auto
  from a b assms(3) show ?thesis
    by (auto simp: digit_char_def)
qed

lemma show_nat_inj: "show_nat n = show_nat m \<Longrightarrow> n = m"
proof (induction n arbitrary: m rule: show_nat.induct)
  case (1 n)
  show ?case
  proof (cases "n < 10")
    case small: True
    show ?thesis
    proof (cases "m < 10")
      case True
      with small "1.prems" show ?thesis
        by (simp add: show_nat.simps[of n] show_nat.simps[of m] digit_char_inj)
    next
      case False
      with small "1.prems" show_nat_not_Nil[of "m div 10"] show ?thesis
        by (simp add: show_nat.simps[of n] show_nat.simps[of m] Cons_eq_append_conv)
    qed
  next
    case big: False
    show ?thesis
    proof (cases "m < 10")
      case True
      with big "1.prems" show_nat_not_Nil[of "n div 10"] show ?thesis
        by (simp add: show_nat.simps[of n] show_nat.simps[of m] append_eq_Cons_conv)
    next
      case False
      with big "1.prems" have eq: "show_nat (n div 10) = show_nat (m div 10)"
        and dg: "digit_char (n mod 10) = digit_char (m mod 10)"
        by (simp_all add: show_nat.simps[of n] show_nat.simps[of m])
      from "1.IH"[OF big eq] have "n div 10 = m div 10" .
      moreover from dg have "n mod 10 = m mod 10"
        by (intro digit_char_inj) simp_all
      ultimately show ?thesis by (metis div_mult_mod_eq)
    qed
  qed
qed

lemma py_or_truthy: "py_truthy b \<Longrightarrow> py_truthy (py_or a b)"
  by (simp add: py_or_def)

lemma normalize_steps_ids:
  assumes "normalize_steps env idx steps = Inr ns"
  shows "length ns = length steps
         \<and> (\<forall>i<length steps.
               step_id (ns ! i) = py_or (step_id (steps ! i)) (JStr (''step_'' @ show_nat (idx + i))))"
  using assms
proof (induction steps arbitrary: idx ns)
  case Nil
  then show ?case by simp
next
  case (Cons s rest)
  from Cons.prems obtain step where s: "s = JObj step" by (cases s) auto
  from Cons.prems obtain ns' where
    rest: "normalize_steps env (Suc idx) rest = Inr ns'"
    and ns: "ns = JObj [(''id'', py_or (get step ''id'') (JStr (''step_'' @ show_nat idx))),
                        (''tool'', get step ''tool''),
                        (''args'', py_or (get step ''args'') (JObj [])),
                        (''purpose'', py_or (get step ''purpose'') (JStr []))] # ns'"
    unfolding s by (auto simp: Let_def split: if_splits sum.splits)
  from Cons.IH[OF rest] have len: "length ns' = length rest"
    and ids: "\<forall>i<length rest.
               step_id (ns' ! i) = py_or (step_id (rest ! i)) (JStr (''step_'' @ show_nat (Suc idx + i)))"
    by auto
  have "step_id (ns ! i) = py_or (step_id ((s # rest) ! i)) (JStr (''step_'' @ show_nat (idx + i)))"
    if "i < length (s # rest)" for i
  proof (cases i)
    case 0
    then show ?thesis by (simp add: ns s get_def)
  next
    case (Suc j)
    with that ids show ?thesis by (simp add: ns)
  qed
  with len ns show ?case by simp
qed

text \<open>
  Claim C9, as the code has it. Every step of a plan that \<^verbatim>\<open>create_plan\<close> returns has a truthy
  id: the oracle's id where the oracle gives a truthy one, the default \<^verbatim>\<open>step_<1-based index>\<close>
  otherwise. The ids are pairwise distinct when the oracle gives no id at all; ids that the
  oracle does give are taken as they are.
\<close>

theorem create_plan_ids:
  assumes "create_plan env task w = (Inr plan, w')"
  shows "\<exists>p steps. planner_oracle env task w = (Inr (JObj p), w')
           \<and> get p ''steps'' = JList steps
           \<and> length (plan_ids plan) = length steps
           \<and> (\<forall>i<length steps.
                 plan_ids plan ! i = py_or (step_id (steps ! i)) (JStr (''step_'' @ show_nat (Suc i)))
                 \<and> py_truthy (plan_ids plan ! i))
           \<and> (list_all (\<lambda>s. \<not> py_truthy (step_id s)) steps \<longrightarrow> distinct (plan_ids plan))"
proof -
  from assms obtain out where
    orc: "planner_oracle env task w = (Inr out, w')" and np: "normalize_plan env out task = Inr plan"
    by (auto simp: create_plan_def split: prod.splits sum.splits)
  from np obtain p where out: "out = JObj p" by (cases out) auto
  from np obtain steps where st: "get p ''steps'' = JList steps"
    unfolding out by (cases "get p ''steps''") auto
  from np obtain ns where
    ns: "normalize_steps env 1 steps = Inr ns"
    and plan: "plan = [(''goal'', py_or (get p ''goal'') (JStr task)), (''steps'', JList ns)]"
    unfolding out using st by (auto split: if_splits sum.splits)
  have pid: "plan_ids plan = map step_id ns"
    by (simp add: plan plan_ids_def get_def)
  from normalize_steps_ids[OF ns] have len: "length ns = length steps"
    and ids: "\<forall>i<length steps.
               step_id (ns ! i) = py_or (step_id (steps ! i)) (JStr (''step_'' @ show_nat (Suc i)))"
    by auto
  have each: "plan_ids plan ! i = py_or (step_id (steps ! i)) (JStr (''step_'' @ show_nat (Suc i)))
                 \<and> py_truthy (plan_ids plan ! i)"
    if i: "i < length steps" for i
  proof -
    from i len ids have "plan_ids plan ! i
        = py_or (step_id (steps ! i)) (JStr (''step_'' @ show_nat (Suc i)))"
      by (simp add: pid)
    then show ?thesis by (simp add: py_or_truthy)
  qed
  have dist: "distinct (plan_ids plan)"
    if none: "list_all (\<lambda>s. \<not> py_truthy (step_id s)) steps"
  proof -
    have "plan_ids plan ! i = JStr (''step_'' @ show_nat (Suc i))" if i: "i < length steps" for i
    proof -
      from none i have "\<not> py_truthy (step_id (steps ! i))" by (simp add: list_all_length)
      with each[OF i] show ?thesis by (simp add: py_or_def)
    qed
    then have "plan_ids plan = map (\<lambda>i. JStr (''step_'' @ show_nat (Suc i))) [0..<length steps]"
      using len by (intro nth_equalityI) (simp_all add: pid)
    moreover have "inj_on (\<lambda>i. JStr (''step_'' @ show_nat (Suc i))) (set [0..<length steps])"
      by (rule inj_onI) (auto dest: show_nat_inj)
    ultimately show ?thesis by (simp add: distinct_map)
  qed
  from orc out st len each dist show ?thesis by (auto simp: pid py_or_truthy)
qed

theorem create_plan_ids_witness:
  "create_plan plain_env ''weather and repositories'' 0 =
     (Inr [(''goal'', JStr ''weather and repositories''),
           (''steps'', JList
              [JObj [(''id'', JStr ''step_1''), (''tool'', JStr ''weather_current''),
                     (''args'', JObj [(''city'', JStr ''Pune'')]), (''purpose'', JStr [])],
               JObj [(''id'', JStr ''step_2''), (''tool'', JStr ''github_search''),
                     (''args'', JObj [(''query'', JStr ''isabelle'')]), (''purpose'', JStr [])]])], 1)
   \<and> (\<exists>p steps. planner_oracle plain_env ''weather and repositories'' 0 = (Inr (JObj p), 1)
         \<and> get p ''steps'' = JList steps
         \<and> list_all (\<lambda>s. \<not> py_truthy (step_id s)) steps
         \<and> distinct (plan_ids [(''goal'', JStr ''weather and repositories''),
           (''steps'', JList
              [JObj [(''id'', JStr ''step_1''), (''tool'', JStr ''weather_current''),
                     (''args'', JObj [(''city'', JStr ''Pune'')]), (''purpose'', JStr [])],
               JObj [(''id'', JStr ''step_2''), (''tool'', JStr ''github_search''),
                     (''args'', JObj [(''query'', JStr ''isabelle'')]), (''purpose'', JStr [])]])]))"
proof -
  have cp: "create_plan plain_env ''weather and repositories'' 0 =
     (Inr [(''goal'', JStr ''weather and repositories''),
           (''steps'', JList
              [JObj [(''id'', JStr ''step_1''), (''tool'', JStr ''weather_current''),
                     (''args'', JObj [(''city'', JStr ''Pune'')]), (''purpose'', JStr [])],
               JObj [(''id'', JStr ''step_2''), (''tool'', JStr ''github_search''),
                     (''args'', JObj [(''query'', JStr ''isabelle'')]), (''purpose'', JStr [])]])], 1)"
    by (simp add: create_plan_def plain_env_def demo_env_def demo_oracle_plain_def get_def py_or_def
        TOOL_REGISTRY_def TOOL_NAMES_def show_nat.simps digit_char_def Let_def)
  from create_plan_ids[OF cp] obtain p steps where
    o: "planner_oracle plain_env ''weather and repositories'' 0 = (Inr (JObj p), 1)"
    and st: "get p ''steps'' = JList steps"
    and d: "list_all (\<lambda>s. \<not> py_truthy (step_id s)) steps \<longrightarrow>
            distinct (plan_ids [(''goal'', JStr ''weather and repositories''),
           (''steps'', JList
              [JObj [(''id'', JStr ''step_1''), (''tool'', JStr ''weather_current''),
                     (''args'', JObj [(''city'', JStr ''Pune'')]), (''purpose'', JStr [])],
               JObj [(''id'', JStr ''step_2''), (''tool'', JStr ''github_search''),
                     (''args'', JObj [(''query'', JStr ''isabelle'')]), (''purpose'', JStr [])]])])"
    by blast
  from o have p: "p = [(''steps'', JList
         [JObj [(''tool'', JStr ''weather_current''), (''args'', JObj [(''city'', JStr ''Pune'')])],
          JObj [(''tool'', JStr ''github_search''), (''args'', JObj [(''query'', JStr ''isabelle'')])]])]"
    by (simp add: plain_env_def demo_env_def demo_oracle_plain_def)
  with st have none: "list_all (\<lambda>s. \<not> py_truthy (step_id s)) steps"
    by (auto simp: get_def)
  with d cp o st show ?thesis by blast
qed

text \<open>Claim C9, as the specification has it, fails: the planner accepts an oracle answer in
  which two steps carry the same id and returns both ids unchanged.\<close>

theorem create_plan_duplicate_ids:
  "create_plan dup_env ''repositories'' 0 =
     (Inr [(''goal'', JStr ''repositories''),
           (''steps'', JList
              [JObj [(''id'', JStr ''search''), (''tool'', JStr ''github_search''),
                     (''args'', JObj [(''query'', JStr ''isabelle'')]), (''purpose'', JStr [])],
               JObj [(''id'', JStr ''search''), (''tool'', JStr ''github_search''),
                     (''args'', JObj [(''query'', JStr ''coq'')]), (''purpose'', JStr [])]])], 1)
   \<and> \<not> distinct (plan_ids
          [(''goal'', JStr ''repositories''),
           (''steps'', JList
              [JObj [(''id'', JStr ''search''), (''tool'', JStr ''github_search''),
                     (''args'', JObj [(''query'', JStr ''isabelle'')]), (''purpose'', JStr [])],
               JObj [(''id'', JStr ''search''), (''tool'', JStr ''github_search''),
                     (''args'', JObj [(''query'', JStr ''coq'')]), (''purpose'', JStr [])]])])"
  by (simp add: create_plan_def dup_env_def demo_env_def demo_oracle_dup_def get_def py_or_def
      TOOL_REGISTRY_def TOOL_NAMES_def plan_ids_def Let_def)

section \<open>Properties of the verifier\<close>

lemma get_setitem: "get (setitem d k v) k' = (if k' = k then v else get d k')"
  by (simp add: get_def setitem_def update_conv')

lemma verify_returns:
  assumes "verify env task plan step_results w = (Inr v, w')"
  shows "\<exists>repaired w1 compact verification.
           retry_failed env plan step_results w = (Inr repaired, w1)
           \<and> compact_step_results repaired = Inr compact
           \<and> verifier_oracle env task plan compact w1 = (Inr verification, w')
           \<and> enrich (py_repr env) plan repaired verification = Inr v"
  using assms
  by (auto simp: verify_def split: prod.splits sum.splits)

lemma enrich_returns:
  assumes "enrich rp plan repaired verification = Inr v"
  shows "\<exists>v0 sources0 repo_items weather_info allowed_sources tools.
           verification = JObj v0
           \<and> scan_results repaired [] [] None = (sources0, repo_items, weather_info)
           \<and> dedup (sources0 @ repo_urls repo_items) = Inr allowed_sources
           \<and> tools_used plan = Inr tools
           \<and> v = (if filter (\<lambda>r. get r ''status'' \<noteq> JStr ''success'') repaired \<noteq> []
                  then downgrade (overrides rp tools repaired allowed_sources repo_items weather_info v0)
                  else overrides rp tools repaired allowed_sources repo_items weather_info v0)"
proof -
  obtain sources0 repo_items weather_info where
    sc: "scan_results repaired [] [] None = (sources0, repo_items, weather_info)"
    by (cases "scan_results repaired [] [] None") auto
  from assms sc obtain allowed_sources where
    dd: "dedup (sources0 @ repo_urls repo_items) = Inr allowed_sources"
    by (cases "dedup (sources0 @ repo_urls repo_items)") (auto simp: enrich_def)
  from assms sc dd obtain tools where tu: "tools_used plan = Inr tools"
    by (cases "tools_used plan") (auto simp: enrich_def)
  from assms sc dd tu obtain v0 where vo: "verification = JObj v0"
    by (cases verification) (auto simp: enrich_def)
  from assms sc dd tu vo show ?thesis
    by (simp add: enrich_def split: if_splits)
qed

lemma overrides_limitations:
  "get (overrides rp tools repaired allowed repo_items weather_info v0) ''limitations''
     = get v0 ''limitations''"
  by (simp add: overrides_def Let_def get_setitem)

lemma downgrade_completeness: "get (downgrade v) ''completeness'' = JStr ''partial''"
  by (simp add: downgrade_def Let_def get_setitem)

lemma downgrade_limitations:
  "get (downgrade v) ''limitations'' =
     (case get v ''limitations'' of
        JList ls \<Rightarrow> JList (ls @ [JStr failed_after_retry])
      | other \<Rightarrow> JList [JStr failed_after_retry])"
  by (cases "get v ''limitations''") (simp_all add: downgrade_def Let_def get_setitem)

lemma downgrade_other:
  "k \<noteq> ''completeness'' \<Longrightarrow> k \<noteq> ''limitations'' \<Longrightarrow> get (downgrade v) k = get v k"
  by (cases "get v ''limitations''") (simp_all add: downgrade_def Let_def get_setitem)

text \<open>
  Claim C3. When \<^verbatim>\<open>verify\<close> returns and at least one result is still not a success after its
  single repair pass, the returned verification has completeness \<^verbatim>\<open>partial\<close> and its
  limitations are a list that ends with the fixed sentence: the oracle's list with the
  sentence appended, or the sentence alone when the oracle supplied no list.
\<close>

theorem verify_partial_when_missing:
  assumes "verify env task plan step_results w = (Inr v, w')"
      and "retry_failed env plan step_results w = (Inr repaired, w1)"
      and "\<exists>r\<in>set repaired. get r ''status'' \<noteq> JStr ''success''"
  shows "get v ''completeness'' = JStr ''partial''
         \<and> (\<exists>ls. get v ''limitations'' = JList ls \<and> JStr ''Some tools failed after retry; partial data returned.'' \<in> set ls)
         \<and> (\<exists>compact oracle_v.
               compact_step_results repaired = Inr compact
               \<and> verifier_oracle env task plan compact w1 = (Inr (JObj oracle_v), w')
               \<and> get v ''limitations'' =
                   (case get oracle_v ''limitations'' of
                      JList ls \<Rightarrow> JList (ls @ [JStr ''Some tools failed after retry; partial data returned.''])
                    | other \<Rightarrow> JList [JStr ''Some tools failed after retry; partial data returned.'']))"
proof -
  from verify_returns[OF assms(1)] assms(2) obtain compact verification where
    cp: "compact_step_results repaired = Inr compact"
    and orc: "verifier_oracle env task plan compact w1 = (Inr verification, w')"
    and en: "enrich (py_repr env) plan repaired verification = Inr v"
    by auto
  from assms(3) have missing: "filter (\<lambda>r. get r ''status'' \<noteq> JStr ''success'') repaired \<noteq> []"
    by (auto simp: filter_empty_conv)
  from enrich_returns[OF en] missing obtain v0 v3 where
    vo: "verification = JObj v0"
    and lim3: "get v3 ''limitations'' = get v0 ''limitations''"
    and v: "v = downgrade v3"
    using overrides_limitations by fastforce
  have c: "get v ''completeness'' = JStr ''partial''"
    by (simp add: v downgrade_completeness)
  have l: "get v ''limitations'' =
                   (case get v0 ''limitations'' of
                      JList ls \<Rightarrow> JList (ls @ [JStr ''Some tools failed after retry; partial data returned.''])
                    | other \<Rightarrow> JList [JStr ''Some tools failed after retry; partial data returned.''])"
    by (simp add: v downgrade_limitations failed_after_retry_def lim3 split: json.splits)
  then have "\<exists>ls. get v ''limitations'' = JList ls \<and> JStr ''Some tools failed after retry; partial data returned.'' \<in> set ls"
    by (cases "get v0 ''limitations''") auto
  with c l cp orc vo show ?thesis by blast
qed

theorem verify_partial_when_missing_witness:
  "\<exists>v repaired w1.
     verify demo_env ''weather and repositories'' demo_plan demo_results 5 = (Inr v, 7)
     \<and> retry_failed demo_env demo_plan demo_results 5 = (Inr repaired, w1)
     \<and> (\<exists>r\<in>set repaired. get r ''status'' \<noteq> JStr ''success'')
     \<and> get v ''completeness'' = JStr ''partial''
     \<and> get v ''limitations'' = JList [JStr ''Some tools failed after retry; partial data returned.'']
     \<and> (\<exists>compact oracle_v.
               compact_step_results repaired = Inr compact
               \<and> verifier_oracle demo_env ''weather and repositories'' demo_plan compact w1 = (Inr (JObj oracle_v), 7)
               \<and> get oracle_v ''completeness'' = JStr ''complete''
               \<and> get oracle_v ''limitations'' = JNull)"
proof -
  have a: "\<not> isl (fst (verify demo_env ''weather and repositories'' demo_plan demo_results 5))"
    by code_simp
  have b: "snd (verify demo_env ''weather and repositories'' demo_plan demo_results 5) = 7"
    by code_simp
  from a b obtain v where
    v: "verify demo_env ''weather and repositories'' demo_plan demo_results 5 = (Inr v, 7)"
    by (cases "verify demo_env ''weather and repositories'' demo_plan demo_results 5";
        cases "fst (verify demo_env ''weather and repositories'' demo_plan demo_results 5)") auto
  have c: "fst (retry_failed demo_env demo_plan demo_results 5) =
             Inr [[(''step_id'', JStr ''step_1''), (''tool'', JStr ''weather_current''),
                   (''args'', JObj [(''city'', JStr ''Pune'')]), (''status'', JStr ''success''),
                   (''output'', demo_weather), (''duration_ms'', JInt 1)],
                  demo_result2, demo_result3, demo_stale]"
    by code_simp
  have d: "snd (retry_failed demo_env demo_plan demo_results 5) = 6"
    by code_simp
  define repaired where "repaired = [[(''step_id'', JStr ''step_1''), (''tool'', JStr ''weather_current''),
                   (''args'', JObj [(''city'', JStr ''Pune'')]), (''status'', JStr ''success''),
                   (''output'', demo_weather), (''duration_ms'', JInt 1)],
                  demo_result2, demo_result3, demo_stale]"
  from c d have r: "retry_failed demo_env demo_plan demo_results 5 = (Inr repaired, 6)"
    by (simp add: repaired_def prod_eq_iff)
  have m: "\<exists>r\<in>set repaired. get r ''status'' \<noteq> JStr ''success''"
    by (simp add: repaired_def demo_result2_def get_def)
  from verify_partial_when_missing[OF v r m] obtain compact oracle_v where
    p: "get v ''completeness'' = JStr ''partial''"
    and cp: "compact_step_results repaired = Inr compact"
    and orc: "verifier_oracle demo_env ''weather and repositories'' demo_plan compact 6 = (Inr (JObj oracle_v), 7)"
    and l: "get v ''limitations'' =
                   (case get oracle_v ''limitations'' of
                      JList ls \<Rightarrow> JList (ls @ [JStr ''Some tools failed after retry; partial data returned.''])
                    | other \<Rightarrow> JList [JStr ''Some tools failed after retry; partial data returned.''])"
    by blast
  from orc have ov: "oracle_v = [(''final_answer'', JStr ''oracle prose''),
      (''data'', JObj [(''checked'', JBool True)]),
      (''completeness'', JStr ''complete'')]"
    by (simp add: demo_env_def demo_verification_def)
  then have o1: "get oracle_v ''completeness'' = JStr ''complete''"
    and o2: "get oracle_v ''limitations'' = JNull"
    by (simp_all add: get_def)
  from l o2 have "get v ''limitations'' = JList [JStr ''Some tools failed after retry; partial data returned.'']" by simp
  with v r m p cp orc o1 o2 show ?thesis by blast
qed

lemma speech_text_first:
  assumes "List.find (\<lambda>r. get r ''tool'' = JStr ''llm_generate'' \<and> get r ''status'' = JStr ''success'')
             results = Some r"
      and "get r ''output'' = JObj out"
  shows "speech_text rp results = py_strip (py_str rp (py_or (get out ''text'') (JStr [])))"
  using assms by (induction results) (auto split: if_splits)

lemma overrides_speech:
  assumes "set tools = {JStr ''llm_generate''}"
      and "speech_text rp repaired \<noteq> []"
  shows "overrides rp tools repaired allowed repo_items weather_info v0 =
           setitem
             (setitem (setitem v0 ''final_answer'' (JStr (speech_text rp repaired))) ''data''
                (JObj [(''kind'', JStr ''introduction_speech''),
                       (''word_count'', JInt (int (length (py_split (speech_text rp repaired)))))]))
             ''sources'' (JList [])"
proof -
  from assms(1) have "set tools \<inter> {JStr ''github_search'', JStr ''weather_current''} = {}"
    by simp
  with assms show ?thesis by (simp add: overrides_def Let_def)
qed

text \<open>
  Claim C6. Let the tools that the plan uses be exactly \<^verbatim>\<open>llm_generate\<close>, and let the first
  successful \<^verbatim>\<open>llm_generate\<close> result after the repair pass carry a text that is not empty once
  stripped. Then the verification that \<^verbatim>\<open>verify\<close> returns has this stripped text as its
  \<^verbatim>\<open>final_answer\<close>, the dict \<^verbatim>\<open>{kind: introduction_speech, word_count: n}\<close> as its \<^verbatim>\<open>data\<close>,
  where \<open>n\<close> counts the words of the text, and no sources, whatever the oracle answered.
\<close>

theorem verify_speech_override:
  assumes "verify env task plan step_results w = (Inr v, w')"
      and "retry_failed env plan step_results w = (Inr repaired, w1)"
      and "tools_used plan = Inr tools" and "set tools = {JStr ''llm_generate''}"
      and "List.find (\<lambda>r. get r ''tool'' = JStr ''llm_generate'' \<and> get r ''status'' = JStr ''success'')
             repaired = Some r"
      and "get r ''output'' = JObj out"
      and "py_strip (py_str (py_repr env) (py_or (get out ''text'') (JStr []))) = text"
      and "text \<noteq> []"
  shows "get v ''final_answer'' = JStr text
         \<and> get v ''data'' = JObj [(''kind'', JStr ''introduction_speech''),
                                  (''word_count'', JInt (int (length (py_split text))))]
         \<and> get v ''sources'' = JList []"
proof -
  from verify_returns[OF assms(1)] assms(2) obtain verification where
    en: "enrich (py_repr env) plan repaired verification = Inr v"
    by auto
  have sp: "speech_text (py_repr env) repaired = text"
    using speech_text_first[OF assms(5,6)] assms(7) by simp
  from enrich_returns[OF en] assms(3) obtain v0 allowed repo_items weather_info where
    v: "v = (if filter (\<lambda>r. get r ''status'' \<noteq> JStr ''success'') repaired \<noteq> []
                  then downgrade (overrides (py_repr env) tools repaired allowed repo_items weather_info v0)
                  else overrides (py_repr env) tools repaired allowed repo_items weather_info v0)"
    by auto
  have ov: "overrides (py_repr env) tools repaired allowed repo_items weather_info v0 =
           setitem
             (setitem (setitem v0 ''final_answer'' (JStr text)) ''data''
                (JObj [(''kind'', JStr ''introduction_speech''),
                       (''word_count'', JInt (int (length (py_split text))))]))
             ''sources'' (JList [])"
    using overrides_speech[OF assms(4), of "py_repr env" repaired] sp assms(8) by simp
  show ?thesis
    unfolding v ov by (simp add: downgrade_other get_setitem)
qed

theorem verify_speech_override_witness:
  "\<exists>v. verify demo_env ''intro speech'' demo_llm_plan [demo_llm_result] 1 = (Inr v, 2)
       \<and> retry_failed demo_env demo_llm_plan [demo_llm_result] 1 = (Inr [demo_llm_result], 1)
       \<and> tools_used demo_llm_plan = Inr [JStr ''llm_generate'']
       \<and> set [JStr ''llm_generate''] = {JStr ''llm_generate''}
       \<and> List.find (\<lambda>r. get r ''tool'' = JStr ''llm_generate'' \<and> get r ''status'' = JStr ''success'')
             [demo_llm_result] = Some demo_llm_result
       \<and> get demo_llm_result ''output'' = JObj [(''text'', JStr '' Hello World '')]
       \<and> py_strip (py_str (py_repr demo_env) (py_or (get [(''text'', JStr '' Hello World '')] ''text'') (JStr [])))
            = ''Hello World''
       \<and> ''Hello World'' \<noteq> []
       \<and> get v ''final_answer'' = JStr ''Hello World''
       \<and> get v ''data'' = JObj [(''kind'', JStr ''introduction_speech''), (''word_count'', JInt 2)]
       \<and> get v ''sources'' = JList []"
proof -
  have a: "\<not> isl (fst (verify demo_env ''intro speech'' demo_llm_plan [demo_llm_result] 1))"
    by code_simp
  have b: "snd (verify demo_env ''intro speech'' demo_llm_plan [demo_llm_result] 1) = 2"
    by code_simp
  from a b obtain v where
    v: "verify demo_env ''intro speech'' demo_llm_plan [demo_llm_result] 1 = (Inr v, 2)"
    by (cases "verify demo_env ''intro speech'' demo_llm_plan [demo_llm_result] 1";
        cases "fst (verify demo_env ''intro speech'' demo_llm_plan [demo_llm_result] 1)") auto
  have r: "retry_failed demo_env demo_llm_plan [demo_llm_result] 1 = (Inr [demo_llm_result], 1)"
    by code_simp
  have t: "tools_used demo_llm_plan = Inr [JStr ''llm_generate'']"
    by code_simp
  have s: "set [JStr ''llm_generate''] = {JStr ''llm_generate''}" by simp
  have f: "List.find (\<lambda>r. get r ''tool'' = JStr ''llm_generate'' \<and> get r ''status'' = JStr ''success'')
             [demo_llm_result] = Some demo_llm_result"
    by (simp add: demo_llm_result_def get_def)
  have out: "get demo_llm_result ''output'' = JObj [(''text'', JStr '' Hello World '')]"
    by (simp add: demo_llm_result_def get_def)
  have st: "py_strip (py_str (py_repr demo_env) (py_or (get [(''text'', JStr '' Hello World '')] ''text'') (JStr [])))
            = ''Hello World''"
    by code_simp
  have ne: "''Hello World'' \<noteq> []" by simp
  have wc: "int (length (py_split ''Hello World'')) = 2" by code_simp
  from verify_speech_override[OF v r t s f out st ne] wc
  have "get v ''final_answer'' = JStr ''Hello World''
       \<and> get v ''data'' = JObj [(''kind'', JStr ''introduction_speech''), (''word_count'', JInt 2)]
       \<and> get v ''sources'' = JList []"
    by simp
  with v r t s f out st ne show ?thesis by blast
qed

subsection \<open>The loops of \<^verbatim>\<open>verify\<close> against the specification's description\<close>

lemma source_urls_Cons:
  "source_urls (r # rest) =
     (case out_dict r of
        Some out \<Rightarrow> (if py_truthy (get out ''source_url'') then [get out ''source_url''] else [])
      | None \<Rightarrow> []) @ source_urls rest"
  by (simp add: source_urls_def List.map_filter_simps split: option.splits)

lemma weather_result_Cons:
  "weather_result (r # rest) =
     (case weather_result rest of
        Some info \<Rightarrow> Some info
      | None \<Rightarrow> (if get r ''tool'' = JStr ''weather_current'' then out_dict r else None))"
proof (cases "List.find (\<lambda>r. get r ''tool'' = JStr ''weather_current'' \<and> out_dict r \<noteq> None) (rev rest)")
  case None
  then show ?thesis by (auto simp: weather_result_def find_snoc)
next
  case (Some r')
  from find_Some_set[OF this] have "out_dict r' \<noteq> None" by blast
  with Some show ?thesis by (auto simp: weather_result_def find_snoc)
qed

lemma scan_results_Cons:
  "scan_results (r # rest) a b c =
     (case out_dict r of
        None \<Rightarrow> scan_results rest a b c
      | Some output \<Rightarrow>
          scan_results rest
            (if py_truthy (get output ''source_url'') then a @ [get output ''source_url''] else a)
            (b @ items_of r)
            (if get r ''tool'' = JStr ''weather_current'' then Some output else c))"
  by (simp add: out_dict_def items_of_def split: json.splits)

lemma scan_results_spec:
  "scan_results results a b c =
     (a @ source_urls results, b @ all_repo_items results,
      (case weather_result results of Some info \<Rightarrow> Some info | None \<Rightarrow> c))"
proof (induction results arbitrary: a b c)
  case Nil
  show ?case by (simp add: source_urls_def all_repo_items_def weather_result_def List.map_filter_simps)
next
  case (Cons r rest)
  show ?case
  proof (cases "out_dict r")
    case None
    then have "items_of r = []" by (simp add: items_of_def)
    with None show ?thesis
      unfolding scan_results_Cons
      by (simp add: Cons.IH source_urls_Cons weather_result_Cons all_repo_items_def
          split: option.splits)
  next
    case (Some out)
    then show ?thesis
      unfolding scan_results_Cons
      by (simp add: Cons.IH source_urls_Cons weather_result_Cons all_repo_items_def
          split: option.splits)
  qed
qed

lemma repo_bits_spec: "repo_bits rp items = map (repo_entry rp) (filter listed items)"
  by (induction items) (simp_all add: Let_def listed_def repo_entry_def)

lemma repo_parts_spec:
  "repo_parts rp items =
     (if filter listed (take 3 items) \<noteq> [] then [repo_sentence rp items] else [])"
  by (auto simp: repo_parts_def repo_bits_spec repo_sentence_def)

lemma weather_parts_spec:
  "weather_parts rp weather_info =
     (case weather_info of Some info \<Rightarrow> [weather_sentence rp info] | None \<Rightarrow> [])"
  by (auto simp: weather_parts_def weather_sentence_def weather_details_def Let_def
      split: option.splits)

lemma code_points_concat: "concat (code_points s) = s"
  by (induction s rule: code_points.induct) simp_all

lemma code_points_head:
  assumes "\<not> is_cont d"
  shows "code_points (c # d # t) = [c] # code_points (d # t)"
  using assms by simp

lemma takeWhile_snoc: "\<not> P c \<Longrightarrow> takeWhile P (cs @ [c]) = takeWhile P cs"
  by (induction cs) simp_all

lemma dropWhile_snoc: "\<not> P c \<Longrightarrow> dropWhile P (cs @ [c]) = dropWhile P cs @ [c]"
  by (induction cs) simp_all

lemma code_points_snoc:
  assumes "\<not> is_cont e"
  shows "code_points (t @ [e]) = code_points t @ [[e]]"
  using assms
proof (induction t rule: code_points.induct)
  case 1
  then show ?case by simp
next
  case (2 c cs)
  then show ?case by (simp add: takeWhile_snoc dropWhile_snoc)
qed

text \<open>A text that begins with two ASCII characters, the first of them not white space, and
  ends with an ASCII character that is not white space, is left alone by \<^verbatim>\<open>strip\<close>.\<close>

lemma py_strip_id:
  assumes "s = c # d # t" and "\<not> is_cont d" and "\<not> is_space [c]"
    and "s = u @ [e]" and "\<not> is_cont e" and "\<not> is_space [e]"
  shows "py_strip s = s"
proof -
  from assms(1,2) have hd: "code_points s = [c] # code_points (d # t)" by simp
  with assms(3) have a: "dropWhile is_space (code_points s) = code_points s" by simp
  from assms(4,5) have "code_points s = code_points u @ [[e]]" by (simp add: code_points_snoc)
  then have "rev (code_points s) = [e] # rev (code_points u)" by simp
  with assms(6) have "dropWhile is_space (rev (code_points s)) = rev (code_points s)" by simp
  with a show ?thesis by (simp add: py_strip_def code_points_concat)
qed

lemma repo_sentence_ends:
  "\<exists>t u. repo_sentence rp items = CHR ''T'' # CHR ''o'' # t \<and> repo_sentence rp items = u @ ''.''"
  by (simp add: repo_sentence_def)

lemma weather_sentence_ends:
  "\<exists>t u. weather_sentence rp info = CHR ''C'' # CHR ''u'' # t \<and> weather_sentence rp info = u @ ''.''"
proof -
  have "\<exists>u. weather_sentence rp info = u @ ''.''"
    by (cases "\<not> py_truthy (get info ''weather_summary'') \<and> get info ''temperature_c'' = JNull")
       (simp_all add: weather_sentence_def del: append_assoc add: append_assoc[symmetric])
  then show ?thesis by (simp add: weather_sentence_def)
qed

lemma join_ends:
  assumes "xs \<noteq> []"
    and "\<forall>x\<in>set xs. (\<exists>c d t. x = c # d # t \<and> \<not> is_cont d \<and> \<not> is_space [c])
                      \<and> (\<exists>u e. x = u @ [e] \<and> \<not> is_cont e \<and> \<not> is_space [e])"
  shows "(\<exists>c d t. join sep xs = c # d # t \<and> \<not> is_cont d \<and> \<not> is_space [c])
         \<and> (\<exists>u e. join sep xs = u @ [e] \<and> \<not> is_cont e \<and> \<not> is_space [e])"
  using assms
proof (induction sep xs rule: join.induct)
  case (3 sep x y ys)
  from 3 obtain c d t where x: "x = c # d # t" "\<not> is_cont d" "\<not> is_space [c]" by auto
  from 3 obtain u e where r: "join sep (y # ys) = u @ [e]" "\<not> is_cont e" "\<not> is_space [e]" by auto
  have "join sep (x # y # ys) = c # d # (t @ sep @ join sep (y # ys))" using x by simp
  moreover have "join sep (x # y # ys) = (x @ sep @ u) @ [e]" using r by simp
  ultimately show ?case using x r by blast
qed simp_all

lemma sentences_strip:
  assumes "sentences rp results \<noteq> []"
  shows "py_strip (join '' '' (sentences rp results)) = join '' '' (sentences rp results)"
proof -
  have plain: "\<not> is_cont CHR ''o''" "\<not> is_cont CHR ''u''" "\<not> is_cont CHR ''.''"
    "\<not> is_space ''T''" "\<not> is_space ''C''" "\<not> is_space ''.''"
    by (simp_all add: is_space_def white_space_def)
  have "\<forall>x\<in>set (sentences rp results).
          (\<exists>c d t. x = c # d # t \<and> \<not> is_cont d \<and> \<not> is_space [c])
          \<and> (\<exists>u e. x = u @ [e] \<and> \<not> is_cont e \<and> \<not> is_space [e])"
  proof
    fix x assume "x \<in> set (sentences rp results)"
    then consider items where "x = repo_sentence rp items" | info where "x = weather_sentence rp info"
      by (auto simp: sentences_def split: option.splits if_splits)
    then show "(\<exists>c d t. x = c # d # t \<and> \<not> is_cont d \<and> \<not> is_space [c])
          \<and> (\<exists>u e. x = u @ [e] \<and> \<not> is_cont e \<and> \<not> is_space [e])"
    proof cases
      case 1
      with repo_sentence_ends[of rp items] plain show ?thesis by blast
    next
      case 2
      with weather_sentence_ends[of rp info] plain show ?thesis by blast
    qed
  qed
  from join_ends[OF assms this] obtain c d t u e where
    "join '' '' (sentences rp results) = c # d # t" "\<not> is_cont d" "\<not> is_space [c]"
    "join '' '' (sentences rp results) = u @ [e]" "\<not> is_cont e" "\<not> is_space [e]"
    by blast
  then show ?thesis by (rule py_strip_id)
qed

lemma enrich_spec:
  assumes "enrich rp plan repaired verification = Inr v"
  shows "\<exists>v0 allowed_sources tools.
           verification = JObj v0
           \<and> dedup (source_urls repaired @ repo_urls (all_repo_items repaired)) = Inr allowed_sources
           \<and> tools_used plan = Inr tools
           \<and> v = (if filter (\<lambda>r. get r ''status'' \<noteq> JStr ''success'') repaired \<noteq> []
                  then downgrade (overrides rp tools repaired allowed_sources
                                    (all_repo_items repaired) (weather_result repaired) v0)
                  else overrides rp tools repaired allowed_sources
                         (all_repo_items repaired) (weather_result repaired) v0)"
proof -
  have sc: "scan_results repaired [] [] None
              = (source_urls repaired, all_repo_items repaired, weather_result repaired)"
    by (simp add: scan_results_spec split: option.splits)
  from enrich_returns[OF assms] obtain v0 sources0 repo_items weather_info allowed_sources tools where
    vo: "verification = JObj v0"
    and sr: "scan_results repaired [] [] None = (sources0, repo_items, weather_info)"
    and dd: "dedup (sources0 @ repo_urls repo_items) = Inr allowed_sources"
    and tu: "tools_used plan = Inr tools"
    and v: "v = (if filter (\<lambda>r. get r ''status'' \<noteq> JStr ''success'') repaired \<noteq> []
                  then downgrade (overrides rp tools repaired allowed_sources repo_items weather_info v0)
                  else overrides rp tools repaired allowed_sources repo_items weather_info v0)"
    by blast
  from sr sc have eqs: "sources0 = source_urls repaired" "repo_items = all_repo_items repaired"
    "weather_info = weather_result repaired"
    by simp_all
  from vo dd tu v show ?thesis unfolding eqs by blast
qed

lemma overrides_composed:
  assumes "set tools \<inter> {JStr ''github_search'', JStr ''weather_current''} \<noteq> {}"
  shows "overrides rp tools repaired allowed (all_repo_items repaired) (weather_result repaired) v0 =
           setitem
             (if sentences rp repaired \<noteq> []
              then setitem v0 ''final_answer'' (JStr (join '' '' (sentences rp repaired)))
              else v0)
             ''sources'' (JList allowed)"
proof -
  have "set tools \<inter> {JStr ''github_search'', JStr ''weather_current''} = {}"
    if "set tools = {JStr ''llm_generate''}"
    using that by simp
  with assms have nl: "set tools \<noteq> {JStr ''llm_generate''}" by blast
  have parts: "repo_parts rp (all_repo_items repaired) @ weather_parts rp (weather_result repaired)
                 = sentences rp repaired"
    by (simp add: repo_parts_spec weather_parts_spec sentences_def)
  have sp: "(if set tools = {JStr ''llm_generate''} then speech_text rp repaired else []) = []"
    using nl by simp
  show ?thesis
  proof (cases "sentences rp repaired = []")
    case True
    then show ?thesis
      unfolding overrides_def Let_def sp parts if_P[OF assms] by simp
  next
    case False
    from sentences_strip[OF False] False show ?thesis
      unfolding overrides_def Let_def sp parts if_P[OF assms] by simp
  qed
qed

text \<open>
  Claim C7, as the code has it. Let the tools that the plan uses include \<^verbatim>\<open>github_search\<close> or
  \<^verbatim>\<open>weather_current\<close>. The sentences of the answer are, in this order, the repository
  sentence, if one of the first three repository items has a name and a url, and the
  weather sentence, if there is a weather result. The repository sentence lists those of
  the first three items that have a name and a url, as \<open>repo_entry\<close> writes them, joined by
  \<^verbatim>\<open>"; "\<close> after \<^verbatim>\<open>"Top repositories: "\<close> and closed by a full stop; the weather sentence is
  \<open>weather_sentence\<close>. If there is a sentence, the sentences joined by a blank replace the
  oracle's \<^verbatim>\<open>final_answer\<close>; otherwise the oracle's \<^verbatim>\<open>final_answer\<close> stays. The oracle's
  \<^verbatim>\<open>data\<close> stays in both cases.
\<close>

theorem verify_composed_answer:
  assumes "verify env task plan step_results w = (Inr v, w')"
      and "retry_failed env plan step_results w = (Inr repaired, w1)"
      and "tools_used plan = Inr tools"
      and "set tools \<inter> {JStr ''github_search'', JStr ''weather_current''} \<noteq> {}"
  shows "\<exists>compact oracle_v.
           compact_step_results repaired = Inr compact
           \<and> verifier_oracle env task plan compact w1 = (Inr (JObj oracle_v), w')
           \<and> get v ''final_answer'' =
               (if sentences (py_repr env) repaired \<noteq> []
                then JStr (join '' '' (sentences (py_repr env) repaired))
                else get oracle_v ''final_answer'')
           \<and> get v ''data'' = get oracle_v ''data''"
proof -
  from verify_returns[OF assms(1)] assms(2) obtain compact verification where
    cp: "compact_step_results repaired = Inr compact"
    and orc: "verifier_oracle env task plan compact w1 = (Inr verification, w')"
    and en: "enrich (py_repr env) plan repaired verification = Inr v"
    by auto
  from enrich_spec[OF en] assms(3) obtain v0 allowed where
    vo: "verification = JObj v0"
    and v: "v = (if filter (\<lambda>r. get r ''status'' \<noteq> JStr ''success'') repaired \<noteq> []
                  then downgrade (overrides (py_repr env) tools repaired allowed
                                    (all_repo_items repaired) (weather_result repaired) v0)
                  else overrides (py_repr env) tools repaired allowed
                         (all_repo_items repaired) (weather_result repaired) v0)"
    by auto
  have "get v ''final_answer'' =
               (if sentences (py_repr env) repaired \<noteq> []
                then JStr (join '' '' (sentences (py_repr env) repaired))
                else get v0 ''final_answer'')"
    unfolding v overrides_composed[OF assms(4)]
    by (simp add: downgrade_other get_setitem)
  moreover have "get v ''data'' = get v0 ''data''"
    unfolding v overrides_composed[OF assms(4)]
    by (simp add: downgrade_other get_setitem)
  ultimately show ?thesis using cp orc vo by blast
qed

theorem verify_composed_answer_witness:
  "\<exists>v. verify demo_env ''weather and repositories'' demo_plan demo_results 5 = (Inr v, 7)
       \<and> retry_failed demo_env demo_plan demo_results 5 = (Inr demo_repaired, 6)
       \<and> tools_used demo_plan
           = Inr [JStr ''weather_current'', JStr ''translate'', JStr ''github_search'']
       \<and> set [JStr ''weather_current'', JStr ''translate'', JStr ''github_search'']
             \<inter> {JStr ''github_search'', JStr ''weather_current''} \<noteq> {}
       \<and> get v ''final_answer'' =
           JStr (''Top repositories: isabelle-prover/isabelle (https://github.com/isabelle-prover/isabelle, 100''
                 @ star @ ''); afp (https://github.com/isa-afp/afp, 50'' @ star
                 @ ''); m/mirror (https://github.com/isabelle-prover/isabelle). ''
                 @ ''Current weather in Pune, India: Clear sky, 30'' @ degree @ ''C, wind 12 kph.'')
       \<and> get v ''data'' = JObj [(''checked'', JBool True)]"
proof -
  have a: "\<not> isl (fst (verify demo_env ''weather and repositories'' demo_plan demo_results 5))"
    by code_simp
  have b: "snd (verify demo_env ''weather and repositories'' demo_plan demo_results 5) = 7"
    by code_simp
  from a b obtain v where
    v: "verify demo_env ''weather and repositories'' demo_plan demo_results 5 = (Inr v, 7)"
    by (cases "verify demo_env ''weather and repositories'' demo_plan demo_results 5";
        cases "fst (verify demo_env ''weather and repositories'' demo_plan demo_results 5)") auto
  have r: "retry_failed demo_env demo_plan demo_results 5 = (Inr demo_repaired, 6)"
    by code_simp
  have t: "tools_used demo_plan
           = Inr [JStr ''weather_current'', JStr ''translate'', JStr ''github_search'']"
    by code_simp
  have i: "set [JStr ''weather_current'', JStr ''translate'', JStr ''github_search'']
             \<inter> {JStr ''github_search'', JStr ''weather_current''} \<noteq> {}"
    by simp
  from verify_composed_answer[OF v r t i] obtain compact oracle_v where
    orc: "verifier_oracle demo_env ''weather and repositories'' demo_plan compact 6 = (Inr (JObj oracle_v), 7)"
    and fa: "get v ''final_answer'' =
               (if sentences (py_repr demo_env) demo_repaired \<noteq> []
                then JStr (join '' '' (sentences (py_repr demo_env) demo_repaired))
                else get oracle_v ''final_answer'')"
    and da: "get v ''data'' = get oracle_v ''data''"
    by blast
  have s: "join '' '' (sentences (py_repr demo_env) demo_repaired) =
             ''Top repositories: isabelle-prover/isabelle (https://github.com/isabelle-prover/isabelle, 100''
                 @ star @ ''); afp (https://github.com/isa-afp/afp, 50'' @ star
                 @ ''); m/mirror (https://github.com/isabelle-prover/isabelle). ''
                 @ ''Current weather in Pune, India: Clear sky, 30'' @ degree @ ''C, wind 12 kph.''"
    by code_simp
  have ne: "sentences (py_repr demo_env) demo_repaired \<noteq> []"
    by code_simp
  from orc have "oracle_v = [(''final_answer'', JStr ''oracle prose''),
      (''data'', JObj [(''checked'', JBool True)]),
      (''completeness'', JStr ''complete'')]"
    by (simp add: demo_env_def demo_verification_def)
  then have d: "get oracle_v ''data'' = JObj [(''checked'', JBool True)]"
    by (simp add: get_def)
  from fa s ne have "get v ''final_answer'' =
           JStr (''Top repositories: isabelle-prover/isabelle (https://github.com/isabelle-prover/isabelle, 100''
                 @ star @ ''); afp (https://github.com/isa-afp/afp, 50'' @ star
                 @ ''); m/mirror (https://github.com/isabelle-prover/isabelle). ''
                 @ ''Current weather in Pune, India: Clear sky, 30'' @ degree @ ''C, wind 12 kph.'')"
    by simp
  with v r t i da d show ?thesis by auto
qed

text \<open>Claim C7, as the specification has it, fails: a repository item exists, yet no sentence
  is composed for it, because the item has neither a name nor a url, and the oracle's answer
  stays.\<close>

theorem verify_nameless_item_keeps_oracle_answer:
  "tools_used demo_repo_plan = Inr [JStr ''github_search'']
   \<and> all_repo_items [demo_nameless_result] = [[(''stars'', JInt 5), (''language'', JStr ''Isabelle'')]]
   \<and> verify demo_env ''repositories'' demo_repo_plan [demo_nameless_result] 4 =
       (Inr [(''final_answer'', JStr ''oracle prose''),
             (''data'', JObj [(''checked'', JBool True)]),
             (''completeness'', JStr ''complete''),
             (''sources'', JList [JStr ''https://api.github.com/search/repositories?q=isabelle''])],
        5)"
  by code_simp

subsection \<open>Deduplication of the sources\<close>

lemma list_ex_py_eq_cong:
  "py_eq a b \<Longrightarrow> list_ex (\<lambda>s. py_eq s a) xs = list_ex (\<lambda>s. py_eq s b) xs"
  by (induction xs) (auto intro: py_eq_trans py_eq_sym)

lemma kset_keys:
  "map fst (kset m k v) =
     (if list_ex (\<lambda>s. py_eq s k) (map fst m) then map fst m else map fst m @ [k])"
  by (induction m) auto

lemma fromkeys_keys:
  assumes "fromkeys xs m = Inr m'"
  shows "map fst m' = map fst m @ first_seen (map fst m) xs"
  using assms
proof (induction xs arbitrary: m)
  case Nil
  then show ?case by simp
next
  case (Cons x xs)
  from Cons.prems have h: "py_hashable x" and rest: "fromkeys xs (kset m x JNull) = Inr m'"
    by (auto split: if_splits)
  from Cons.IH[OF rest] show ?case
    by (simp add: kset_keys)
qed

lemma dedup_first_seen: "dedup xs = Inr ys \<Longrightarrow> ys = first_seen [] xs"
  by (auto simp: dedup_def split: sum.splits dest: fromkeys_keys)

lemma first_seen_fresh:
  "\<forall>y\<in>set (first_seen seen xs). \<not> list_ex (\<lambda>s. py_eq s y) seen"
proof (induction xs arbitrary: seen)
  case Nil
  show ?case by simp
next
  case (Cons x xs)
  have "\<not> list_ex (\<lambda>s. py_eq s y) seen" if "y \<in> set (first_seen (seen @ [x]) xs)" for y
    using Cons.IH[of "seen @ [x]"] that by auto
  with Cons.IH[of seen] show ?case by auto
qed

lemma first_seen_distinct: "distinct (first_seen seen xs)"
proof (induction xs arbitrary: seen)
  case Nil
  show ?case by simp
next
  case (Cons x xs)
  have "x \<notin> set (first_seen (seen @ [x]) xs)"
    using first_seen_fresh[of "seen @ [x]" xs] py_eq_refl[of x] by auto
  with Cons.IH show ?case by simp
qed

lemma first_seen_subseq: "subseq (first_seen seen xs) xs"
  by (induction xs arbitrary: seen) auto

lemma first_seen_covers:
  "\<forall>x\<in>set xs. list_ex (\<lambda>s. py_eq s x) (seen @ first_seen seen xs)"
proof (induction xs arbitrary: seen)
  case Nil
  show ?case by simp
next
  case (Cons x xs)
  show ?case
  proof (cases "list_ex (\<lambda>s. py_eq s x) seen")
    case True
    with Cons.IH[of seen] show ?thesis by auto
  next
    case False
    with Cons.IH[of "seen @ [x]"] py_eq_refl[of x] show ?thesis by auto
  qed
qed

lemma overrides_sources:
  "get (overrides rp tools repaired allowed repo_items weather_info v0) ''sources'' =
     (if set tools = {JStr ''llm_generate''} \<and> speech_text rp repaired \<noteq> [] then JList []
      else JList allowed)"
  by (simp add: overrides_def Let_def get_setitem)

subsection \<open>The results that reach \<^verbatim>\<open>verify\<close> are typed\<close>

text \<open>Every result that \<^verbatim>\<open>_run_step\<close> returns is typed, when the text generation tool returns
  what \<^verbatim>\<open>generate_text\<close> returns, and carries the tool of its step.\<close>

lemma run_step_typed:
  assumes llm: "\<And>args w out w1. call_tool env ''llm_generate'' args w = (Inr out, w1) \<Longrightarrow> text_output out"
      and run: "run_step env s w = (Inr r, w')"
  shows "result_typed r"
proof (cases s)
  case (JObj step)
  show ?thesis
  proof (cases "py_hashable (get step ''tool'')")
    case False
    with run JObj show ?thesis by (simp add: run_step.simps Let_def)
  next
    case h: True
    show ?thesis
    proof (cases "registry_get env (get step ''tool'')")
      case None
      from run_step_unknown[OF h None, of w] run JObj show ?thesis
        by (auto simp: result_typed_def get_def)
    next
      case (Some tool)
      obtain res w'' where t: "tool (py_or (get step ''args'') (JObj [])) w = (res, w'')"
        by (cases "tool (py_or (get step ''args'') (JObj [])) w")
      show ?thesis
      proof (cases res)
        case (Inl exc)
        with run_step_raised[OF h Some] t run JObj show ?thesis
          by (auto simp: result_typed_def get_def)
      next
        case (Inr out)
        with run_step_success[OF h Some] t run JObj have
          r: "r = [(''step_id'', get step ''id''),
                   (''tool'', get step ''tool''),
                   (''args'', py_or (get step ''args'') (JObj [])),
                   (''status'', JStr ''success''),
                   (''output'', out),
                   (''duration_ms'', JInt (elapsed_ms env w w''))]"
          by auto
        have "text_output out" if "get step ''tool'' = JStr ''llm_generate''"
        proof -
          from that Some have "tool = call_tool env ''llm_generate''"
            by (simp add: TOOL_REGISTRY_def split: if_splits)
          with t Inr have "call_tool env ''llm_generate'' (py_or (get step ''args'') (JObj [])) w
                             = (Inr out, w'')"
            by simp
          then show ?thesis by (rule llm)
        qed
        then show ?thesis by (simp add: r result_typed_def get_def)
      qed
    qed
  qed
qed (use run in \<open>simp_all add: run_step.simps\<close>)

lemma run_step_of_plan:
  assumes "run_step env (JObj step) w = (Inr r, w')"
  shows "get r ''tool'' = get step ''tool''"
  using run_step_fields[of env step w r] assms by simp

lemma failed_result_typed:
  assumes "failed_result steps_v idx exc = Inr r"
  shows "result_typed r"
  using assms
  by (auto simp: failed_result_def result_typed_def get_def split: sum.splits json.splits)

lemma failed_result_of_plan:
  assumes "failed_result (JList steps) idx exc = Inr r"
  shows "\<exists>step. JObj step \<in> set steps \<and> get r ''tool'' = get step ''tool''"
proof -
  from assms obtain step where
    i: "idx < length steps" and s: "steps ! idx = JObj step"
    and r: "r = [(''step_id'', get step ''id''),
                 (''tool'', get step ''tool''),
                 (''args'', py_or (get step ''args'') (JObj [])),
                 (''status'', JStr ''error''),
                 (''error'', JStr (exn_str exc))]"
    by (auto simp: failed_result_def split: sum.splits json.splits if_splits)
  from i have "steps ! idx \<in> set steps" by simp
  with s have "JObj step \<in> set steps" by simp
  moreover from r have "get r ''tool'' = get step ''tool''" by (simp add: get_def)
  ultimately show ?thesis by blast
qed

lemma map_filter_id_set: "set (List.map_filter id xs) = {r. Some r \<in> set xs}"
  by (induction xs) (auto simp: List.map_filter_simps split: option.splits)

text \<open>What holds of every result of \<^verbatim>\<open>_run_step\<close> on a step of the plan, and of every result
  of the handler, holds of every result of \<^verbatim>\<open>execute\<close>.\<close>

lemma run_inline_all:
  assumes "run_inline env steps w = (Inr rs, w')"
      and "\<And>s w r w1. s \<in> set steps \<Longrightarrow> run_step env s w = (Inr r, w1) \<Longrightarrow> P r"
  shows "list_all P rs"
  using assms
proof (induction steps arbitrary: w rs)
  case Nil
  then show ?case by simp
next
  case (Cons s rest)
  from Cons.prems(1) obtain r w1 rs' where
    a: "run_step env s w = (Inr r, w1)" and b: "run_inline env rest w1 = (Inr rs', w')"
    and c: "rs = r # rs'"
    by (auto split: prod.splits sum.splits)
  have "P r" using Cons.prems(2)[of s w r w1] a by simp
  moreover have "list_all P rs'"
  proof (rule Cons.IH[OF b])
    fix s' w0 r0 w2
    assume "s' \<in> set rest" and "run_step env s' w0 = (Inr r0, w2)"
    then show "P r0" using Cons.prems(2)[of s' w0 r0 w2] by simp
  qed
  ultimately show ?case using c by simp
qed

lemma run_pool_all:
  assumes "run_pool env steps_v steps sched results w = (Inr results', w')"
      and "\<forall>r. Some r \<in> set results \<longrightarrow> P r"
      and run: "\<And>s w r w1. s \<in> set steps \<Longrightarrow> run_step env s w = (Inr r, w1) \<Longrightarrow> P r"
      and failed: "\<And>idx exc r. failed_result steps_v idx exc = Inr r \<Longrightarrow> P r"
  shows "\<forall>r. Some r \<in> set results' \<longrightarrow> P r"
  using assms(1,2)
proof (induction sched arbitrary: results w)
  case Nil
  then show ?case by simp
next
  case (Cons idx rest)
  show ?case
  proof (cases "length steps \<le> idx")
    case True
    with Cons.prems Cons.IH[of results w] show ?thesis by simp
  next
    case False
    then have mem: "steps ! idx \<in> set steps" by simp
    obtain res w1 where a: "run_step env (steps ! idx) w = (res, w1)"
      by (cases "run_step env (steps ! idx) w")
    have upd: "\<forall>r'. Some r' \<in> set (results[idx := Some r]) \<longrightarrow> P r'" if "P r" for r
      using that Cons.prems(2) set_update_subset_insert[of results idx "Some r"] by blast
    show ?thesis
    proof (cases res)
      case (Inr r)
      with a False Cons.prems(1)
      have "run_pool env steps_v steps rest (results[idx := Some r]) w1 = (Inr results', w')"
        by simp
      moreover from a Inr mem have "P r" by (intro run[of "steps ! idx" w r w1]) simp_all
      ultimately show ?thesis using Cons.IH upd by blast
    next
      case (Inl exc)
      with a False Cons.prems(1) obtain r where
        f: "failed_result steps_v idx exc = Inr r"
        and g: "run_pool env steps_v steps rest (results[idx := Some r]) w1 = (Inr results', w')"
        by (auto split: sum.splits)
      note g
      moreover from failed[OF f] have "P r" .
      ultimately show ?thesis using Cons.IH upd by blast
    qed
  qed
qed

lemma execute_all:
  assumes ex: "execute env plan sched w = (Inr rs, w')"
      and steps: "get_default plan ''steps'' (JList []) = JList steps"
      and run: "\<And>s w r w1. s \<in> set steps \<Longrightarrow> run_step env s w = (Inr r, w1) \<Longrightarrow> P r"
      and failed: "\<And>idx exc r. failed_result (JList steps) idx exc = Inr r \<Longrightarrow> P r"
  shows "list_all P rs"
proof (cases "length steps \<le> 1")
  case True
  with ex steps have "run_inline env steps w = (Inr rs, w')"
    by (simp add: execute_def Let_def)
  from run_inline_all[OF this run] show ?thesis by simp
next
  case False
  with ex steps obtain results' where
    pool: "run_pool env (JList steps) steps sched (replicate (length steps) None) w = (Inr results', w')"
    and rs: "rs = List.map_filter id results'"
    by (auto simp: execute_def Let_def split: prod.splits sum.splits)
  have "\<forall>r. Some r \<in> set (replicate (length steps) None) \<longrightarrow> P r" by simp
  from run_pool_all[OF pool this run failed] show ?thesis
    by (simp add: rs list_all_iff map_filter_id_set)
qed

text \<open>The tool of a normalised step is one of the tools that the plan uses.\<close>

lemma add_tools_member:
  assumes "add_tools steps = Inr tools" and "JObj step \<in> set steps" and "py_truthy (get step ''tool'')"
  shows "get step ''tool'' \<in> set tools"
  using assms(1,2)
proof (induction steps arbitrary: tools)
  case Nil
  then show ?case by simp
next
  case (Cons s rest)
  show ?case
  proof (cases s)
    case (JObj step')
    show ?thesis
    proof (cases "py_truthy (get step' ''tool'')")
      case True
      with Cons.prems(1) JObj obtain ts where
        rest: "add_tools rest = Inr ts" and tools: "tools = get step' ''tool'' # ts"
        by (auto split: if_splits sum.splits)
      from Cons.prems(2) JObj consider "step = step'" | "JObj step \<in> set rest" by auto
      then show ?thesis
      proof cases
        case 1
        with tools show ?thesis by simp
      next
        case 2
        from Cons.IH[OF rest 2] tools show ?thesis by simp
      qed
    next
      case False
      with Cons.prems(1) JObj have rest: "add_tools rest = Inr tools" by simp
      from Cons.prems(2) JObj False assms(3) have "JObj step \<in> set rest" by auto
      from Cons.IH[OF rest this] show ?thesis .
    qed
  qed (use Cons in \<open>auto\<close>)
qed

lemma execute_typed:
  assumes llm: "\<And>args w out w1. call_tool env ''llm_generate'' args w = (Inr out, w1) \<Longrightarrow> text_output out"
      and steps: "get_default plan ''steps'' (JList []) = JList steps"
      and ex: "execute env plan sched w = (Inr rs, w')"
  shows "list_all result_typed rs"
  by (rule execute_all[OF ex steps]) (auto intro: run_step_typed[OF llm] failed_result_typed)

lemma execute_of_plan:
  assumes steps: "get_default plan ''steps'' (JList []) = JList steps"
      and named: "list_all step_named steps"
      and tools: "tools_used plan = Inr tools"
      and ex: "execute env plan sched w = (Inr rs, w')"
  shows "list_all (of_plan tools) rs"
proof (rule execute_all[OF ex steps])
  from tools steps have at: "add_tools steps = Inr tools" by (simp add: tools_used_def)
  have member: "get step ''tool'' \<in> set tools" if "JObj step \<in> set steps" for step
  proof -
    from named that have "py_truthy (get step ''tool'')" by (auto simp: list_all_iff)
    from add_tools_member[OF at that this] show ?thesis .
  qed
  show "of_plan tools r" if "s \<in> set steps" and "run_step env s w0 = (Inr r, w1)" for s w0 r w1
  proof (cases s)
    case (JObj step)
    with that run_step_of_plan[of env step w0 r w1] member[of step] show ?thesis
      by (simp add: of_plan_def)
  qed (use that in \<open>simp_all add: run_step.simps\<close>)
  show "of_plan tools r" if "failed_result (JList steps) idx exc = Inr r" for idx exc r
    using failed_result_of_plan[OF that] member by (auto simp: of_plan_def)
qed

text \<open>The repair pass keeps both: a result is passed on or replaced by the result of running a
  step of the plan.\<close>

lemma build_step_map_range:
  assumes "build_step_map steps m0 = Inr m" and "kget m key = Some s"
  shows "s \<in> set steps \<or> kget m0 key = Some s"
  using assms
proof (induction steps arbitrary: m0)
  case Nil
  then show ?case by simp
next
  case (Cons step rest)
  from Cons.prems(1) obtain k where
    k: "subscript_id step = Inr k" and h: "py_hashable k"
    and rest: "build_step_map rest (kset m0 k step) = Inr m"
    by (auto split: sum.splits if_splits)
  from Cons.IH[OF rest Cons.prems(2)] show ?case
    by (auto simp: kget_kset split: if_splits)
qed

lemma retry_loop_all:
  assumes "retry_loop env m results w = (Inr rs, w')"
      and "list_all P results"
      and run: "\<And>key s w r w1. kget m key = Some s \<Longrightarrow> run_step env s w = (Inr r, w1) \<Longrightarrow> P r"
  shows "list_all P rs"
  using assms(1,2)
proof (induction results arbitrary: w rs)
  case Nil
  then show ?case by simp
next
  case (Cons result rest)
  from Cons.prems(2) have pr: "P result" and prest: "list_all P rest" by simp_all
  from Cons.prems(1) obtain r1 w1 rs' where
    tl: "retry_loop env m rest w1 = (Inr rs', w')" and rs: "rs = r1 # rs'"
    and hd: "r1 = result \<or> (\<exists>key s. kget m key = Some s \<and> run_step env s w = (Inr r1, w1))"
    by (auto split: if_splits option.splits prod.splits sum.splits; blast)
  from hd pr run have "P r1" by blast
  with Cons.IH[OF tl prest] rs show ?case by simp
qed

lemma retry_failed_all:
  assumes rf: "retry_failed env plan results w = (Inr rs, w')"
      and steps: "get_default plan ''steps'' (JList []) = JList steps"
      and res: "list_all P results"
      and run: "\<And>s w r w1. s \<in> set steps \<Longrightarrow> run_step env s w = (Inr r, w1) \<Longrightarrow> P r"
  shows "list_all P rs"
proof -
  from rf steps obtain m where
    m: "build_step_map steps [] = Inr m" and lp: "retry_loop env m results w = (Inr rs, w')"
    by (auto simp: retry_failed_def split: sum.splits)
  have "P r" if "kget m key = Some s" and "run_step env s w0 = (Inr r, w1)" for key s w0 r w1
    using build_step_map_range[OF m that(1)] that(2) run by auto
  from retry_loop_all[OF lp res this] show ?thesis by simp
qed

text \<open>So the list that \<^verbatim>\<open>verify\<close> repairs and enriches in a run of the orchestrator is typed
  and made of results of the plan: \<^verbatim>\<open>execute\<close> returns such a list, and the repair pass
  returns such a list for it.\<close>

lemma repaired_typed:
  assumes llm: "\<And>args w out w1. call_tool env ''llm_generate'' args w = (Inr out, w1) \<Longrightarrow> text_output out"
      and steps: "get_default plan ''steps'' (JList []) = JList steps"
      and named: "list_all step_named steps"
      and tools: "tools_used plan = Inr tools"
      and ex: "execute env plan sched w = (Inr results, w1)"
      and rf: "retry_failed env plan results w1 = (Inr repaired, w2)"
  shows "list_all result_typed repaired" and "list_all (of_plan tools) repaired"
proof -
  from tools steps have at: "add_tools steps = Inr tools" by (simp add: tools_used_def)
  show "list_all result_typed repaired"
    by (rule retry_failed_all[OF rf steps execute_typed[OF llm steps ex]])
       (auto intro: run_step_typed[OF llm])
  show "list_all (of_plan tools) repaired"
  proof (rule retry_failed_all[OF rf steps execute_of_plan[OF steps named tools ex]])
    show "of_plan tools r" if "s \<in> set steps" and "run_step env s w0 = (Inr r, w3)" for s w0 r w3
    proof (cases s)
      case (JObj step)
      from named that(1) JObj have "py_truthy (get step ''tool'')" by (auto simp: list_all_iff)
      from add_tools_member[OF at _ this] that(1) JObj have "get step ''tool'' \<in> set tools" by simp
      with that(2) JObj run_step_of_plan[of env step w0 r w3] show ?thesis
        by (simp add: of_plan_def)
    qed (use that in \<open>simp_all add: run_step.simps\<close>)
  qed
qed

lemma normalize_steps_named:
  assumes "normalize_steps env idx steps = Inr ns"
  shows "list_all step_named ns"
  using assms
proof (induction env idx steps arbitrary: ns rule: normalize_steps.induct)
  case (1 env idx)
  then show ?case by simp
next
  case (2 env idx step rest)
  then show ?case
    by (auto simp: Let_def get_def split: if_splits sum.splits)
qed simp_all

lemma create_plan_named:
  assumes "create_plan env task w = (Inr plan, w')"
  shows "\<exists>steps. get_default plan ''steps'' (JList []) = JList steps \<and> list_all step_named steps"
proof -
  from assms obtain answer where n: "normalize_plan env answer task = Inr plan"
    by (auto simp: create_plan_def split: prod.splits sum.splits)
  then obtain p steps ns where
    "answer = JObj p" and "normalize_steps env 1 steps = Inr ns"
    and "plan = [(''goal'', py_or (get p ''goal'') (JStr task)), (''steps'', JList ns)]"
    by (cases answer) (auto split: json.splits if_splits sum.splits)
  with normalize_steps_named[of env 1 steps ns] show ?thesis
    by (simp add: get_default_def)
qed

subsection \<open>The sources\<close>

lemma out_dict_failed:
  assumes "result_typed r" and "\<not> successful r"
  shows "out_dict r = None"
  using assms by (simp add: result_typed_def successful_def out_dict_def get_def)

lemma successful_source_urls_Cons:
  "successful_source_urls (r # rest) =
     (if successful r then
        (case out_dict r of
           Some out \<Rightarrow> (if py_truthy (get out ''source_url'') then [get out ''source_url''] else [])
         | None \<Rightarrow> [])
      else []) @ successful_source_urls rest"
  by (simp add: successful_source_urls_def List.map_filter_simps split: option.splits)

text \<open>On typed results the loop, which does not read the status, collects the sources of the
  successful outputs.\<close>

lemma source_urls_typed:
  assumes "list_all result_typed results"
  shows "source_urls results = successful_source_urls results"
  using assms
proof (induction results)
  case Nil
  show ?case by (simp add: source_urls_def successful_source_urls_def List.map_filter_simps)
next
  case (Cons r rest)
  then have t: "result_typed r" and IH: "source_urls rest = successful_source_urls rest" by simp_all
  show ?case
  proof (cases "successful r")
    case True
    then show ?thesis by (simp add: source_urls_Cons successful_source_urls_Cons IH)
  next
    case False
    from out_dict_failed[OF t False] False show ?thesis
      by (simp add: source_urls_Cons successful_source_urls_Cons IH)
  qed
qed

text \<open>The results of a plan that only generates text name no source and hold no repository
  item.\<close>

lemma text_output_source:
  assumes "text_output (get r ''output'')" and "out_dict r = Some out"
  shows "get out ''source_url'' = JNull"
proof -
  from assms(2) have o: "get r ''output'' = JObj out"
    by (simp add: out_dict_def split: json.splits)
  from assms(1) obtain k t where "out = [(k, JStr t)]" and "k = ''text''"
    unfolding o text_output_def
    by (auto split: list.splits prod.splits json.splits)
  then show ?thesis by (simp add: get_def)
qed

lemma llm_only_sources:
  assumes "list_all result_typed results"
      and "list_all (\<lambda>r. get r ''tool'' = JStr ''llm_generate'') results"
  shows "source_urls results = [] \<and> all_repo_items results = []"
  using assms
proof (induction results)
  case Nil
  show ?case by (simp add: source_urls_def all_repo_items_def List.map_filter_simps)
next
  case (Cons r rest)
  then have t: "result_typed r" and l: "get r ''tool'' = JStr ''llm_generate''"
    and IH: "source_urls rest = []" "all_repo_items rest = []"
    by simp_all
  have items: "items_of r = []" using l by (simp add: items_of_def split: option.splits)
  have "(case out_dict r of
           Some out \<Rightarrow> (if py_truthy (get out ''source_url'') then [get out ''source_url''] else [])
         | None \<Rightarrow> []) = []"
  proof (cases "out_dict r")
    case None
    then show ?thesis by simp
  next
    case (Some out)
    with out_dict_failed[OF t] have "successful r" by auto
    with t l have "text_output (get r ''output'')"
      by (simp add: result_typed_def successful_def)
    from text_output_source[OF this Some] Some show ?thesis by simp
  qed
  with items IH show ?case by (simp add: source_urls_Cons all_repo_items_def)
qed

text \<open>
  Claim C8. Let the repaired results be typed StepResults of the plan's steps, as they are in
  every run of the orchestrator (\<open>repaired_typed\<close>, \<open>create_plan_named\<close>). The sources of the
  returned verification are the \<^verbatim>\<open>source_url\<close> of every successful output, in the order of the
  results, followed by the url of every item that a \<^verbatim>\<open>github_search\<close> step returned, with
  every value dropped that was seen before. So the list has no duplicates, keeps the order of
  the first occurrences and represents every collected value. (For a plan that only generates
  text the list is empty, which is also what the text generation override attaches.)
\<close>

theorem verify_sources:
  assumes "verify env task plan step_results w = (Inr v, w')"
      and "retry_failed env plan step_results w = (Inr repaired, w1)"
      and "tools_used plan = Inr tools"
      and "list_all result_typed repaired"
      and "list_all (of_plan tools) repaired"
  shows "get v ''sources'' =
           JList (first_seen [] (successful_source_urls repaired @ repo_urls (all_repo_items repaired)))
         \<and> distinct (first_seen [] (successful_source_urls repaired @ repo_urls (all_repo_items repaired)))
         \<and> subseq (first_seen [] (successful_source_urls repaired @ repo_urls (all_repo_items repaired)))
                  (successful_source_urls repaired @ repo_urls (all_repo_items repaired))
         \<and> (\<forall>x\<in>set (successful_source_urls repaired @ repo_urls (all_repo_items repaired)).
               list_ex (\<lambda>s. py_eq s x)
                 (first_seen [] (successful_source_urls repaired @ repo_urls (all_repo_items repaired))))"
proof -
  from verify_returns[OF assms(1)] assms(2) obtain verification where
    en: "enrich (py_repr env) plan repaired verification = Inr v"
    by auto
  from enrich_spec[OF en] assms(3) obtain v0 allowed where
    dd: "dedup (source_urls repaired @ repo_urls (all_repo_items repaired)) = Inr allowed"
    and v: "v = (if filter (\<lambda>r. get r ''status'' \<noteq> JStr ''success'') repaired \<noteq> []
                  then downgrade (overrides (py_repr env) tools repaired allowed
                                    (all_repo_items repaired) (weather_result repaired) v0)
                  else overrides (py_repr env) tools repaired allowed
                         (all_repo_items repaired) (weather_result repaired) v0)"
    by auto
  note su = source_urls_typed[OF assms(4)]
  from dedup_first_seen[OF dd]
  have al: "allowed = first_seen [] (successful_source_urls repaired @ repo_urls (all_repo_items repaired))"
    by (simp add: su)
  have src: "get v ''sources'' =
           (if set tools = {JStr ''llm_generate''} \<and> speech_text (py_repr env) repaired \<noteq> []
            then JList [] else JList allowed)"
    unfolding v by (simp add: downgrade_other overrides_sources)
  have "allowed = []" if only: "set tools = {JStr ''llm_generate''}"
  proof -
    from assms(5) only have "list_all (\<lambda>r. get r ''tool'' = JStr ''llm_generate'') repaired"
      by (simp add: of_plan_def list_all_iff)
    from llm_only_sources[OF assms(4) this] su al show ?thesis
      by (simp add: repo_urls_def)
  qed
  with src have "get v ''sources'' = JList allowed" by auto
  then show ?thesis
    using first_seen_distinct[of "[]"] first_seen_subseq[of "[]"] first_seen_covers[of _ "[]"]
    unfolding al by simp
qed

theorem verify_sources_witness:
  "(\<exists>v. verify demo_env ''weather and repositories'' demo_plan demo_results 5 = (Inr v, 7)
       \<and> retry_failed demo_env demo_plan demo_results 5 = (Inr demo_repaired, 6)
       \<and> tools_used demo_plan
           = Inr [JStr ''weather_current'', JStr ''translate'', JStr ''github_search'']
       \<and> list_all result_typed demo_repaired
       \<and> list_all (of_plan [JStr ''weather_current'', JStr ''translate'', JStr ''github_search''])
           demo_repaired
       \<and> successful_source_urls demo_repaired @ repo_urls (all_repo_items demo_repaired) =
           [JStr ''https://api.open-meteo.com/v1/forecast'',
            JStr ''https://api.github.com/search/repositories?q=isabelle'',
            JStr ''https://github.com/isabelle-prover/isabelle'',
            JStr ''https://github.com/isa-afp/afp'',
            JStr ''https://github.com/isabelle-prover/isabelle'']
       \<and> get v ''sources'' =
           JList [JStr ''https://api.open-meteo.com/v1/forecast'',
                  JStr ''https://api.github.com/search/repositories?q=isabelle'',
                  JStr ''https://github.com/isabelle-prover/isabelle'',
                  JStr ''https://github.com/isa-afp/afp''])
   \<and> (\<exists>v. verify demo_env ''intro speech'' demo_llm_plan [demo_llm_result] 4 = (Inr v, 5)
       \<and> retry_failed demo_env demo_llm_plan [demo_llm_result] 4 = (Inr [demo_llm_result], 4)
       \<and> tools_used demo_llm_plan = Inr [JStr ''llm_generate'']
       \<and> list_all result_typed [demo_llm_result]
       \<and> list_all (of_plan [JStr ''llm_generate'']) [demo_llm_result]
       \<and> get v ''final_answer'' = JStr ''Hello World''
       \<and> get v ''sources'' = JList [])"
proof -
  have a: "\<not> isl (fst (verify demo_env ''weather and repositories'' demo_plan demo_results 5))"
    by code_simp
  have b: "snd (verify demo_env ''weather and repositories'' demo_plan demo_results 5) = 7"
    by code_simp
  from a b obtain v where
    v: "verify demo_env ''weather and repositories'' demo_plan demo_results 5 = (Inr v, 7)"
    by (cases "verify demo_env ''weather and repositories'' demo_plan demo_results 5";
        cases "fst (verify demo_env ''weather and repositories'' demo_plan demo_results 5)") auto
  have r: "retry_failed demo_env demo_plan demo_results 5 = (Inr demo_repaired, 6)"
    by code_simp
  have t: "tools_used demo_plan
           = Inr [JStr ''weather_current'', JStr ''translate'', JStr ''github_search'']"
    by code_simp
  have ty: "list_all result_typed demo_repaired"
    by code_simp
  have op: "list_all (of_plan [JStr ''weather_current'', JStr ''translate'', JStr ''github_search''])
              demo_repaired"
    by code_simp
  have c: "successful_source_urls demo_repaired @ repo_urls (all_repo_items demo_repaired) =
           [JStr ''https://api.open-meteo.com/v1/forecast'',
            JStr ''https://api.github.com/search/repositories?q=isabelle'',
            JStr ''https://github.com/isabelle-prover/isabelle'',
            JStr ''https://github.com/isa-afp/afp'',
            JStr ''https://github.com/isabelle-prover/isabelle'']"
    by code_simp
  have f: "first_seen [] (successful_source_urls demo_repaired @ repo_urls (all_repo_items demo_repaired)) =
             [JStr ''https://api.open-meteo.com/v1/forecast'',
              JStr ''https://api.github.com/search/repositories?q=isabelle'',
              JStr ''https://github.com/isabelle-prover/isabelle'',
              JStr ''https://github.com/isa-afp/afp'']"
    by code_simp
  from verify_sources[OF v r t ty op]
  have "get v ''sources'' =
          JList (first_seen [] (successful_source_urls demo_repaired
                                @ repo_urls (all_repo_items demo_repaired)))"
    by simp
  with f have "get v ''sources'' =
           JList [JStr ''https://api.open-meteo.com/v1/forecast'',
                  JStr ''https://api.github.com/search/repositories?q=isabelle'',
                  JStr ''https://github.com/isabelle-prover/isabelle'',
                  JStr ''https://github.com/isa-afp/afp'']"
    by simp
  with v r t ty op c have first:
    "\<exists>v. verify demo_env ''weather and repositories'' demo_plan demo_results 5 = (Inr v, 7)
       \<and> retry_failed demo_env demo_plan demo_results 5 = (Inr demo_repaired, 6)
       \<and> tools_used demo_plan
           = Inr [JStr ''weather_current'', JStr ''translate'', JStr ''github_search'']
       \<and> list_all result_typed demo_repaired
       \<and> list_all (of_plan [JStr ''weather_current'', JStr ''translate'', JStr ''github_search''])
           demo_repaired
       \<and> successful_source_urls demo_repaired @ repo_urls (all_repo_items demo_repaired) =
           [JStr ''https://api.open-meteo.com/v1/forecast'',
            JStr ''https://api.github.com/search/repositories?q=isabelle'',
            JStr ''https://github.com/isabelle-prover/isabelle'',
            JStr ''https://github.com/isa-afp/afp'',
            JStr ''https://github.com/isabelle-prover/isabelle'']
       \<and> get v ''sources'' =
           JList [JStr ''https://api.open-meteo.com/v1/forecast'',
                  JStr ''https://api.github.com/search/repositories?q=isabelle'',
                  JStr ''https://github.com/isabelle-prover/isabelle'',
                  JStr ''https://github.com/isa-afp/afp'']"
    by blast
  have a2: "\<not> isl (fst (verify demo_env ''intro speech'' demo_llm_plan [demo_llm_result] 4))"
    by code_simp
  have b2: "snd (verify demo_env ''intro speech'' demo_llm_plan [demo_llm_result] 4) = 5"
    by code_simp
  from a2 b2 obtain u where
    u: "verify demo_env ''intro speech'' demo_llm_plan [demo_llm_result] 4 = (Inr u, 5)"
    by (cases "verify demo_env ''intro speech'' demo_llm_plan [demo_llm_result] 4";
        cases "fst (verify demo_env ''intro speech'' demo_llm_plan [demo_llm_result] 4)") auto
  have r2: "retry_failed demo_env demo_llm_plan [demo_llm_result] 4 = (Inr [demo_llm_result], 4)"
    by code_simp
  have t2: "tools_used demo_llm_plan = Inr [JStr ''llm_generate'']"
    by code_simp
  have ty2: "list_all result_typed [demo_llm_result]"
    by code_simp
  have op2: "list_all (of_plan [JStr ''llm_generate'']) [demo_llm_result]"
    by code_simp
  have f2: "first_seen [] (successful_source_urls [demo_llm_result]
                           @ repo_urls (all_repo_items [demo_llm_result])) = []"
    by code_simp
  have fa: "get (projr (fst (verify demo_env ''intro speech'' demo_llm_plan [demo_llm_result] 4)))
              ''final_answer'' = JStr ''Hello World''"
    by code_simp
  with u have fa2: "get u ''final_answer'' = JStr ''Hello World''" by simp
  from verify_sources[OF u r2 t2 ty2 op2] f2 have "get u ''sources'' = JList []" by simp
  with u r2 t2 ty2 op2 fa2 have second:
    "\<exists>v. verify demo_env ''intro speech'' demo_llm_plan [demo_llm_result] 4 = (Inr v, 5)
       \<and> retry_failed demo_env demo_llm_plan [demo_llm_result] 4 = (Inr [demo_llm_result], 4)
       \<and> tools_used demo_llm_plan = Inr [JStr ''llm_generate'']
       \<and> list_all result_typed [demo_llm_result]
       \<and> list_all (of_plan [JStr ''llm_generate'']) [demo_llm_result]
       \<and> get v ''final_answer'' = JStr ''Hello World''
       \<and> get v ''sources'' = JList []"
    by blast
  from first second show ?thesis by (rule conjI)
qed

text \<open>The typing is needed. A text generation result that named a page, which
  \<^verbatim>\<open>generate_text\<close> never returns, would lose it to the text generation override.\<close>

lemma verify_untyped_result:
  "\<not> result_typed demo_cited_result
   \<and> successful_source_urls [demo_cited_result] = [JStr ''https://example.org/speech'']
   \<and> verify demo_env ''intro speech'' demo_llm_plan [demo_cited_result] 4 =
       (Inr [(''final_answer'', JStr ''Hello World''),
             (''data'', JObj [(''kind'', JStr ''introduction_speech''), (''word_count'', JInt 2)]),
             (''completeness'', JStr ''complete''),
             (''sources'', JList [])],
        5)"
  by code_simp

section \<open>Properties of the orchestrator\<close>

subsection \<open>The recording environment runs the same program\<close>

lemma registry_get_recording:
  "registry_get (recording env) v =
     map_option (\<lambda>tool. (\<lambda>args (w, l). case tool args w of (r, w') \<Rightarrow> (r, (w', l))))
       (registry_get env v)"
  by (cases v) (auto simp: TOOL_REGISTRY_def recording_def)

lemma run_step_recording:
  "run_step (recording env) s (w, l) = (fst (run_step env s w), (snd (run_step env s w), l))"
proof (cases s)
  case (JObj step)
  show ?thesis
    unfolding JObj
    by (simp add: run_step.simps Let_def registry_get_recording
          split: option.splits prod.splits sum.splits)
       (simp add: recording_def)
qed (simp_all add: run_step.simps)

lemma drain_recording:
  "drain (recording env) steps sched (w, l) = (drain env steps sched w, l)"
  by (induction sched arbitrary: w) (simp_all add: run_step_recording)

lemma run_inline_recording:
  "run_inline (recording env) steps (w, l) =
     (fst (run_inline env steps w), (snd (run_inline env steps w), l))"
  by (induction steps arbitrary: w)
     (simp_all add: run_step_recording split: prod.splits sum.splits)

lemma run_pool_recording:
  "run_pool (recording env) steps_v steps sched results (w, l) =
     (fst (run_pool env steps_v steps sched results w),
      (snd (run_pool env steps_v steps sched results w), l))"
  by (induction sched arbitrary: results w)
     (simp_all add: run_step_recording drain_recording split: prod.splits sum.splits)

lemma execute_recording:
  "execute (recording env) plan sched (w, l) =
     (fst (execute env plan sched w), (snd (execute env plan sched w), l))"
  by (simp add: execute_def Let_def run_inline_recording run_pool_recording
      split: prod.splits sum.splits)

lemma retry_loop_recording:
  "retry_loop (recording env) m results (w, l) =
     (fst (retry_loop env m results w), (snd (retry_loop env m results w), l))"
proof (induction results arbitrary: w)
  case Nil
  show ?case by simp
next
  case (Cons result rest)
  obtain r1 w1 where a: "retry_loop env m rest w = (r1, w1)"
    by (cases "retry_loop env m rest w")
  then have a': "retry_loop (recording env) m rest (w, l) = (r1, (w1, l))"
    by (simp add: Cons.IH)
  show ?case
  proof (cases "get result ''status'' = JStr ''error'' \<and> py_hashable (get result ''step_id'')
                \<and> (\<exists>step. kget m (get result ''step_id'') = Some step \<and> py_truthy step)")
    case False
    then show ?thesis
      using a a' by (cases r1) (auto split: option.splits)
  next
    case True
    then obtain step where st: "kget m (get result ''step_id'') = Some step" "py_truthy step"
      and err: "get result ''status'' = JStr ''error''" "py_hashable (get result ''step_id'')"
      by blast
    obtain r2 w2 where b: "run_step env step w = (r2, w2)"
      by (cases "run_step env step w")
    then have b': "run_step (recording env) step (w, l) = (r2, (w2, l))"
      by (simp add: run_step_recording)
    obtain r3 w3 where c: "retry_loop env m rest w2 = (r3, w3)"
      by (cases "retry_loop env m rest w2")
    then have c': "retry_loop (recording env) m rest (w2, l) = (r3, (w3, l))"
      by (simp add: Cons.IH)
    show ?thesis
      using st err b b' c c' by (cases r2; cases r3) simp_all
  qed
qed

lemma retry_failed_recording:
  "retry_failed (recording env) plan results (w, l) =
     (fst (retry_failed env plan results w), (snd (retry_failed env plan results w), l))"
  by (simp add: retry_failed_def retry_loop_recording split: sum.splits)

lemma py_repr_recording: "py_repr (recording env) = py_repr env"
  by (simp add: recording_def)

lemma normalize_steps_recording:
  "normalize_steps (recording env) idx steps = normalize_steps env idx steps"
proof (induction steps arbitrary: idx)
  case Nil
  show ?case by simp
next
  case (Cons s rest)
  show ?case
    by (cases s) (simp_all add: Let_def Cons.IH py_repr_recording registry_get_recording)
qed

lemma normalize_plan_recording:
  "normalize_plan (recording env) out task = normalize_plan env out task"
  by (cases out) (simp_all add: normalize_steps_recording split: json.splits)

lemma create_plan_recording:
  "create_plan (recording env) task (w, l) =
     (fst (create_plan env task w), (snd (create_plan env task w), l @ [PlannerCall task]))"
  by (simp add: create_plan_def normalize_plan_recording split: prod.splits sum.splits)
     (simp add: recording_def)

text \<open>\<^verbatim>\<open>verify\<close> calls the verifier's oracle once, with its own task argument, unless the repair
  pass or the compaction raises before.\<close>

lemma verify_recording:
  "\<exists>evs. verify (recording env) task plan results (w, l) =
           (fst (verify env task plan results w), (snd (verify env task plan results w), l @ evs))
         \<and> (evs = [] \<or> evs = [VerifierCall task])"
proof -
  obtain r1 w1 where rf: "retry_failed env plan results w = (r1, w1)"
    by (cases "retry_failed env plan results w")
  show ?thesis
  proof (cases r1)
    case (Inl e)
    with rf show ?thesis by (simp add: verify_def retry_failed_recording)
  next
    case (Inr repaired)
    show ?thesis
    proof (cases "compact_step_results repaired")
      case (Inl e)
      with rf Inr show ?thesis by (simp add: verify_def retry_failed_recording)
    next
      case c: (Inr compact)
      obtain r2 w2 where orc: "verifier_oracle env task plan compact w1 = (r2, w2)"
        by (cases "verifier_oracle env task plan compact w1")
      then have orc': "verifier_oracle (recording env) task plan compact (w1, l)
                         = (r2, (w2, l @ [VerifierCall task]))"
        by (simp add: recording_def)
      show ?thesis
        using rf Inr c orc orc'
        by (cases r2) (simp_all add: verify_def retry_failed_recording py_repr_recording)
    qed
  qed
qed

subsection \<open>The durations that \<^verbatim>\<open>execute\<close> writes can be summed\<close>

lemma run_step_duration:
  assumes "run_step env s w = (Inr r, w')"
  shows "\<exists>i. get_default r ''duration_ms'' (JInt 0) = JInt i"
proof (cases s)
  case (JObj step)
  show ?thesis
  proof (cases "py_hashable (get step ''tool'')")
    case False
    with assms JObj show ?thesis by (simp add: run_step.simps Let_def)
  next
    case h: True
    show ?thesis
    proof (cases "registry_get env (get step ''tool'')")
      case None
      from run_step_unknown[OF h None, of w] assms JObj show ?thesis
        by (auto simp: get_default_def)
    next
      case (Some tool)
      obtain res w'' where t: "tool (py_or (get step ''args'') (JObj [])) w = (res, w'')"
        by (cases "tool (py_or (get step ''args'') (JObj [])) w")
      show ?thesis
      proof (cases res)
        case (Inl exc)
        with run_step_raised[OF h Some] t assms JObj show ?thesis
          by (auto simp: get_default_def)
      next
        case (Inr out)
        with run_step_success[OF h Some] t assms JObj show ?thesis
          by (auto simp: get_default_def)
      qed
    qed
  qed
qed (use assms in \<open>simp_all add: run_step.simps\<close>)

lemma failed_result_duration:
  assumes "failed_result steps_v idx exc = Inr r"
  shows "get_default r ''duration_ms'' (JInt 0) = JInt 0"
  using assms
  by (auto simp: failed_result_def get_default_def split: sum.splits json.splits)

lemma run_inline_duration:
  assumes "run_inline env steps w = (Inr rs, w')"
  shows "\<forall>r\<in>set rs. \<exists>i. get_default r ''duration_ms'' (JInt 0) = JInt i"
  using assms
proof (induction steps arbitrary: w rs)
  case Nil
  then show ?case by simp
next
  case (Cons s rest)
  from Cons.prems obtain r w1 rs' where
    a: "run_step env s w = (Inr r, w1)" and b: "run_inline env rest w1 = (Inr rs', w')"
    and c: "rs = r # rs'"
    by (auto split: prod.splits sum.splits)
  from run_step_duration[OF a] Cons.IH[OF b] c show ?case by simp
qed

lemma run_pool_duration:
  assumes "run_pool env steps_v steps sched results w = (Inr results', w')"
      and "\<forall>r. Some r \<in> set results \<longrightarrow> (\<exists>i. get_default r ''duration_ms'' (JInt 0) = JInt i)"
  shows "\<forall>r. Some r \<in> set results' \<longrightarrow> (\<exists>i. get_default r ''duration_ms'' (JInt 0) = JInt i)"
  using assms
proof (induction sched arbitrary: results w)
  case Nil
  then show ?case by simp
next
  case (Cons idx rest)
  show ?case
  proof (cases "length steps \<le> idx")
    case True
    with Cons.prems Cons.IH[of results w] show ?thesis by simp
  next
    case False
    obtain res w1 where a: "run_step env (steps ! idx) w = (res, w1)"
      by (cases "run_step env (steps ! idx) w")
    have upd: "\<forall>r'. Some r' \<in> set (results[idx := Some r])
                 \<longrightarrow> (\<exists>i. get_default r' ''duration_ms'' (JInt 0) = JInt i)"
      if "\<exists>i. get_default r ''duration_ms'' (JInt 0) = JInt i" for r
      using that Cons.prems(2) set_update_subset_insert[of results idx "Some r"] by blast
    show ?thesis
    proof (cases res)
      case (Inr r)
      with a False Cons.prems(1)
      have "run_pool env steps_v steps rest (results[idx := Some r]) w1 = (Inr results', w')"
        by simp
      moreover from a Inr have "\<exists>i. get_default r ''duration_ms'' (JInt 0) = JInt i"
        by (intro run_step_duration[of env "steps ! idx" w r w1]) simp
      ultimately show ?thesis using Cons.IH upd by blast
    next
      case (Inl exc)
      with a False Cons.prems(1) obtain r where
        f: "failed_result steps_v idx exc = Inr r"
        and g: "run_pool env steps_v steps rest (results[idx := Some r]) w1 = (Inr results', w')"
        by (auto split: sum.splits)
      note g
      moreover from failed_result_duration[OF f]
      have "\<exists>i. get_default r ''duration_ms'' (JInt 0) = JInt i" by blast
      ultimately show ?thesis using Cons.IH upd by blast
    qed
  qed
qed

lemma execute_durations:
  assumes "execute env plan sched w = (Inr rs, w')"
  shows "\<forall>r\<in>set rs. \<exists>i. get_default r ''duration_ms'' (JInt 0) = JInt i"
proof -
  from assms obtain n steps where
    n: "py_len (get_default plan ''steps'' (JList [])) = Inr n"
    and it: "py_iter (get_default plan ''steps'' (JList [])) = Inr steps"
    by (auto simp: execute_def Let_def split: sum.splits)
  show ?thesis
  proof (cases "n \<le> 1")
    case True
    with assms n it have "run_inline env steps w = (Inr rs, w')"
      by (simp add: execute_def Let_def)
    then show ?thesis by (rule run_inline_duration)
  next
    case False
    with assms n it obtain results' where
      run: "run_pool env (get_default plan ''steps'' (JList [])) steps sched (replicate n None) w
              = (Inr results', w')"
      and rs: "rs = List.map_filter id results'"
      by (auto simp: execute_def Let_def split: prod.splits sum.splits)
    have "\<forall>r. Some r \<in> set (replicate n None)
            \<longrightarrow> (\<exists>i. get_default r ''duration_ms'' (JInt 0) = JInt i)"
      by simp
    from run_pool_duration[OF run this] show ?thesis
      by (simp add: rs map_filter_id_set)
  qed
qed

lemma sum_durations_returns:
  assumes "\<forall>r\<in>set rs. \<exists>i. get_default r ''duration_ms'' (JInt 0) = JInt i"
  shows "\<exists>t. sum_durations rs = Inr t"
  using assms by (induction rs) auto

lemma execute_sum_durations:
  assumes "execute env plan sched w = (Inr rs, w')"
  shows "\<exists>t. sum_durations rs = Inr t"
  using execute_durations[OF assms] by (rule sum_durations_returns)

subsection \<open>The oracle calls of one run\<close>

lemma verify_recording_returns:
  assumes "verify env task plan results w = (Inr v, w')"
  shows "verify (recording env) task plan results (w, l) = (Inr v, (w', l @ [VerifierCall task]))"
proof -
  from verify_returns[OF assms] obtain repaired w1 compact verification where
    rf: "retry_failed env plan results w = (Inr repaired, w1)"
    and cp: "compact_step_results repaired = Inr compact"
    and orc: "verifier_oracle env task plan compact w1 = (Inr verification, w')"
    and en: "enrich (py_repr env) plan repaired verification = Inr v"
    by blast
  from orc have "verifier_oracle (recording env) task plan compact (w1, l)
                   = (Inr verification, (w', l @ [VerifierCall task]))"
    by (simp add: recording_def)
  with rf cp en show ?thesis
    by (simp add: verify_def retry_failed_recording py_repr_recording)
qed

text \<open>Whatever happens, a run calls the planner's oracle at most twice, and every call of the
  verifier's oracle carries the task of the request.\<close>

lemma run_task_body_recording:
  "\<exists>evs. run_task_body (recording env) task sched1 sched2 (w, []) =
           (fst (run_task_body env task sched1 sched2 w),
            (snd (run_task_body env task sched1 sched2 w), evs))
         \<and> length (filter is_planner_call evs) \<le> 2
         \<and> (\<forall>t. VerifierCall t \<in> set evs \<longrightarrow> t = task)"
proof -
  obtain r1 w1 where cp: "create_plan env task w = (r1, w1)"
    by (cases "create_plan env task w")
  then have cpR: "create_plan (recording env) task (w, []) = (r1, (w1, [PlannerCall task]))"
    by (simp add: create_plan_recording)
  show ?thesis
  proof (cases r1)
    case (Inl e)
    with cp cpR show ?thesis by (simp add: run_task_body_def)
  next
    case r1: (Inr plan)
    obtain r2 w2 where ex: "execute env plan sched1 w1 = (r2, w2)"
      by (cases "execute env plan sched1 w1")
    then have exR: "execute (recording env) plan sched1 (w1, [PlannerCall task])
                      = (r2, (w2, [PlannerCall task]))"
      by (simp add: execute_recording)
    show ?thesis
    proof (cases r2)
      case (Inl e)
      with cp cpR r1 ex exR show ?thesis by (simp add: run_task_body_def)
    next
      case r2: (Inr steps)
      obtain r3 w3 where vf: "verify env task plan steps w2 = (r3, w3)"
        by (cases "verify env task plan steps w2")
      with verify_recording[of env task plan steps w2 "[PlannerCall task]"] obtain e3 where
        vfR: "verify (recording env) task plan steps (w2, [PlannerCall task])
                = (r3, (w3, [PlannerCall task] @ e3))"
        and e3: "e3 = [] \<or> e3 = [VerifierCall task]"
        by auto
      note first = cp cpR r1 ex exR r2 vf vfR
      show ?thesis
      proof (cases r3)
        case (Inl e)
        with first e3 show ?thesis by (auto simp: run_task_body_def)
      next
        case r3: (Inr final)
        show ?thesis
        proof (cases "sum_durations steps")
          case (Inl e)
          with first r3 e3 show ?thesis by (auto simp: run_task_body_def)
        next
          case sd: (Inr t)
          show ?thesis
          proof (cases "get final ''completeness'' = JStr ''partial''")
            case False
            with first r3 sd e3 show ?thesis by (auto simp: run_task_body_def)
          next
            case partial: True
            show ?thesis
            proof (cases "build_replan_task (py_repr env) task steps final")
              case (Inl e)
              with first r3 sd partial e3 show ?thesis
                by (auto simp: run_task_body_def py_repr_recording)
            next
              case (Inr rt)
              show ?thesis
              proof (cases rt)
                case None
                with first r3 sd partial Inr e3 show ?thesis
                  by (auto simp: run_task_body_def py_repr_recording)
              next
                case (Some replan_task)
                note br = Inr[unfolded Some]
                obtain r4 w4 where cp2: "create_plan env replan_task w3 = (r4, w4)"
                  by (cases "create_plan env replan_task w3")
                then have cp2R: "create_plan (recording env) replan_task (w3, [PlannerCall task] @ e3)
                                   = (r4, (w4, [PlannerCall task] @ e3 @ [PlannerCall replan_task]))"
                  by (simp add: create_plan_recording)
                show ?thesis
                proof (cases r4)
                  case (Inl e)
                  with first r3 sd partial br cp2 cp2R e3 show ?thesis
                    by (auto simp: run_task_body_def py_repr_recording)
                next
                  case r4: (Inr replan_plan)
                  obtain r5 w5 where ex2: "execute env replan_plan sched2 w4 = (r5, w5)"
                    by (cases "execute env replan_plan sched2 w4")
                  then have ex2R: "execute (recording env) replan_plan sched2
                                       (w4, [PlannerCall task] @ e3 @ [PlannerCall replan_task])
                                     = (r5, (w5, [PlannerCall task] @ e3 @ [PlannerCall replan_task]))"
                    by (simp add: execute_recording)
                  show ?thesis
                  proof (cases r5)
                    case (Inl e)
                    with first r3 sd partial br cp2 cp2R r4 ex2 ex2R e3 show ?thesis
                      by (auto simp: run_task_body_def py_repr_recording)
                  next
                    case r5: (Inr replan_steps)
                    obtain r6 w6 where vf2: "verify env task replan_plan replan_steps w5 = (r6, w6)"
                      by (cases "verify env task replan_plan replan_steps w5")
                    with verify_recording[of env task replan_plan replan_steps w5
                           "[PlannerCall task] @ e3 @ [PlannerCall replan_task]"]
                    obtain e6 where
                      vf2R: "verify (recording env) task replan_plan replan_steps
                               (w5, [PlannerCall task] @ e3 @ [PlannerCall replan_task])
                             = (r6, (w6, ([PlannerCall task] @ e3 @ [PlannerCall replan_task]) @ e6))"
                      and e6: "e6 = [] \<or> e6 = [VerifierCall task]"
                      by auto
                    from first r3 sd partial br cp2 cp2R r4 ex2 ex2R r5 vf2 vf2R e3 e6
                    show ?thesis
                      by (cases r6) (auto simp: run_task_body_def py_repr_recording)
                  qed
                qed
              qed
            qed
          qed
        qed
      qed
    qed
  qed
qed

text \<open>The run in which a replan takes place and every stage returns.\<close>

lemma run_task_body_replan:
  assumes "create_plan env task w = (Inr plan, w1)"
      and "execute env plan sched1 w1 = (Inr steps, w2)"
      and "verify env task plan steps w2 = (Inr final, w3)"
      and "sum_durations steps = Inr t"
      and "get final ''completeness'' = JStr ''partial''"
      and "build_replan_task (py_repr env) task steps final = Inr (Some replan_task)"
      and "create_plan env replan_task w3 = (Inr replan_plan, w4)"
      and "execute env replan_plan sched2 w4 = (Inr replan_steps, w5)"
      and "verify env task replan_plan replan_steps w5 = (Inr replan_final, w6)"
  shows "run_task_body env task sched1 sched2 w =
           (Inr (if get replan_final ''completeness'' = JStr ''complete''
                 then response task replan_plan replan_steps replan_final
                        (replan_envelope replan_task replan_plan replan_steps replan_final) t
                 else response task plan steps final
                        (replan_envelope replan_task replan_plan replan_steps replan_final) t), w6)"
    and "run_task_body (recording env) task sched1 sched2 (w, []) =
           (Inr (if get replan_final ''completeness'' = JStr ''complete''
                 then response task replan_plan replan_steps replan_final
                        (replan_envelope replan_task replan_plan replan_steps replan_final) t
                 else response task plan steps final
                        (replan_envelope replan_task replan_plan replan_steps replan_final) t),
            (w6, [PlannerCall task, VerifierCall task, PlannerCall replan_task, VerifierCall task]))"
proof -
  show "run_task_body env task sched1 sched2 w =
           (Inr (if get replan_final ''completeness'' = JStr ''complete''
                 then response task replan_plan replan_steps replan_final
                        (replan_envelope replan_task replan_plan replan_steps replan_final) t
                 else response task plan steps final
                        (replan_envelope replan_task replan_plan replan_steps replan_final) t), w6)"
    using assms by (simp add: run_task_body_def)
  have a: "create_plan (recording env) task (w, []) = (Inr plan, (w1, [PlannerCall task]))"
    using assms(1) by (simp add: create_plan_recording)
  have b: "execute (recording env) plan sched1 (w1, [PlannerCall task])
             = (Inr steps, (w2, [PlannerCall task]))"
    using assms(2) by (simp add: execute_recording)
  have c: "verify (recording env) task plan steps (w2, [PlannerCall task])
             = (Inr final, (w3, [PlannerCall task, VerifierCall task]))"
    using verify_recording_returns[OF assms(3), of "[PlannerCall task]"] by simp
  have d: "create_plan (recording env) replan_task (w3, [PlannerCall task, VerifierCall task])
             = (Inr replan_plan, (w4, [PlannerCall task, VerifierCall task, PlannerCall replan_task]))"
    using assms(7) by (simp add: create_plan_recording)
  have e: "execute (recording env) replan_plan sched2
               (w4, [PlannerCall task, VerifierCall task, PlannerCall replan_task])
             = (Inr replan_steps, (w5, [PlannerCall task, VerifierCall task, PlannerCall replan_task]))"
    using assms(8) by (simp add: execute_recording)
  have f: "verify (recording env) task replan_plan replan_steps
               (w5, [PlannerCall task, VerifierCall task, PlannerCall replan_task])
             = (Inr replan_final,
                (w6, [PlannerCall task, VerifierCall task, PlannerCall replan_task, VerifierCall task]))"
    using verify_recording_returns[OF assms(9),
            of "[PlannerCall task, VerifierCall task, PlannerCall replan_task]"] by simp
  show "run_task_body (recording env) task sched1 sched2 (w, []) =
           (Inr (if get replan_final ''completeness'' = JStr ''complete''
                 then response task replan_plan replan_steps replan_final
                        (replan_envelope replan_task replan_plan replan_steps replan_final) t
                 else response task plan steps final
                        (replan_envelope replan_task replan_plan replan_steps replan_final) t),
            (w6, [PlannerCall task, VerifierCall task, PlannerCall replan_task, VerifierCall task]))"
    using a b c d e f assms(4,5,6) by (simp add: run_task_body_def py_repr_recording)
qed

lemma run_task_Inr:
  "run_task_body env task sched1 sched2 w = (Inr r, w')
     \<Longrightarrow> run_task env task sched1 sched2 w = (Inr r, w')"
  by (simp add: run_task_def)

lemma run_task_recording:
  assumes "run_task_body (recording env) task sched1 sched2 (w, []) =
             (fst (run_task_body env task sched1 sched2 w),
              (snd (run_task_body env task sched1 sched2 w), evs))"
  shows "run_task (recording env) task sched1 sched2 (w, []) =
           (fst (run_task env task sched1 sched2 w),
            (snd (run_task env task sched1 sched2 w), evs))"
  using assms
  by (cases "run_task_body env task sched1 sched2 w";
      cases "fst (run_task_body env task sched1 sched2 w)")
     (simp_all add: run_task_def)

subsection \<open>One run in the example environment\<close>

lemma demo_run_first_plan: "create_plan partial_env demo_task 0 = (Inr demo1_plan, 1)"
  by code_simp

lemma demo_run_first_steps: "execute partial_env demo1_plan [0] 1 = (Inr [demo_result1], 2)"
  by code_simp


lemma demo_run_first_final:
  "verify partial_env demo_task demo1_plan [demo_result1] 2 = (Inr demo1_final, 4)"
  by code_simp

lemma demo_run_partial: "get demo1_final ''completeness'' = JStr ''partial''"
  by code_simp

lemma demo_run_replan_task:
  "build_replan_task (py_repr partial_env) demo_task [demo_result1] demo1_final
     = Inr (Some demo_replan_task)"
  by code_simp

lemma demo_run_second_plan: "create_plan partial_env demo_replan_task 4 = (Inr demo2_plan, 5)"
  by code_simp

lemma demo_run_second_steps: "execute partial_env demo2_plan [0] 5 = (Inr [demo_weather_ok], 6)"
  by code_simp

lemma demo_run_second_final:
  "verify partial_env demo_task demo2_plan [demo_weather_ok] 6 = (Inr demo1_final, 7)"
  by code_simp

text \<open>The fields of the response and of the envelope, as the caller reads them.\<close>

lemma response_fields:
  "get (response task plan steps final auto_replan t) ''task'' = JStr task"
  "get (response task plan steps final auto_replan t) ''plan'' = JObj plan"
  "get (response task plan steps final auto_replan t) ''steps'' = JList (map JObj steps)"
  "get (response task plan steps final auto_replan t) ''final'' = JObj final"
  "get (response task plan steps final auto_replan t) ''auto_replan'' = auto_replan"
  by (simp_all add: response_def get_def)

lemma replan_envelope_fields:
  "\<exists>envelope. replan_envelope replan_task replan_plan replan_steps replan_final = JObj envelope
     \<and> get envelope ''triggered'' = JBool True
     \<and> get envelope ''task'' = JStr replan_task
     \<and> get envelope ''plan'' = JObj replan_plan
     \<and> get envelope ''steps'' = JList (map JObj replan_steps)
     \<and> get envelope ''final'' = JObj replan_final"
  by (simp add: replan_envelope_def get_def)

text \<open>
  Claim C5. In every run of the orchestrator the planner's oracle is called at most twice,
  that is, at most one replan is attempted, and every call of the verifier's oracle carries
  the task of the request, never the corrective task. When the replan takes place and all
  its stages return, the oracle calls are exactly: planner with the task, verifier with the
  task, planner with the corrective task, verifier with the task (no third cycle follows,
  whatever the completeness of the second verification). The caller then reads, under
  \<^verbatim>\<open>plan\<close>, \<^verbatim>\<open>steps\<close> and \<^verbatim>\<open>final\<close> of the response, the replanned plan, steps and
  verification if the second verification is \<^verbatim>\<open>complete\<close>, and the first plan, steps and
  verification otherwise. In both cases it reads under \<^verbatim>\<open>auto_replan\<close> the envelope of the
  replan: a dict that is marked as triggered and holds the corrective task and the
  replanned plan, steps and verification.
\<close>

theorem run_task_replans_at_most_once:
  "\<exists>evs. run_task (recording env) task sched1 sched2 (w, []) =
           (fst (run_task env task sched1 sched2 w), (snd (run_task env task sched1 sched2 w), evs))
         \<and> length (filter is_planner_call evs) \<le> 2
         \<and> (\<forall>t. VerifierCall t \<in> set evs \<longrightarrow> t = task)
         \<and> (\<forall>plan w1 steps w2 final w3 replan_task replan_plan w4 replan_steps w5 replan_final w6.
               create_plan env task w = (Inr plan, w1)
               \<and> execute env plan sched1 w1 = (Inr steps, w2)
               \<and> verify env task plan steps w2 = (Inr final, w3)
               \<and> get final ''completeness'' = JStr ''partial''
               \<and> build_replan_task (py_repr env) task steps final = Inr (Some replan_task)
               \<and> create_plan env replan_task w3 = (Inr replan_plan, w4)
               \<and> execute env replan_plan sched2 w4 = (Inr replan_steps, w5)
               \<and> verify env task replan_plan replan_steps w5 = (Inr replan_final, w6)
               \<longrightarrow> evs = [PlannerCall task, VerifierCall task, PlannerCall replan_task, VerifierCall task]
                 \<and> (\<exists>resp envelope.
                       run_task env task sched1 sched2 w = (Inr resp, w6)
                     \<and> get resp ''task'' = JStr task
                     \<and> get resp ''plan'' =
                         JObj (if get replan_final ''completeness'' = JStr ''complete''
                               then replan_plan else plan)
                     \<and> get resp ''steps'' =
                         JList (map JObj (if get replan_final ''completeness'' = JStr ''complete''
                                          then replan_steps else steps))
                     \<and> get resp ''final'' =
                         JObj (if get replan_final ''completeness'' = JStr ''complete''
                               then replan_final else final)
                     \<and> get resp ''auto_replan'' = JObj envelope
                     \<and> get envelope ''triggered'' = JBool True
                     \<and> get envelope ''task'' = JStr replan_task
                     \<and> get envelope ''plan'' = JObj replan_plan
                     \<and> get envelope ''steps'' = JList (map JObj replan_steps)
                     \<and> get envelope ''final'' = JObj replan_final))"
proof -
  from run_task_body_recording[of env task sched1 sched2 w] obtain evs where
    body: "run_task_body (recording env) task sched1 sched2 (w, []) =
           (fst (run_task_body env task sched1 sched2 w),
            (snd (run_task_body env task sched1 sched2 w), evs))"
    and two: "length (filter is_planner_call evs) \<le> 2"
    and same: "\<forall>t. VerifierCall t \<in> set evs \<longrightarrow> t = task"
    by blast
  have run: "run_task (recording env) task sched1 sched2 (w, []) =
           (fst (run_task env task sched1 sched2 w), (snd (run_task env task sched1 sched2 w), evs))"
    by (rule run_task_recording[OF body])
  have full: "evs = [PlannerCall task, VerifierCall task, PlannerCall replan_task, VerifierCall task]
                 \<and> (\<exists>resp envelope.
                       run_task env task sched1 sched2 w = (Inr resp, w6)
                     \<and> get resp ''task'' = JStr task
                     \<and> get resp ''plan'' =
                         JObj (if get replan_final ''completeness'' = JStr ''complete''
                               then replan_plan else plan)
                     \<and> get resp ''steps'' =
                         JList (map JObj (if get replan_final ''completeness'' = JStr ''complete''
                                          then replan_steps else steps))
                     \<and> get resp ''final'' =
                         JObj (if get replan_final ''completeness'' = JStr ''complete''
                               then replan_final else final)
                     \<and> get resp ''auto_replan'' = JObj envelope
                     \<and> get envelope ''triggered'' = JBool True
                     \<and> get envelope ''task'' = JStr replan_task
                     \<and> get envelope ''plan'' = JObj replan_plan
                     \<and> get envelope ''steps'' = JList (map JObj replan_steps)
                     \<and> get envelope ''final'' = JObj replan_final)"
    if a: "create_plan env task w = (Inr plan, w1)"
      and b: "execute env plan sched1 w1 = (Inr steps, w2)"
      and c: "verify env task plan steps w2 = (Inr final, w3)"
      and d: "get final ''completeness'' = JStr ''partial''"
      and e: "build_replan_task (py_repr env) task steps final = Inr (Some replan_task)"
      and f: "create_plan env replan_task w3 = (Inr replan_plan, w4)"
      and g: "execute env replan_plan sched2 w4 = (Inr replan_steps, w5)"
      and h: "verify env task replan_plan replan_steps w5 = (Inr replan_final, w6)"
    for plan w1 steps w2 final w3 replan_task replan_plan w4 replan_steps w5 replan_final w6
  proof -
    from execute_sum_durations[OF b] obtain t where t: "sum_durations steps = Inr t" by blast
    note r = run_task_body_replan[OF a b c t d e f g h]
    from r(2) body have calls:
      "evs = [PlannerCall task, VerifierCall task, PlannerCall replan_task, VerifierCall task]"
      by simp
    from replan_envelope_fields[of replan_task replan_plan replan_steps replan_final]
    obtain envelope where
      env: "replan_envelope replan_task replan_plan replan_steps replan_final = JObj envelope"
      and fields: "get envelope ''triggered'' = JBool True"
        "get envelope ''task'' = JStr replan_task"
        "get envelope ''plan'' = JObj replan_plan"
        "get envelope ''steps'' = JList (map JObj replan_steps)"
        "get envelope ''final'' = JObj replan_final"
      by blast
    define resp where
      "resp = (if get replan_final ''completeness'' = JStr ''complete''
               then response task replan_plan replan_steps replan_final (JObj envelope) t
               else response task plan steps final (JObj envelope) t)"
    from run_task_Inr[OF r(1)] env
    have ret: "run_task env task sched1 sched2 w = (Inr resp, w6)"
      by (simp add: resp_def)
    have "get resp ''task'' = JStr task"
      and "get resp ''plan'' =
             JObj (if get replan_final ''completeness'' = JStr ''complete'' then replan_plan else plan)"
      and "get resp ''steps'' =
             JList (map JObj (if get replan_final ''completeness'' = JStr ''complete''
                              then replan_steps else steps))"
      and "get resp ''final'' =
             JObj (if get replan_final ''completeness'' = JStr ''complete'' then replan_final else final)"
      and "get resp ''auto_replan'' = JObj envelope"
      by (simp_all add: resp_def response_fields)
    with calls ret fields show ?thesis by blast
  qed
  from run two same full show ?thesis by blast
qed

theorem run_task_replans_at_most_once_witness:
  "create_plan partial_env demo_task 0 = (Inr demo1_plan, 1)
   \<and> execute partial_env demo1_plan [0] 1 = (Inr [demo_result1], 2)
   \<and> verify partial_env demo_task demo1_plan [demo_result1] 2 = (Inr demo1_final, 4)
   \<and> get demo1_final ''completeness'' = JStr ''partial''
   \<and> build_replan_task (py_repr partial_env) demo_task [demo_result1] demo1_final
        = Inr (Some demo_replan_task)
   \<and> create_plan partial_env demo_replan_task 4 = (Inr demo2_plan, 5)
   \<and> execute partial_env demo2_plan [0] 5 = (Inr [demo_weather_ok], 6)
   \<and> verify partial_env demo_task demo2_plan [demo_weather_ok] 6 = (Inr demo1_final, 7)
   \<and> (\<exists>resp envelope.
         run_task (recording partial_env) demo_task [0] [0] (0, []) =
           (Inr resp, (7, [PlannerCall demo_task, VerifierCall demo_task,
                           PlannerCall demo_replan_task, VerifierCall demo_task]))
       \<and> get resp ''task'' = JStr demo_task
       \<and> get resp ''plan'' = JObj demo1_plan
       \<and> get resp ''steps'' = JList [JObj demo_result1]
       \<and> get resp ''final'' = JObj demo1_final
       \<and> get resp ''auto_replan'' = JObj envelope
       \<and> get envelope ''triggered'' = JBool True
       \<and> get envelope ''task'' = JStr demo_replan_task
       \<and> get envelope ''plan'' = JObj demo2_plan
       \<and> get envelope ''steps'' = JList [JObj demo_weather_ok]
       \<and> get envelope ''final'' = JObj demo1_final)"
proof -
  note st = demo_run_first_plan demo_run_first_steps demo_run_first_final demo_run_partial
    demo_run_replan_task demo_run_second_plan demo_run_second_steps demo_run_second_final
  from run_task_replans_at_most_once[of partial_env demo_task "[0]" "[0]" 0] obtain evs where
    run: "run_task (recording partial_env) demo_task [0] [0] (0, []) =
           (fst (run_task partial_env demo_task [0] [0] 0),
            (snd (run_task partial_env demo_task [0] [0] 0), evs))"
    and full: "\<forall>plan w1 steps w2 final w3 replan_task replan_plan w4 replan_steps w5 replan_final w6.
               create_plan partial_env demo_task 0 = (Inr plan, w1)
               \<and> execute partial_env plan [0] w1 = (Inr steps, w2)
               \<and> verify partial_env demo_task plan steps w2 = (Inr final, w3)
               \<and> get final ''completeness'' = JStr ''partial''
               \<and> build_replan_task (py_repr partial_env) demo_task steps final = Inr (Some replan_task)
               \<and> create_plan partial_env replan_task w3 = (Inr replan_plan, w4)
               \<and> execute partial_env replan_plan [0] w4 = (Inr replan_steps, w5)
               \<and> verify partial_env demo_task replan_plan replan_steps w5 = (Inr replan_final, w6)
               \<longrightarrow> evs = [PlannerCall demo_task, VerifierCall demo_task,
                          PlannerCall replan_task, VerifierCall demo_task]
                 \<and> (\<exists>resp envelope.
                       run_task partial_env demo_task [0] [0] 0 = (Inr resp, w6)
                     \<and> get resp ''task'' = JStr demo_task
                     \<and> get resp ''plan'' =
                         JObj (if get replan_final ''completeness'' = JStr ''complete''
                               then replan_plan else plan)
                     \<and> get resp ''steps'' =
                         JList (map JObj (if get replan_final ''completeness'' = JStr ''complete''
                                          then replan_steps else steps))
                     \<and> get resp ''final'' =
                         JObj (if get replan_final ''completeness'' = JStr ''complete''
                               then replan_final else final)
                     \<and> get resp ''auto_replan'' = JObj envelope
                     \<and> get envelope ''triggered'' = JBool True
                     \<and> get envelope ''task'' = JStr replan_task
                     \<and> get envelope ''plan'' = JObj replan_plan
                     \<and> get envelope ''steps'' = JList (map JObj replan_steps)
                     \<and> get envelope ''final'' = JObj replan_final)"
    by blast
  from full[rule_format, of demo1_plan 1 "[demo_result1]" 2 demo1_final 4 demo_replan_task
              demo2_plan 5 "[demo_weather_ok]" 6 demo1_final 7] st
  obtain resp envelope where
    evs: "evs = [PlannerCall demo_task, VerifierCall demo_task,
                 PlannerCall demo_replan_task, VerifierCall demo_task]"
    and res: "run_task partial_env demo_task [0] [0] 0 = (Inr resp, 7)"
    and f1: "get resp ''task'' = JStr demo_task"
    and f2: "get resp ''plan'' =
               JObj (if get demo1_final ''completeness'' = JStr ''complete''
                     then demo2_plan else demo1_plan)"
    and f3: "get resp ''steps'' =
               JList (map JObj (if get demo1_final ''completeness'' = JStr ''complete''
                                then [demo_weather_ok] else [demo_result1]))"
    and f4: "get resp ''final'' =
               JObj (if get demo1_final ''completeness'' = JStr ''complete''
                     then demo1_final else demo1_final)"
    and f5: "get resp ''auto_replan'' = JObj envelope"
    and e1: "get envelope ''triggered'' = JBool True"
    and e2: "get envelope ''task'' = JStr demo_replan_task"
    and e3: "get envelope ''plan'' = JObj demo2_plan"
    and e4: "get envelope ''steps'' = JList (map JObj [demo_weather_ok])"
    and e5: "get envelope ''final'' = JObj demo1_final"
    by blast
  from run res evs have r: "run_task (recording partial_env) demo_task [0] [0] (0, []) =
           (Inr resp, (7, [PlannerCall demo_task, VerifierCall demo_task,
                           PlannerCall demo_replan_task, VerifierCall demo_task]))"
    by simp
  from f2 f3 demo_run_partial have g2: "get resp ''plan'' = JObj demo1_plan"
    and g3: "get resp ''steps'' = JList [JObj demo_result1]"
    by simp_all
  from f4 have g4: "get resp ''final'' = JObj demo1_final" by simp
  from e4 have h4: "get envelope ''steps'' = JList [JObj demo_weather_ok]" by simp
  from r f1 g2 g3 g4 f5 e1 e2 e3 h4 e5 have
    "\<exists>resp envelope.
         run_task (recording partial_env) demo_task [0] [0] (0, []) =
           (Inr resp, (7, [PlannerCall demo_task, VerifierCall demo_task,
                           PlannerCall demo_replan_task, VerifierCall demo_task]))
       \<and> get resp ''task'' = JStr demo_task
       \<and> get resp ''plan'' = JObj demo1_plan
       \<and> get resp ''steps'' = JList [JObj demo_result1]
       \<and> get resp ''final'' = JObj demo1_final
       \<and> get resp ''auto_replan'' = JObj envelope
       \<and> get envelope ''triggered'' = JBool True
       \<and> get envelope ''task'' = JStr demo_replan_task
       \<and> get envelope ''plan'' = JObj demo2_plan
       \<and> get envelope ''steps'' = JList [JObj demo_weather_ok]
       \<and> get envelope ''final'' = JObj demo1_final"
    by blast
  with st show ?thesis by simp
qed

subsection \<open>What the corrective task is built from\<close>










end
